(* ===== verification/Prelude.thy ===== *)
theory Prelude
  imports Main "HOL-Library.Word" "HOL-Library.Sublist"
begin

text \<open>
  Shared ground of the development: the machine types of the firmware, the decimal and
  padding formats its log lines use, wrap-around arithmetic on the millisecond clock,
  a dotted-decimal address codec, and reachability in a transition system with the
  contract of an invariant. Nothing here is specific to one component.
\<close>

section \<open>Machine types\<close>

type_synonym u8 = "8 word"
type_synonym u32 = "32 word"

named_theorems frames \<open>which fields of the state an operation leaves alone\<close>

lemma last_snoc_append [simp]: "last (xs @ [x]) = x"
  by simp

text \<open>Reading a list at growing positions gives a subsequence of it.\<close>

lemma subseq_positions_from:
  assumes "sorted_wrt (<) is" and "\<And>i. i \<in> set is \<Longrightarrow> k \<le> i \<and> i < length xs"
  shows "subseq (map ((!) xs) is) (drop k xs)"
  using assms
proof (induction "is" arbitrary: k)
  case (Cons i "is")
  have i: "k \<le> i" "i < length xs" using Cons.prems(2) [of i] by auto
  have "subseq (map ((!) xs) is) (drop (Suc i) xs)"
    using Cons.prems by (intro Cons.IH) (auto simp: Suc_le_eq)
  then have "subseq (map ((!) xs) (i # is)) (drop i xs)"
    using i by (simp flip: Cons_nth_drop_Suc)
  moreover have "drop k xs = take (i - k) (drop k xs) @ drop i xs"
    using i by (metis append_take_drop_id drop_drop le_add_diff_inverse2)
  ultimately show ?case by (metis subseq_drop_many)
qed simp

lemma subseq_positions:
  "sorted_wrt (<) is \<Longrightarrow> (\<And>i. i \<in> set is \<Longrightarrow> i < length xs) \<Longrightarrow> subseq (map ((!) xs) is) xs"
  using subseq_positions_from [of "is" 0 xs] by simp

section \<open>Decimal numbers and padding\<close>

definition digit_char :: "nat \<Rightarrow> char" where
  "digit_char d = char_of (48 + d)"

definition char_digit :: "char \<Rightarrow> nat" where
  "char_digit c = of_char c - 48"

definition is_digit :: "char \<Rightarrow> bool" where
  "is_digit c \<longleftrightarrow> 48 \<le> (of_char c :: nat) \<and> (of_char c :: nat) \<le> 57"

text \<open>The conversion of printf for an unsigned number, without leading zeros.\<close>

fun dec :: "nat \<Rightarrow> string" where
  "dec n = (if n < 10 then [digit_char n] else dec (n div 10) @ [digit_char (n mod 10)])"

declare dec.simps [simp del]

definition dec_int :: "int \<Rightarrow> string" where
  "dec_int z = (if z < 0 then CHR ''-'' # dec (nat (- z)) else dec (nat z))"

definition dec_bool :: "bool \<Rightarrow> string" where
  "dec_bool b = (if b then ''1'' else ''0'')"

definition dec_word :: "'a::len word \<Rightarrow> string" where
  "dec_word w = dec (unat w)"

definition pad_left :: "nat \<Rightarrow> char \<Rightarrow> string \<Rightarrow> string" where
  "pad_left k c s = replicate (k - length s) c @ s"

text \<open>Reading a run of decimal digits back.\<close>

definition undec :: "string \<Rightarrow> nat" where
  "undec s = foldl (\<lambda>n c. 10 * n + char_digit c) 0 s"

lemma of_char_digit_char: "d < 10 \<Longrightarrow> (of_char (digit_char d) :: nat) = 48 + d"
  by (simp add: digit_char_def)

lemma char_digit_digit_char [simp]: "d < 10 \<Longrightarrow> char_digit (digit_char d) = d"
  by (simp add: char_digit_def of_char_digit_char)

lemma is_digit_digit_char [simp]: "d < 10 \<Longrightarrow> is_digit (digit_char d)"
  by (simp add: is_digit_def of_char_digit_char)

lemma dec_nonempty [simp]: "dec n \<noteq> []"
  by (subst dec.simps) simp

lemma dec_digits: "c \<in> set (dec n) \<Longrightarrow> is_digit c"
proof (induction n rule: dec.induct)
  case (1 n)
  then show ?case by (subst (asm) dec.simps) (auto split: if_splits)
qed

lemma undec_snoc: "undec (s @ [c]) = 10 * undec s + char_digit c"
  by (simp add: undec_def)

lemma undec_dec [simp]: "undec (dec n) = n"
proof (induction n rule: dec.induct)
  case (1 n)
  show ?case
  proof (cases "n < 10")
    case True
    then show ?thesis by (subst dec.simps) (simp add: undec_def)
  next
    case False
    with "1.IH" have "undec (dec (n div 10)) = n div 10" by simp
    with False show ?thesis by (subst dec.simps) (simp add: undec_snoc)
  qed
qed

lemma dec_inject: "dec m = dec n \<longleftrightarrow> m = n"
  by (metis undec_dec)

section \<open>The millisecond clock\<close>

text \<open>
  \<open>millis()\<close> is a 32-bit counter that wraps every 49.7 days. The code measures an
  interval by unsigned subtraction; the lemmas say when that difference is the real
  number of milliseconds, wrap or no wrap, and what it is when the later reading was
  taken first.
\<close>

lemma elapsed_word:
  assumes "a \<le> b" and "b - a < 2 ^ 32"
  shows "unat (of_nat b - of_nat a :: u32) = b - a"
proof -
  have "of_nat b - of_nat a = (of_nat (b - a) :: u32)"
    using assms(1) by (simp add: of_nat_diff)
  with assms(2) show ?thesis
    by (simp add: unat_of_nat take_bit_nat_eq_self)
qed

lemma elapsed_word_le:
  assumes "a \<le> b" and "b - a < 2 ^ 32"
  shows "k \<le> (of_nat b - of_nat a :: u32) \<longleftrightarrow> unat k \<le> b - a"
  using elapsed_word [OF assms] by (simp add: word_le_nat_alt)

lemma elapsed_backwards:
  assumes "0 < d" and "d < 2 ^ 32"
  shows "unat (of_nat a - of_nat (a + d) :: u32) = 2 ^ 32 - d"
proof -
  have "of_nat (2 ^ 32 - d) + of_nat d = (of_nat (2 ^ 32) :: u32)"
    using assms(2) by (simp flip: of_nat_add)
  then have "of_nat (2 ^ 32 - d) + of_nat d = (0 :: u32)"
    by simp
  then have "- of_nat d = (of_nat (2 ^ 32 - d) :: u32)"
    by (intro minus_unique) (simp only: add.commute)
  then have eq: "(of_nat a - of_nat (a + d) :: u32) = of_nat (2 ^ 32 - d)"
    by simp
  show ?thesis
    unfolding eq using assms by (simp add: unat_of_nat take_bit_nat_eq_self del: of_nat_diff)
qed

section \<open>IPv4 addresses\<close>

text \<open>
  The framework's \<open>IPAddress\<close> holds four octets, the first one in the lowest byte of
  its 32-bit value.
\<close>

datatype ipaddr = IP (oct0: u8) (oct1: u8) (oct2: u8) (oct3: u8)

definition u32_of_ip :: "ipaddr \<Rightarrow> u32" where
  "u32_of_ip ip = ucast (oct0 ip) + 256 * ucast (oct1 ip) + 65536 * ucast (oct2 ip)
     + 16777216 * ucast (oct3 ip)"

definition ip_of_u32 :: "u32 \<Rightarrow> ipaddr" where
  "ip_of_u32 w = IP (ucast w) (ucast (w div 256)) (ucast (w div 65536)) (ucast (w div 16777216))"

abbreviation ip_unset :: ipaddr where
  "ip_unset \<equiv> IP 0 0 0 0"

lemma unat_lt2p_8: "unat (x :: u8) < 256"
proof -
  have "unat x < 2 ^ LENGTH(8)" by (rule unsigned_less)
  then show ?thesis by simp
qed

lemma unat_lt2p_32: "unat (x :: u32) < 4294967296"
proof -
  have "unat x < 2 ^ LENGTH(32)" by (rule unsigned_less)
  then show ?thesis by simp
qed

lemma unat_u32_of_ip:
  "unat (u32_of_ip ip) = unat (oct0 ip) + 256 * unat (oct1 ip) + 65536 * unat (oct2 ip)
     + 16777216 * unat (oct3 ip)"
proof -
  note b = unat_lt2p_8
  have u: "unat (ucast (x :: u8) :: u32) = unat x" for x
    using b [of x] by (simp add: unsigned_ucast_eq take_bit_nat_eq_self)
  have "unat (oct0 ip) + 256 * unat (oct1 ip) + 65536 * unat (oct2 ip)
     + 16777216 * unat (oct3 ip) < 2 ^ 32"
    using b [of "oct0 ip"] b [of "oct1 ip"] b [of "oct2 ip"] b [of "oct3 ip"] by simp
  then show ?thesis
    by (simp add: u32_of_ip_def unat_word_ariths u mod_simps)
qed

lemma u32_of_ip_eq_0 [simp]: "u32_of_ip ip = 0 \<longleftrightarrow> ip = ip_unset"
proof -
  have "u32_of_ip ip = 0 \<longleftrightarrow> unat (u32_of_ip ip) = 0"
    by (simp add: unat_eq_0)
  also have "\<dots> \<longleftrightarrow> ip = ip_unset"
    by (cases ip) (auto simp: unat_u32_of_ip unat_eq_0)
  finally show ?thesis .
qed

text \<open>Addresses are ordered as the network counts them, the first octet first.\<close>

definition ip_nat :: "ipaddr \<Rightarrow> nat" where
  "ip_nat ip = 256 * (256 * (256 * unat (oct0 ip) + unat (oct1 ip)) + unat (oct2 ip)) + unat (oct3 ip)"

lemma byte_inject: "256 * a + unat (x :: u8) = 256 * b + unat (y :: u8) \<longleftrightarrow> a = b \<and> x = y"
proof
  assume eq: "256 * a + unat x = 256 * b + unat y"
  then have "a = b" using unat_lt2p_8 [of x] unat_lt2p_8 [of y] by linarith
  with eq show "a = b \<and> x = y" by (simp add: word_unat_eq_iff)
qed simp

lemma ip_nat_inject: "ip_nat x = ip_nat y \<longleftrightarrow> x = y"
proof -
  have "256 * 0 + unat (oct0 z) = unat (oct0 z)" for z by simp
  then show ?thesis
    unfolding ip_nat_def byte_inject by (auto simp: word_unat_eq_iff ipaddr.expand)
qed

instantiation ipaddr :: linorder
begin

definition less_eq_ipaddr :: "ipaddr \<Rightarrow> ipaddr \<Rightarrow> bool" where
  "less_eq_ipaddr x y \<longleftrightarrow> ip_nat x \<le> ip_nat y"

definition less_ipaddr :: "ipaddr \<Rightarrow> ipaddr \<Rightarrow> bool" where
  "less_ipaddr x y \<longleftrightarrow> ip_nat x < ip_nat y"

instance
  by standard (auto simp: less_eq_ipaddr_def less_ipaddr_def ip_nat_inject)

end

section \<open>Transition systems\<close>

text \<open>
  States reachable from a set of initial ones, and the contract of an inductive
  invariant: it holds at the start and every step keeps it.
\<close>

inductive reach :: "('s \<Rightarrow> bool) \<Rightarrow> ('s \<Rightarrow> 's \<Rightarrow> bool) \<Rightarrow> 's \<Rightarrow> bool"
  for init :: "'s \<Rightarrow> bool" and step :: "'s \<Rightarrow> 's \<Rightarrow> bool" where
  reach_init: "init s \<Longrightarrow> reach init step s"
| reach_step: "reach init step s \<Longrightarrow> step s t \<Longrightarrow> reach init step t"

locale invariant_of =
  fixes init :: "'s \<Rightarrow> bool" and step :: "'s \<Rightarrow> 's \<Rightarrow> bool" and inv :: "'s \<Rightarrow> bool"
  assumes at_start: "init s \<Longrightarrow> inv s"
    and kept: "inv s \<Longrightarrow> step s t \<Longrightarrow> inv t"
begin

lemma always: "reach init step s \<Longrightarrow> inv s"
  by (induction rule: reach.induct) (auto intro: at_start kept)

end

text \<open>
  Refinement: a function maps the states of the detailed system to those of an abstract
  one, and under an invariant every step is a step of the abstract system or invisible
  there.
\<close>

locale simulation = invariant_of init step inv
  for init :: "'s \<Rightarrow> bool" and step :: "'s \<Rightarrow> 's \<Rightarrow> bool" and inv :: "'s \<Rightarrow> bool" +
  fixes ainit :: "'a \<Rightarrow> bool" and astep :: "'a \<Rightarrow> 'a \<Rightarrow> bool" and abs :: "'s \<Rightarrow> 'a"
  assumes start: "init s \<Longrightarrow> ainit (abs s)"
    and simulates: "inv s \<Longrightarrow> step s t \<Longrightarrow> abs t = abs s \<or> astep (abs s) (abs t)"
begin

lemma simulated: "reach init step s \<Longrightarrow> reach ainit astep (abs s)"
proof (induction rule: reach.induct)
  case (reach_init s)
  then show ?case by (intro reach.reach_init start)
next
  case (reach_step s t)
  then show ?case using simulates [OF always] by (metis reach.reach_step)
qed

lemma transfer: "reach init step s \<Longrightarrow> (\<And>a. reach ainit astep a \<Longrightarrow> P a) \<Longrightarrow> P (abs s)"
  using simulated by blast

end

text \<open>
  Turns of a loop that leave something open as it is until a turn settles it: \<open>keep s t\<close>
  says that nothing was settled between \<open>s\<close> and \<open>t\<close>.
\<close>

locale patient_loop =
  fixes turn :: "'e \<Rightarrow> 's \<Rightarrow> 's" and keep :: "'s \<Rightarrow> 's \<Rightarrow> bool"
    and is_open :: "'s \<Rightarrow> bool" and settled :: "'s \<Rightarrow> bool"
  assumes keep_refl: "keep s s"
    and keep_trans: "keep s t \<Longrightarrow> keep t u \<Longrightarrow> keep s u"
    and stays_open: "is_open s \<Longrightarrow> keep s t \<Longrightarrow> is_open t"
    and one_turn: "is_open s \<Longrightarrow> settled (turn e s) \<or> keep s (turn e s)"
begin

lemma many_turns:
  "is_open s \<Longrightarrow> (\<exists>n\<le>length es. settled (fold turn (take n es) s)) \<or> keep s (fold turn es s)"
proof (induction es arbitrary: s)
  case Nil
  then show ?case by (simp add: keep_refl)
next
  case (Cons e es)
  show ?case
  proof (cases "settled (turn e s)")
    case True
    then show ?thesis by (intro disjI1 exI [of _ 1]) simp
  next
    case False
    then have k: "keep s (turn e s)" using one_turn [OF Cons.prems] by blast
    from Cons.IH [OF stays_open [OF Cons.prems k]] show ?thesis
    proof (elim disjE exE conjE)
      fix n assume "n \<le> length es" "settled (fold turn (take n es) (turn e s))"
      then show ?thesis by (intro disjI1 exI [of _ "Suc n"]) simp
    qed (use k keep_trans in auto)
  qed
qed

text \<open>If a turn settles whatever is still open when it begins, it is settled by its end.\<close>

lemma settled_by:
  assumes "is_open s" and "keep s (fold turn es s) \<Longrightarrow> settled (turn e (fold turn es s))"
  shows "\<exists>n\<le>Suc (length es). settled (fold turn (take n (es @ [e])) s)"
proof (cases "keep s (fold turn es s)")
  case True
  then show ?thesis using assms(2) by (intro exI [of _ "Suc (length es)"]) simp
next
  case False
  then obtain n where "n \<le> length es" "settled (fold turn (take n es) s)"
    using many_turns [OF assms(1)] by blast
  then show ?thesis by (intro exI [of _ n]) simp
qed

end

end
