(* ===== verification/Logbuf.thy ===== *)
theory Logbuf
  imports Prelude
begin

text \<open>
  The in-memory log ring of \<^verbatim>\<open>src/logbuf.cpp\<close>: 96 slots of one cleaned line each, a
  write position and a saturating count. The abstract view is the list of the lines
  held, oldest first; the theory shows that a store appends to that list and forgets
  the oldest line beyond 96, that what is stored is free of escapes and line breaks,
  and that a reader who takes one line per critical section while other tasks log still
  sees a subsequence of the history. A C string is the list of its characters before
  the terminating NUL; a slot holds such a list instead of 128 bytes.
\<close>

section \<open>State and operations\<close>

definition kLines :: nat where
  "kLines = 96"

definition kLineLen :: nat where
  "kLineLen = 128"

record logbuf =
  g_lines :: "string list"
  g_head :: nat
  g_count :: nat

definition init_logbuf :: logbuf where
  "init_logbuf = \<lparr>g_lines = replicate kLines [], g_head = 0, g_count = 0\<rparr>"

abbreviation ESC :: char where "ESC \<equiv> CHR 0x1B"
abbreviation CR :: char where "CR \<equiv> CHR 0x0D"
abbreviation LF :: char where "LF \<equiv> CHR 0x0A"
abbreviation NUL :: char where "NUL \<equiv> CHR 0x00"

text \<open>The part of a character buffer that C reads as a string.\<close>

definition c_str :: "string \<Rightarrow> string" where
  "c_str s = takeWhile (\<lambda>c. c \<noteq> NUL) s"

text \<open>The inner loop of \<open>store\<close>: stop on the \<open>m\<close> that ends an escape, or at the end.\<close>

fun skip_escape :: "string \<Rightarrow> string" where
  "skip_escape [] = []"
| "skip_escape (c # cs) = (if c = CHR ''m'' then c # cs else skip_escape cs)"

lemma length_skip_escape: "length (skip_escape s) \<le> length s"
  by (induction s) auto

text \<open>The outer loop: \<open>w\<close> characters have been written so far.\<close>

function clean_from :: "nat \<Rightarrow> string \<Rightarrow> string" where
  "clean_from w [] = []"
| "clean_from w (c # cs) =
     (if \<not> w < kLineLen - 1 then []
      else if c = ESC then
        (case skip_escape (c # cs) of [] \<Rightarrow> [] | m # rest \<Rightarrow> clean_from w rest)
      else if c = CR \<or> c = LF then clean_from w cs
      else c # clean_from (Suc w) cs)"
  by pat_completeness auto
termination
proof (relation "measure (\<lambda>(w, s). length s)", goal_cases)
  case (2 w c cs m rest)
  then show ?case using length_skip_escape [of cs] by (simp split: if_splits)
qed auto

definition clean :: "string \<Rightarrow> string" where
  "clean text = clean_from 0 (c_str text)"

definition store :: "string \<Rightarrow> logbuf \<Rightarrow> logbuf" where
  "store text l =
     (let line = clean text in
      if length line = 0 then l
      else l\<lparr>g_lines := (g_lines l)[g_head l := line],
             g_head := (g_head l + 1) mod kLines,
             g_count := (if g_count l < kLines then g_count l + 1 else g_count l)\<rparr>)"

text \<open>
  \<open>render\<close> leaves its critical section between two lines, so the ring it reads can differ
  from one iteration to the next: \<open>ls i\<close> is the ring as iteration \<open>i\<close> finds it.
\<close>

definition slot_line :: "logbuf \<Rightarrow> nat \<Rightarrow> string" where
  "slot_line l i = g_lines l ! ((g_head l + kLines - g_count l + i) mod kLines)"

function render_from :: "(nat \<Rightarrow> logbuf) \<Rightarrow> nat \<Rightarrow> string list" where
  "render_from ls i =
     (if i < kLines then
        (if g_count (ls i) \<le> i then []
         else take (kLineLen - 1) (slot_line (ls i) i) # render_from ls (Suc i))
      else [])"
  by pat_completeness auto
termination
  by (relation "measure (\<lambda>(ls, i). kLines - i)") auto

declare render_from.simps [simp del]

definition render :: "(nat \<Rightarrow> logbuf) \<Rightarrow> string \<Rightarrow> string" where
  "render ls out = out @ concat (map (\<lambda>line. line @ [LF]) (render_from ls 0))"

definition count :: "logbuf \<Rightarrow> nat" where
  "count l = g_count l"

section \<open>What a stored line looks like\<close>

definition line_ok :: "string \<Rightarrow> bool" where
  "line_ok s \<longleftrightarrow> s \<noteq> [] \<and> length s \<le> kLineLen - 1 \<and>
     list_all (\<lambda>c. c \<noteq> ESC \<and> c \<noteq> CR \<and> c \<noteq> LF \<and> c \<noteq> NUL) s"

lemma set_skip_escape: "set (skip_escape s) \<subseteq> set s"
  by (induction s) auto

lemma clean_from_length: "w \<le> kLineLen - 1 \<Longrightarrow> length (clean_from w s) \<le> kLineLen - 1 - w"
proof (induction w s rule: clean_from.induct)
  case (2 w c cs)
  then show ?case
    by (cases "skip_escape cs") (auto simp: Suc_diff_Suc kLineLen_def split: if_splits list.splits)
qed simp

lemma clean_from_set: "set (clean_from w s) \<subseteq> set s - {ESC, CR, LF}"
proof (induction w s rule: clean_from.induct)
  case (2 w c cs)
  show ?case
  proof (cases "c = ESC \<and> w < kLineLen - 1")
    case True
    then show ?thesis
      using "2.IH"(1) set_skip_escape [of cs] by (cases "skip_escape cs") auto
  next
    case False
    then show ?thesis using "2.IH"(2,3) by (cases "c = CR \<or> c = LF") auto
  qed
qed simp

lemma clean_line_ok: "clean text \<noteq> [] \<Longrightarrow> line_ok (clean text)"
  using clean_from_length [of 0 "c_str text"] clean_from_set [of 0 "c_str text"]
  by (force simp: line_ok_def clean_def c_str_def list_all_iff dest: set_takeWhileD)

text \<open>A text without anything to strip is kept as it is, up to the width of a slot.\<close>

lemma clean_from_plain:
  "list_all (\<lambda>c. c \<noteq> ESC \<and> c \<noteq> CR \<and> c \<noteq> LF) s \<Longrightarrow> w \<le> kLineLen - 1 \<Longrightarrow>
     clean_from w s = take (kLineLen - 1 - w) s"
proof (induction s arbitrary: w)
  case (Cons c cs)
  show ?case
  proof (cases "w < kLineLen - 1")
    case True
    then have "kLineLen - 1 - w = Suc (kLineLen - 1 - Suc w)" by simp
    with True Cons show ?thesis by simp
  next
    case False
    with Cons.prems show ?thesis by simp
  qed
qed simp

section \<open>The ring as a bounded history\<close>

definition last_n :: "nat \<Rightarrow> 'a list \<Rightarrow> 'a list" where
  "last_n n xs = drop (length xs - n) xs"

lemma length_last_n [simp]: "length (last_n n xs) = min n (length xs)"
  by (simp add: last_n_def)

lemma last_n_append: "last_n n (last_n n xs @ ys) = last_n n (xs @ ys)"
  by (cases "length xs \<le> n") (simp_all add: last_n_def add.commute)

lemma last_n_Nil [simp]: "last_n n [] = []"
  by (simp add: last_n_def)

lemma last_n_nth: "i < min n (length xs) \<Longrightarrow> last_n n xs ! i = xs ! (length xs - min n (length xs) + i)"
  by (auto simp: last_n_def min_def)

definition contents :: "logbuf \<Rightarrow> string list" where
  "contents l = map (slot_line l) [0..<g_count l]"

definition ring_ok :: "logbuf \<Rightarrow> bool" where
  "ring_ok l \<longleftrightarrow> length (g_lines l) = kLines \<and> g_head l < kLines \<and> g_count l \<le> kLines \<and>
     (g_count l < kLines \<longrightarrow> g_head l = g_count l) \<and> list_all line_ok (contents l)"

definition log_entry :: "string \<Rightarrow> string list" where
  "log_entry text = (if clean text = [] then [] else [clean text])"

text \<open>
  Positions: before the ring is full the lines start at slot 0; once it is full they
  start at the write position.
\<close>

lemma slot_index:
  assumes "ring_ok l" and "i < g_count l"
  shows "(g_head l + kLines - g_count l + i) mod kLines
         = (if g_count l < kLines then i else (g_head l + i) mod kLines)"
  using assms by (auto simp: ring_ok_def kLines_def)

lemma store_skip [simp]: "clean text = [] \<Longrightarrow> store text l = l"
  by (simp add: store_def)

lemma store_count:
  "clean text \<noteq> [] \<Longrightarrow> g_count (store text l) = min kLines (Suc (g_count l))"
  if "ring_ok l"
  using that by (auto simp: store_def ring_ok_def)

lemma contents_store_full:
  assumes ok: "ring_ok l" and c: "g_count l = kLines" and line: "clean text \<noteq> []"
  shows "contents (store text l) = tl (contents l) @ [clean text]"
proof -
  let ?l' = "store text l"
  have L: "length (g_lines l) = kLines" "g_head l < kLines" using ok by (auto simp: ring_ok_def)
  have new: "slot_line ?l' i = (g_lines l)[g_head l := clean text] ! ((g_head l + Suc i) mod kLines)" for i
    using c line by (simp add: slot_line_def store_def mod_simps)
  have old: "slot_line l i = g_lines l ! ((g_head l + i) mod kLines)" for i
    using c by (simp add: slot_line_def)
  have shift: "slot_line ?l' i = slot_line l (Suc i)" if "i < kLines - 1" for i
  proof -
    have "g_head l \<noteq> (g_head l + Suc i) mod kLines"
      using that L by (auto simp: kLines_def mod_if)
    then show ?thesis unfolding new old by (rule nth_list_update_neq)
  qed
  have "(g_head l + Suc (kLines - 1)) mod kLines = g_head l"
    using L by (simp add: kLines_def)
  with L have last: "slot_line ?l' (kLines - 1) = clean text"
    by (simp only: new nth_list_update_eq)
  have upt: "[0..<kLines] = [0..<kLines - 1] @ [kLines - 1]"
    by (simp add: kLines_def flip: upt_Suc_append)
  have "contents ?l' = map (slot_line ?l') [0..<kLines]"
    using c line ok by (simp add: contents_def store_count)
  also have "\<dots> = map (slot_line l) (map Suc [0..<kLines - 1]) @ [clean text]"
    using shift last by (simp add: upt)
  also have "map Suc [0..<kLines - 1] = tl [0..<g_count l]"
    using c by (simp add: map_Suc_upt kLines_def tl_upt)
  finally show ?thesis by (simp only: contents_def map_tl)
qed

lemma contents_store_room:
  assumes ok: "ring_ok l" and room: "g_count l < kLines" and line: "clean text \<noteq> []"
  shows "contents (store text l) = contents l @ [clean text]"
proof -
  let ?l' = "store text l"
  have L: "length (g_lines l) = kLines" and h: "g_head l = g_count l"
    using ok room by (simp_all add: ring_ok_def)
  have "slot_line ?l' i = (g_lines l)[g_count l := clean text] ! i" if "i \<le> g_count l" for i
    using that room line L h
    by (cases "Suc (g_count l) = kLines") (auto simp: slot_line_def store_def kLines_def)
  moreover have "slot_line l i = g_lines l ! i" if "i < g_count l" for i
    using slot_index [OF ok that] room by (simp only: slot_line_def if_True)
  moreover have "g_count ?l' = Suc (g_count l)" using room line ok by (simp add: store_count)
  ultimately show ?thesis using room L by (auto simp: contents_def)
qed

lemma contents_store:
  assumes ok: "ring_ok l"
  shows "contents (store text l) = last_n kLines (contents l @ log_entry text)"
proof -
  have len: "length (contents l) = g_count l" "g_count l \<le> kLines"
    using ok by (auto simp: contents_def ring_ok_def)
  consider "clean text = []" | "clean text \<noteq> []" "g_count l < kLines" | "clean text \<noteq> []" "g_count l = kLines"
    using len(2) by linarith
  then show ?thesis
  proof cases
    case 3
    then show ?thesis
      using len contents_store_full [OF ok 3(2,1)]
      by (simp add: log_entry_def last_n_def drop_Suc kLines_def)
  qed (use len contents_store_room [OF ok] in \<open>simp_all add: log_entry_def last_n_def\<close>)
qed

lemma line_ok_entry: "list_all line_ok (log_entry text)"
  by (simp add: log_entry_def clean_line_ok)

lemma list_all_last_n: "list_all P xs \<Longrightarrow> list_all P (last_n n xs)"
  by (auto simp: last_n_def list_all_iff dest: in_set_dropD)

lemma ring_ok_init: "ring_ok init_logbuf"
  by (simp add: ring_ok_def init_logbuf_def contents_def kLines_def)

lemma contents_init: "contents init_logbuf = []"
  by (simp add: init_logbuf_def contents_def)

lemma ring_ok_store:
  assumes ok: "ring_ok l"
  shows "ring_ok (store text l)"
proof -
  have "list_all line_ok (contents (store text l))"
    using ok by (auto simp: contents_store ring_ok_def line_ok_entry intro!: list_all_last_n)
  moreover have "g_head (store text l) < kLines"
    using ok by (auto simp: ring_ok_def store_def Let_def kLines_def)
  moreover have "g_count (store text l) < kLines \<longrightarrow> g_head (store text l) = g_count (store text l)"
    using ok by (auto simp: ring_ok_def store_def Let_def kLines_def)
  ultimately show ?thesis
    using ok by (auto simp: ring_ok_def store_def Let_def)
qed

lemma length_contents [simp]: "length (contents l) = g_count l"
  by (simp add: contents_def)

section \<open>The contract of a bounded log\<close>

text \<open>
  What a writer and a reader may rely on: an append adds entries at the end and drops
  the oldest beyond the capacity. The lemmas in the locale use nothing else.
\<close>

locale bounded_log =
  fixes cap :: nat and empty :: 'l and append :: "'x \<Rightarrow> 'l \<Rightarrow> 'l"
    and entries :: "'x \<Rightarrow> 'e list" and held :: "'l \<Rightarrow> 'e list" and ok :: "'l \<Rightarrow> bool"
  assumes ok_empty: "ok empty"
    and held_empty: "held empty = []"
    and ok_append: "ok l \<Longrightarrow> ok (append x l)"
    and held_append: "ok l \<Longrightarrow> held (append x l) = last_n cap (held l @ entries x)"
begin

definition history :: "'x list \<Rightarrow> 'e list" where
  "history xs = concat (map entries xs)"

lemma ok_run: "ok l \<Longrightarrow> ok (fold append xs l)"
  by (induction xs arbitrary: l) (auto intro: ok_append)

lemma held_run: "held (fold append xs empty) = last_n cap (history xs)"
proof (induction xs rule: rev_induct)
  case Nil
  then show ?case by (simp add: held_empty history_def)
next
  case (snoc x xs)
  then show ?case
    using held_append [OF ok_run [OF ok_empty]] by (simp add: history_def last_n_append)
qed

text \<open>Entry \<open>i\<close> of the log after some appends, as a position in the whole history.\<close>

lemma held_nth:
  assumes "i < length (held (fold append (take n xs) empty))"
  shows "held (fold append (take n xs) empty) ! i
    = history xs ! (length (history (take n xs)) - min cap (length (history (take n xs))) + i)"
    (is "_ = history xs ! ?k")
    and "length (history (take n xs)) - min cap (length (history (take n xs))) + i
      < length (history xs)"
proof -
  let ?h = "history (take n xs)"
  have h: "history xs = ?h @ history (drop n xs)"
    by (simp add: history_def flip: concat_append map_append)
  have i: "i < min cap (length ?h)" using assms by (simp add: held_run)
  then have k: "?k < length ?h" by arith
  have "length ?h \<le> length (history xs)"
    by (subst h) (simp only: length_append le_add1)
  with k show "?k < length (history xs)" by (rule less_le_trans)
  from i have "held (fold append (take n xs) empty) ! i = ?h ! ?k"
    by (simp add: held_run last_n_nth)
  also have "\<dots> = history xs ! ?k"
    by (subst h) (rule nth_append_left [OF k, symmetric])
  finally show "held (fold append (take n xs) empty) ! i = history xs ! ?k" .
qed

end

interpretation ring: bounded_log kLines init_logbuf store log_entry contents ring_ok
  by unfold_locales (auto simp: ring_ok_init contents_init ring_ok_store contents_store)

section \<open>Reading the log\<close>

lemma slot_contents: "i < g_count l \<Longrightarrow> slot_line l i = contents l ! i"
  by (simp add: contents_def)

lemma take_line_ok: "line_ok s \<Longrightarrow> take (kLineLen - Suc 0) s = s"
  by (simp add: line_ok_def)

lemma render_from_contents:
  assumes "\<And>i. ring_ok (ls i)"
  shows "\<exists>m. i \<le> m \<and> (\<forall>j\<in>{i..<m}. j < g_count (ls j)) \<and>
    render_from ls i = map (\<lambda>j. contents (ls j) ! j) [i..<m]"
  using assms
proof (induction ls i rule: render_from.induct)
  case (1 ls i)
  show ?case
  proof (cases "i < kLines \<and> i < g_count (ls i)")
    case True
    with "1.IH" "1.prems" obtain m where m: "Suc i \<le> m" "\<forall>j\<in>{Suc i..<m}. j < g_count (ls j)"
      and r: "render_from ls (Suc i) = map (\<lambda>j. contents (ls j) ! j) [Suc i..<m]"
      by fastforce
    have "line_ok (contents (ls i) ! i)"
      using "1.prems" [of i] True by (simp add: ring_ok_def list_all_length)
    then have "render_from ls i = map (\<lambda>j. contents (ls j) ! j) [i..<m]"
      using True m(1) r
      by (subst render_from.simps) (simp add: slot_contents take_line_ok upt_conv_Cons)
    moreover have "\<forall>j\<in>{i..<m}. j < g_count (ls j)"
      using m(2) True by (auto simp: Suc_le_eq le_less)
    ultimately show ?thesis using m(1) by (intro exI [of _ m]) simp
  next
    case False
    then show ?thesis by (intro exI [of _ i]) (auto simp: render_from.simps [of ls i])
  qed
qed

lemma render_from_still:
  assumes ok: "ring_ok l" and "i \<le> g_count l"
  shows "render_from (\<lambda>_. l) i = drop i (contents l)"
  using assms(2)
proof (induction "g_count l - i" arbitrary: i)
  case 0
  then show ?case by (simp add: render_from.simps [of _ i])
next
  case (Suc n)
  then have i: "i < g_count l" by simp
  with ok have lim: "i < kLines" and "line_ok (contents l ! i)"
    by (auto simp: ring_ok_def list_all_length)
  moreover have "render_from (\<lambda>_. l) (Suc i) = drop (Suc i) (contents l)"
    using Suc.hyps(2) i by (intro Suc.hyps(1)) auto
  ultimately show ?case
    using i by (simp add: render_from.simps [of _ i] slot_contents take_line_ok Cons_nth_drop_Suc)
qed

text \<open>
  A ring that other tasks write between two lines: iteration \<open>i\<close> finds the ring after the
  first \<open>n i\<close> of the texts ever logged.
\<close>

definition ring_after :: "string list \<Rightarrow> nat \<Rightarrow> logbuf" where
  "ring_after texts n = fold store (take n texts) init_logbuf"

definition log_history :: "string list \<Rightarrow> string list" where
  "log_history texts = concat (map log_entry texts)"

lemma ring_history [simp]: "ring.history = log_history"
  by (rule ext) (simp add: ring.history_def log_history_def)

lemma ring_ok_after: "ring_ok (ring_after texts n)"
  unfolding ring_after_def by (rule ring.ok_run [OF ring_ok_init])

lemma ring_after_nth:
  assumes "i < g_count (ring_after texts n)"
  shows "contents (ring_after texts n) ! i
    = log_history texts ! (length (log_history (take n texts)) - kLines + i)"
    and "length (log_history (take n texts)) - kLines + i < length (log_history texts)"
proof -
  have i: "i < length (contents (fold store (take n texts) init_logbuf))"
    using assms by (simp add: ring_after_def)
  have k: "length xs - min kLines (length xs) = length xs - kLines" for xs :: "string list"
    by simp
  from ring.held_nth [OF i, unfolded ring_history k]
  show "contents (ring_after texts n) ! i
    = log_history texts ! (length (log_history (take n texts)) - kLines + i)"
    and "length (log_history (take n texts)) - kLines + i < length (log_history texts)"
    by (simp_all only: ring_after_def)
qed

lemma length_log_history_take_mono:
  assumes "m \<le> n"
  shows "length (log_history (take m texts)) \<le> length (log_history (take n texts))"
proof -
  have "take n texts = take m texts @ drop m (take n texts)"
    using assms by (metis append_take_drop_id min.absorb1 take_take)
  then have "log_history (take n texts) = log_history (take m texts) @ log_history (drop m (take n texts))"
    by (metis concat_append log_history_def map_append)
  then show ?thesis by simp
qed

section \<open>Properties\<close>

text \<open>C27. The log holds exactly the last 96 non-empty cleaned lines written since boot,
  in the order they were written.\<close>

theorem log_is_recent_history:
  "contents (fold store texts init_logbuf) = last_n kLines (log_history texts)"
  using ring.held_run [of texts] by simp

text \<open>C28. Reading the log while other tasks write to it between any two lines shows a
  subsequence of the lines written: in order, none repeated, none invented.\<close>

theorem render_concurrent:
  assumes "mono n"
  shows "subseq (render_from (\<lambda>i. ring_after texts (n i)) 0) (log_history texts)"
proof -
  let ?ls = "\<lambda>i. ring_after texts (n i)"
  let ?pos = "\<lambda>j. length (log_history (take (n j) texts)) - kLines + j"
  from render_from_contents [of ?ls 0, OF ring_ok_after] obtain m
    where "\<forall>j\<in>{0..<m}. j < g_count (?ls j)"
      and r: "render_from ?ls 0 = map (\<lambda>j. contents (?ls j) ! j) [0..<m]"
    by blast
  then have m: "j < g_count (?ls j)" if "j < m" for j using that by simp
  have "render_from ?ls 0 = map ((!) (log_history texts)) (map ?pos [0..<m])"
    using m by (simp add: r ring_after_nth(1))
  moreover have "?pos i < ?pos j" if "i < j" for i j
    using that assms [THEN monoD, of i j]
      length_log_history_take_mono [of "n i" "n j" texts] by simp
  then have "sorted_wrt (<) (map ?pos [0..<m])"
    by (simp add: sorted_wrt_map sorted_wrt_iff_nth_less)
  moreover have "i < length (log_history texts)" if "i \<in> set (map ?pos [0..<m])" for i
    using that m ring_after_nth(2) by auto
  ultimately show ?thesis by (simp only: subseq_positions)
qed

theorem render_concurrent_witness:
  "subseq (render_from (\<lambda>i. ring_after [''one'', ''two'', ''three''] (i + 2)) 0)
     (log_history [''one'', ''two'', ''three''])"
  by (rule render_concurrent) (simp add: monoI)

text \<open>With no writer in between, \<open>render\<close> appends every line held, oldest first, each
  followed by a line feed.\<close>

theorem render_still:
  "render (\<lambda>_. fold store texts init_logbuf) out
     = out @ concat (map (\<lambda>line. line @ [LF]) (last_n kLines (log_history texts)))"
proof -
  have "ring_ok (fold store texts init_logbuf)"
    by (rule ring.ok_run [OF ring_ok_init])
  then show ?thesis
    using ring.held_run [of texts] by (simp add: render_def render_from_still)
qed

text \<open>C31. Every line the log holds is non-empty, at most 127 characters long and free of
  escape, carriage-return, line-feed and NUL characters, whatever was logged.\<close>

theorem log_lines_clean:
  "list_all line_ok (contents (fold store texts init_logbuf)) \<and>
     g_count (fold store texts init_logbuf) \<le> kLines"
  using ring.ok_run [OF ring_ok_init, of texts] by (simp add: ring_ok_def)

end
