(* ===== verification/Platform.thy ===== *)
theory Platform
  imports Logbuf
begin

text \<open>
  What every component shares: the millisecond clock, the log (\<open>logbuf::printf\<close> and the
  framework log hook) and the calls made to the framework and the hardware. The clock
  is a tape of readings, one per call of \<open>millis()\<close>, so that two calls in one function
  may differ; calls to code outside the repository are recorded in order, and their
  answers are arguments of the operations that make them. The record \<open>io\<close> is the base of
  the firmware state: each component extends it by its own global variables.
\<close>

text \<open>The configuration of a ping session, without its address type and interface, which are
  fixed.\<close>

record ping_config =
  target_addr :: ipaddr
  ping_count :: u32
  interval_ms :: u32
  timeout_ms :: u32
  data_size :: u32
  tos :: u8
  ttl :: u32
  task_stack_size :: u32
  task_prio :: u32
  interface :: u32

datatype dev_call =
    RgbWrite nat u8 u8 u8
  | EnableNapt bool
  | SetAutoReconnect bool
  | StaDisconnect bool bool u32
  | EapSetIdentity string nat
  | EapSetUsername string nat
  | EapSetPassword string nat
  | EnterpriseEnable
  | StaBegin string "string option"
  | ApBegin
  | ApConfig ipaddr ipaddr ipaddr ipaddr ipaddr
  | ApCreateWpa2Psk string string u8 u8 u8 bool
  | ApWaitStarted u32
  | DhcpsStop
  | DhcpsSetLease u32
  | DhcpsSetDns ipaddr
  | DhcpsSetOffer
  | DhcpsStart
  | PingNew ping_config "nat option"
  | PingStart "nat option"
  | PingStop "nat option"
  | PingDelete "nat option"
  | DeauthSta nat
  | SerialFlush
  | Delay u32
  | Restart
  | SupervisorCreate u32 nat nat
  | SerialBegin u32
  | InstallLogHook
  | WifiModeApSta
  | OnWifiEvent
  | PortalListen
  | HostByName string
  | TcpConnect ipaddr nat u32
  | TcpStop
  | ScanNetworks
  | ScanDelete

record io =
  clock :: "nat \<Rightarrow> u32"
  tick :: nat
  log_ring :: logbuf
  serial :: "string list"
  calls :: "dev_call list"

definition millis :: "'a io_scheme \<Rightarrow> u32 \<times> 'a io_scheme" where
  "millis s = (clock s (tick s), s\<lparr>tick := Suc (tick s)\<rparr>)"

definition call :: "dev_call \<Rightarrow> 'a io_scheme \<Rightarrow> 'a io_scheme" where
  "call c s = s\<lparr>calls := calls s @ [c]\<rparr>"

text \<open>
  \<open>vsnprintf\<close> into a buffer of 128 bytes keeps 127 characters. The argument is the text
  the format and its arguments denote.
\<close>

definition log_printf :: "string \<Rightarrow> 'a io_scheme \<Rightarrow> 'a io_scheme" where
  "log_printf txt s =
     (let buf = take (kLineLen - 1) txt
      in s\<lparr>serial := serial s @ [buf], log_ring := store buf (log_ring s)\<rparr>)"

text \<open>
  The framework log hook: \<open>n\<close> is what \<open>vsnprintf\<close> returns, negative on an encoding
  error; the text goes on to the sink that was installed before.
\<close>

definition hookVprintf :: "int \<Rightarrow> string \<Rightarrow> 'a io_scheme \<Rightarrow> 'a io_scheme" where
  "hookVprintf n txt s =
     (let s = (if n > 0 then s\<lparr>log_ring := store (take (kLineLen - 1) txt) (log_ring s)\<rparr> else s)
      in s\<lparr>serial := serial s @ [txt]\<rparr>)"

text \<open>\<open>logbuf::begin()\<close> installs the hook and keeps the sink that was there.\<close>

definition logbuf_begin :: "'a io_scheme \<Rightarrow> 'a io_scheme" where
  [simp]: "logbuf_begin s = call InstallLogHook s"

text \<open>The prefix \<open>"[%10lu] "\<close> that carries the time of a line.\<close>

definition stamp :: "u32 \<Rightarrow> string" where
  "stamp t = ''['' @ pad_left 10 (CHR '' '') (dec_word t) @ ''] ''"

definition log_at :: "string \<Rightarrow> 'a io_scheme \<Rightarrow> 'a io_scheme" where
  "log_at msg s = (let (t, s) = millis s in log_printf (stamp t @ msg @ [LF]) s)"

text \<open>The UTF-8 bytes of an em dash, which several messages contain.\<close>

definition em_dash :: string where
  "em_dash = [CHR 0xE2, CHR 0x80, CHR 0x94]"

section \<open>Equations the components use\<close>

lemma millis_simps [simp]:
  "fst (millis s) = clock s (tick s)"
  "snd (millis s) = s\<lparr>tick := Suc (tick s)\<rparr>"
  by (simp_all add: millis_def)

lemma case_millis [simp]:
  "(case millis s of (t, r) \<Rightarrow> f t r) = f (clock s (tick s)) (s\<lparr>tick := Suc (tick s)\<rparr>)"
  by (simp add: millis_def)

lemma log_at_eq:
  "log_at msg s = s\<lparr>tick := Suc (tick s),
     log_ring := store (take (kLineLen - 1) (stamp (clock s (tick s)) @ msg @ [LF])) (log_ring s),
     serial := serial s @ [take (kLineLen - 1) (stamp (clock s (tick s)) @ msg @ [LF])]\<rparr>"
  by (simp add: log_at_def log_printf_def Let_def)

lemma log_at_frames [simp]:
  "clock (log_at msg s) = clock s"
  "calls (log_at msg s) = calls s"
  "tick (log_at msg s) = Suc (tick s)"
  "io.more (log_at msg s) = io.more s"
  by (simp_all add: log_at_eq)

lemma call_frames [simp]:
  "clock (call c s) = clock s"
  "calls (call c s) = calls s @ [c]"
  "tick (call c s) = tick s"
  "log_ring (call c s) = log_ring s"
  "serial (call c s) = serial s"
  "io.more (call c s) = io.more s"
  by (simp_all add: call_def)

lemmas io_eqs = call_def log_at_eq

text \<open>
  The clock of a running board: reading \<open>k\<close> is taken \<open>T k\<close> milliseconds after boot, and
  readings are taken in order. The 32-bit counter wraps, \<open>T\<close> does not.
\<close>

definition real_time :: "(nat \<Rightarrow> nat) \<Rightarrow> 'a io_scheme \<Rightarrow> bool" where
  "real_time T s \<longleftrightarrow> mono T \<and> (\<forall>k. clock s k = of_nat (T k))"

lemma real_time_clock: "real_time T s \<Longrightarrow> clock s k = of_nat (T k)"
  by (simp add: real_time_def)

lemma real_time_mono: "real_time T s \<Longrightarrow> j \<le> k \<Longrightarrow> T j \<le> T k"
  by (simp add: real_time_def monoD)

lemma real_time_cong: "clock r = clock s \<Longrightarrow> real_time T r = real_time T s"
  by (simp add: real_time_def)

text \<open>An interval timer \<open>millis() - since >= k\<close> is right as long as the real interval is
  below one turn of the counter.\<close>

lemma real_time_elapsed:
  assumes "real_time T s" and "j \<le> k" and "T k - T j < 2 ^ 32"
  shows "d \<le> clock s k - clock s j \<longleftrightarrow> unat d \<le> T k - T j"
  using assms by (simp add: real_time_clock elapsed_word_le real_time_mono)

end
