(* ===== verification/Statusled.thy ===== *)
theory Statusled
  imports Platform
begin

text \<open>
  The status LED of \<^verbatim>\<open>src/statusled.cpp\<close>: a state of the router is mapped to a colour and
  a flash, scaled by the master brightness, and written to the hardware only when the
  visible colour changes. The theory shows that the cache never lies: after every update
  the colour last written is the one the state calls for.
\<close>

datatype led_state = Boot | UpstreamDown | NoClients | Connected | Fault

datatype rgb = Rgb (red: u8) (green: u8) (blue: u8)

definition kFlashHalfPeriodMs :: u32 where
  "kFlashHalfPeriodMs = 400"

definition STATUS_LED_PIN :: nat where
  "STATUS_LED_PIN = 38"

definition kOff :: rgb where "kOff = Rgb 0 0 0"
definition kWhite :: rgb where "kWhite = Rgb 255 255 255"
definition kRed :: rgb where "kRed = Rgb 255 0 0"
definition kAmber :: rgb where "kAmber = Rgb 255 90 0"
definition kBlue :: rgb where "kBlue = Rgb 0 0 255"
definition kMagenta :: rgb where "kMagenta = Rgb 255 0 255"

record leds = io +
  g_brightness :: u8
  lastWrittenPacked :: int

text \<open>\<open>static_cast<uint8_t>(c * g_brightness / 255)\<close>, computed in \<open>int\<close>.\<close>

definition scale :: "u8 \<Rightarrow> u8 \<Rightarrow> u8" where
  "scale b c = of_nat (unat c * unat b div 255)"

definition scaled :: "u8 \<Rightarrow> rgb \<Rightarrow> rgb" where
  "scaled b c = Rgb (scale b (red c)) (scale b (green c)) (scale b (blue c))"

definition pack :: "rgb \<Rightarrow> int" where
  "pack c = or (or (push_bit 16 (uint (red c))) (push_bit 8 (uint (green c)))) (uint (blue c))"

definition led_write :: "rgb \<Rightarrow> 'a leds_scheme \<Rightarrow> 'a leds_scheme" where
  "led_write c s =
     (let sc = scaled (g_brightness s) c; packed = pack sc
      in if packed = lastWrittenPacked s then s
         else call (RgbWrite STATUS_LED_PIN (red sc) (green sc) (blue sc))
                (s\<lparr>lastWrittenPacked := packed\<rparr>))"

definition setBrightness :: "u8 \<Rightarrow> 'a leds_scheme \<Rightarrow> 'a leds_scheme" where
  "setBrightness b s = s\<lparr>g_brightness := b, lastWrittenPacked := - 1\<rparr>"

definition led_begin :: "'a leds_scheme \<Rightarrow> 'a leds_scheme" where
  "led_begin s = led_write kWhite (s\<lparr>lastWrittenPacked := - 1\<rparr>)"

fun led_colour :: "led_state \<Rightarrow> rgb" where
  "led_colour UpstreamDown = kRed"
| "led_colour NoClients = kAmber"
| "led_colour Connected = kBlue"
| "led_colour Fault = kMagenta"
| "led_colour Boot = kWhite"

fun led_flashing :: "led_state \<Rightarrow> bool" where
  "led_flashing UpstreamDown = True"
| "led_flashing NoClients = True"
| "led_flashing Connected = True"
| "led_flashing Fault = False"
| "led_flashing Boot = False"

definition led_update :: "led_state \<Rightarrow> 'a leds_scheme \<Rightarrow> 'a leds_scheme" where
  "led_update st s =
     (if led_flashing st then
        (let (t, s) = millis s
         in led_write (if (t div kFlashHalfPeriodMs) mod 2 = 0 then led_colour st else kOff) s)
      else led_write (led_colour st) s)"

section \<open>Scaling and packing\<close>

lemma scale_bounds: "unat (c :: u8) * unat (b :: u8) div 255 \<le> min (unat c) (unat b)"
proof -
  have b: "unat b < 256" "unat c < 256"
    using unat_lt2p_8 [of b] unat_lt2p_8 [of c] by simp_all
  have "unat c * unat b \<le> unat c * 255" "unat c * unat b \<le> 255 * unat b"
    using b by (simp_all add: mult_le_mono)
  then have "unat c * unat b div 255 \<le> unat c * 255 div 255"
    and "unat c * unat b div 255 \<le> 255 * unat b div 255"
    by (simp_all only: div_le_mono)
  then show ?thesis by simp
qed

lemma unat_scale: "unat (scale b c) = unat c * unat b div 255"
proof -
  have "unat c * unat b div 255 < 256"
    using scale_bounds [of c b] unat_lt2p_8 [of b] by simp
  then show ?thesis by (simp add: scale_def unat_of_nat take_bit_nat_eq_self)
qed

lemma scale_zero [simp]: "scale 0 c = 0" "scale b 0 = 0"
  by (simp_all add: scale_def)

lemma scale_full [simp]: "scale 255 c = c"
  by (simp add: scale_def)

lemma or_disjoint_add:
  assumes "0 \<le> b" and "b < 2 ^ n"
  shows "or (push_bit n a) b = push_bit n a + (b :: int)"
proof -
  have "b = take_bit n b" using assms by (simp add: take_bit_int_eq_self)
  then have "and (push_bit n a) b = and (push_bit n a) (take_bit n b)" by simp
  also have "\<dots> = 0" by (auto simp: bit_eq_iff bit_simps)
  finally show ?thesis by (simp add: disjunctive_add_eq_or)
qed

lemma uint_u8: "0 \<le> uint (x :: u8) \<and> uint x < 256"
proof -
  have "uint x < 2 ^ LENGTH(8)" by (rule unsigned_less)
  then show ?thesis by simp
qed

lemma pack_sum: "pack c = 65536 * uint (red c) + 256 * uint (green c) + uint (blue c)"
proof -
  have eq: "or (push_bit 16 (uint (red c))) (push_bit 8 (uint (green c)))
      = push_bit 8 (push_bit 8 (uint (red c)) + uint (green c))"
  proof -
    have "push_bit 16 (uint (red c)) = push_bit 8 (push_bit 8 (uint (red c)))" by simp
    then have "or (push_bit 16 (uint (red c))) (push_bit 8 (uint (green c)))
        = push_bit 8 (or (push_bit 8 (uint (red c))) (uint (green c)))"
      by (simp only: push_bit_or)
    then show ?thesis
      using uint_u8 [of "green c"] or_disjoint_add [of "uint (green c)" 8 "uint (red c)"] by simp
  qed
  show ?thesis
    unfolding pack_def eq
    using uint_u8 [of "blue c"]
      or_disjoint_add [of "uint (blue c)" 8 "push_bit 8 (uint (red c)) + uint (green c)"]
    by (simp add: push_bit_eq_mult)
qed

lemma two_digits_inject:
  fixes x y c d :: int
  assumes "256 * x + c = 256 * y + d" and "0 \<le> c" "c < 256" "0 \<le> d" "d < 256"
  shows "x = y \<and> c = d"
proof -
  have "\<not> x < y" and "\<not> y < x" using assms by linarith+
  with assms show ?thesis by simp
qed

lemma three_bytes_inject:
  fixes a b c a' b' c' :: int
  assumes "65536 * a + 256 * b + c = 65536 * a' + 256 * b' + c'"
    and "0 \<le> b" "b < 256" "0 \<le> c" "c < 256" "0 \<le> b'" "b' < 256" "0 \<le> c'" "c' < 256"
  shows "a = a' \<and> b = b' \<and> c = c'"
  using assms two_digits_inject [of "256 * a + b" c "256 * a' + b'" c'] two_digits_inject [of a b a' b']
  by simp

lemma pack_inject: "pack c = pack d \<longleftrightarrow> c = d"
proof
  assume "pack c = pack d"
  then have "uint (red c) = uint (red d) \<and> uint (green c) = uint (green d) \<and> uint (blue c) = uint (blue d)"
    using uint_u8 unfolding pack_sum by (intro three_bytes_inject) auto
  then show "c = d" by (cases c; cases d) (simp add: word_uint_eq_iff)
qed simp

lemma pack_nonneg: "0 \<le> pack c"
  using uint_u8 [of "red c"] uint_u8 [of "green c"] uint_u8 [of "blue c"] by (simp add: pack_sum)

section \<open>The cache follows the hardware\<close>

text \<open>The colour the LED shows is the last one written to it.\<close>

fun shown_after :: "rgb option \<Rightarrow> dev_call list \<Rightarrow> rgb option" where
  "shown_after c [] = c"
| "shown_after c (RgbWrite p r g b # cs) = shown_after (Some (Rgb r g b)) cs"
| "shown_after c (_ # cs) = shown_after c cs"

definition shown :: "'a leds_scheme \<Rightarrow> rgb option" where
  "shown s = shown_after None (calls s)"

lemma shown_after_append: "shown_after c (xs @ ys) = shown_after (shown_after c xs) ys"
  by (induction c xs rule: shown_after.induct) auto

definition led_sync :: "'a leds_scheme \<Rightarrow> bool" where
  "led_sync s \<longleftrightarrow> lastWrittenPacked s = - 1 \<or> (\<exists>c. shown s = Some c \<and> lastWrittenPacked s = pack c)"

lemma led_write_shown:
  assumes "led_sync s"
  shows "shown (led_write c s) = Some (scaled (g_brightness s) c)"
    and "led_sync (led_write c s)"
    and "g_brightness (led_write c s) = g_brightness s"
proof -
  have "pack (scaled (g_brightness s) c) \<noteq> - 1"
    using pack_nonneg [of "scaled (g_brightness s) c"] by simp
  with assms show "shown (led_write c s) = Some (scaled (g_brightness s) c)"
    and "led_sync (led_write c s)"
    by (auto simp: led_write_def led_sync_def shown_def shown_after_append Let_def pack_inject call_def)
  show "g_brightness (led_write c s) = g_brightness s"
    by (simp add: led_write_def Let_def call_def)
qed

lemma led_sync_tick [simp]: "led_sync (s\<lparr>tick := n\<rparr>) = led_sync s"
  by (simp add: led_sync_def shown_def)

lemma led_sync_setBrightness: "led_sync (setBrightness b s)"
  by (simp add: led_sync_def setBrightness_def)

lemma led_sync_begin: "led_sync (led_begin s)"
  unfolding led_begin_def by (rule led_write_shown) (simp add: led_sync_def)

lemma led_sync_update: "led_sync s \<Longrightarrow> led_sync (led_update st s)"
  by (simp add: led_update_def Let_def led_write_shown)

text \<open>What the README promises: the colour of a state and the phase of its flash at a
  given time.\<close>

definition led_expected :: "led_state \<Rightarrow> u32 \<Rightarrow> rgb" where
  "led_expected st t =
     (case st of
        Boot \<Rightarrow> kWhite
      | Fault \<Rightarrow> kMagenta
      | UpstreamDown \<Rightarrow> (if unat t mod 800 < 400 then kRed else kOff)
      | NoClients \<Rightarrow> (if unat t mod 800 < 400 then kAmber else kOff)
      | Connected \<Rightarrow> (if unat t mod 800 < 400 then kBlue else kOff))"

lemma flash_phase: "(t div kFlashHalfPeriodMs) mod 2 = 0 \<longleftrightarrow> unat t mod 800 < 400"
proof -
  have "(t div kFlashHalfPeriodMs) mod 2 = 0 \<longleftrightarrow> unat ((t div kFlashHalfPeriodMs) mod 2) = 0"
    by (simp add: unat_eq_0)
  also have "unat ((t div kFlashHalfPeriodMs) mod 2) = unat t div 400 mod 2"
    by (simp add: unat_mod_distrib unat_div_distrib kFlashHalfPeriodMs_def)
  also have "unat t div 400 mod 2 = 0 \<longleftrightarrow> unat t mod 800 < 400"
  proof -
    have "unat t mod (400 * 2) = 400 * (unat t div 400 mod 2) + unat t mod 400"
      by (rule mod_mult2_eq)
    then show ?thesis by (cases "unat t div 400 mod 2 = 0") auto
  qed
  finally show ?thesis .
qed

lemma led_update_eq:
  "led_update st s = led_write (led_expected st (clock s (tick s)))
     (if led_flashing st then s\<lparr>tick := Suc (tick s)\<rparr> else s)"
  by (cases st) (simp_all add: led_update_def led_expected_def flash_phase)

section \<open>Properties\<close>

text \<open>After an update the LED shows the colour the state calls for at that moment (red,
  amber or blue in the first half of each 800 ms period and dark in the second, white and
  magenta steady), scaled by the brightness, whether or not a write was needed.\<close>

theorem led_update_shows:
  assumes "led_sync s"
  shows "shown (led_update st s) = Some (scaled (g_brightness s) (led_expected st (clock s (tick s))))
    \<and> led_sync (led_update st s)"
  using assms by (simp add: led_update_eq led_write_shown)

definition led_demo :: leds where
  "led_demo = \<lparr>clock = (\<lambda>k. of_nat (300 * k)), tick = 1, log_ring = init_logbuf, serial = [],
     calls = [], g_brightness = 64, lastWrittenPacked = - 1\<rparr>"

theorem led_update_shows_witness:
  "shown (led_update NoClients led_demo)
     = Some (scaled (g_brightness led_demo) (led_expected NoClients (clock led_demo (tick led_demo))))
   \<and> led_expected NoClients (clock led_demo (tick led_demo)) = kAmber"
  using led_update_shows [of led_demo NoClients]
  by (simp add: led_sync_def led_demo_def led_expected_def)

text \<open>With a valid cache an update touches the hardware exactly when the colour it calls
  for differs from the one shown, and then it writes that colour once.\<close>

theorem led_write_only_on_change:
  fixes s :: "'a leds_scheme" and st :: led_state
  assumes "led_sync s" and "lastWrittenPacked s \<noteq> - 1"
  defines "c \<equiv> scaled (g_brightness s) (led_expected st (clock s (tick s)))"
  shows "calls (led_update st s)
    = (if shown s = Some c then calls s
       else calls s @ [RgbWrite STATUS_LED_PIN (red c) (green c) (blue c)])"
  using assms
  by (auto simp: led_update_eq led_write_def led_sync_def Let_def call_def pack_inject)

theorem led_write_only_on_change_witness:
  "let s = led_update Fault led_demo; c = scaled 64 kMagenta
   in shown s = Some c \<and> calls (led_update Fault s) = calls s"
proof -
  let ?s = "led_update Fault led_demo"
  have sync: "led_sync ?s"
    by (rule led_sync_update) (simp add: led_sync_def led_demo_def)
  have cache: "lastWrittenPacked ?s \<noteq> - 1"
    by (simp add: led_update_def led_write_def led_demo_def Let_def call_def pack_sum kMagenta_def
      scaled_def scale_def)
  have "shown ?s = Some (scaled 64 kMagenta)" "g_brightness ?s = 64"
    by (simp_all add: led_update_def led_write_def led_demo_def Let_def call_def pack_sum kMagenta_def
      scaled_def scale_def shown_def)
  with led_write_only_on_change [OF sync cache, of Fault] show ?thesis
    by (simp add: led_expected_def Let_def)
qed

text \<open>Scaling never overflows its byte: each channel is the product divided by 255,
  rounded down, hence at most the full-scale channel and at most the brightness, so that
  brightness 0 is dark and brightness 255 leaves every colour as defined.\<close>

theorem scaled_bounds:
  "unat (red (scaled b c)) = unat (red c) * unat b div 255 \<and>
   unat (red (scaled b c)) \<le> min (unat (red c)) (unat b) \<and>
   unat (green (scaled b c)) \<le> min (unat (green c)) (unat b) \<and>
   unat (blue (scaled b c)) \<le> min (unat (blue c)) (unat b) \<and>
   scaled 0 c = kOff \<and> scaled 255 c = c"
  using scale_bounds by (simp add: scaled_def unat_scale kOff_def)

end
