(* ===== verification/Watchdog.thy ===== *)
theory Watchdog
  imports Statusled
begin

text \<open>
  The recovery supervisor of \<^verbatim>\<open>src/watchdog.cpp\<close>. \<open>loop()\<close> stamps the time it was last
  alive and runs a clock while the uplink is down; a task on the other core polls both
  and reboots when either is five minutes old. The task is modelled at the granularity of
  its reads of the shared words, because it runs in parallel to the writer: it is a
  program counter \<open>sup\<close> and a step function. A poll whose reads are not separated by a
  write of \<open>loop()\<close> is exact, also across the wrap of the counter; a write in between the
  reading of the clock and the reading of the stamp reboots a healthy board.
\<close>

definition kLoopStallMs :: u32 where
  "kLoopStallMs = 300000"

definition kUplinkStallMs :: u32 where
  "kUplinkStallMs = 300000"

definition kPollIntervalMs :: u32 where
  "kPollIntervalMs = 1000"

definition kSupervisorCore :: nat where "kSupervisorCore = 0"
definition kSupervisorPriority :: nat where "kSupervisorPriority = 2"
definition kSupervisorStackBytes :: u32 where "kSupervisorStackBytes = 4096"

datatype esp_reset_reason =
    ESP_RST_POWERON | ESP_RST_EXT | ESP_RST_SW | ESP_RST_PANIC | ESP_RST_INT_WDT
  | ESP_RST_TASK_WDT | ESP_RST_WDT | ESP_RST_DEEPSLEEP | ESP_RST_BROWNOUT | ESP_RST_SDIO
  | ESP_RST_USB | ESP_RST_JTAG | ESP_RST_EFUSE | ESP_RST_PWR_GLITCH | ESP_RST_CPU_LOCKUP
  | ESP_RST_OTHER

fun resetReasonName :: "esp_reset_reason \<Rightarrow> string" where
  "resetReasonName ESP_RST_POWERON = ''POWERON (clean power-up)''"
| "resetReasonName ESP_RST_EXT = ''EXT (external reset pin)''"
| "resetReasonName ESP_RST_SW = ''SW (esp_restart '' @ em_dash @ '' portal save or watchdog)''"
| "resetReasonName ESP_RST_PANIC = ''PANIC (crash)''"
| "resetReasonName ESP_RST_INT_WDT = ''INT_WDT (interrupt watchdog)''"
| "resetReasonName ESP_RST_TASK_WDT = ''TASK_WDT (IDF task watchdog '' @ em_dash @ '' CPU starved)''"
| "resetReasonName ESP_RST_WDT = ''WDT (other watchdog)''"
| "resetReasonName ESP_RST_DEEPSLEEP = ''DEEPSLEEP''"
| "resetReasonName ESP_RST_BROWNOUT = ''BROWNOUT (supply sagged '' @ em_dash @ '' undersized USB source?)''"
| "resetReasonName ESP_RST_SDIO = ''SDIO''"
| "resetReasonName ESP_RST_USB = ''USB''"
| "resetReasonName ESP_RST_JTAG = ''JTAG''"
| "resetReasonName ESP_RST_EFUSE = ''EFUSE error''"
| "resetReasonName ESP_RST_PWR_GLITCH = ''PWR_GLITCH (supply glitch)''"
| "resetReasonName ESP_RST_CPU_LOCKUP = ''CPU_LOCKUP (double exception)''"
| "resetReasonName ESP_RST_OTHER = ''UNKNOWN''"

text \<open>Where the supervisor task is: not created, in its delay, between two reads, or in
  \<open>esp_restart()\<close>, which does not return.\<close>

datatype sup_pc = SupNone | SupDelay | SupHaveNow u32 | SupLoopOk u32 | SupRebooting

record wdog = leds +
  g_lastLoopMs :: u32
  g_uplinkDownSinceMs :: u32
  g_armed :: bool
  g_resetReason :: string
  sup :: sup_pc

definition markUplinkDown :: "'a wdog_scheme \<Rightarrow> 'a wdog_scheme" where
  "markUplinkDown s =
     (if g_uplinkDownSinceMs s \<noteq> 0 then s
      else let (now, s) = millis s
           in s\<lparr>g_uplinkDownSinceMs := (if now = 0 then 1 else now)\<rparr>)"

definition reboot :: "string \<Rightarrow> 'a wdog_scheme \<Rightarrow> 'a wdog_scheme" where
  "reboot why s =
     (let s = log_at (''WATCHDOG: '' @ why @ '' '' @ em_dash @ '' rebooting'') s;
          s = call SerialFlush s;
          s = call (Delay 50) s;
          s = call Restart s
      in s\<lparr>sup := SupRebooting\<rparr>)"

text \<open>One iteration of \<open>supervisorTask\<close>, cut where it reads a word that \<open>loop()\<close> writes.\<close>

definition sup_wake :: "'a wdog_scheme \<Rightarrow> 'a wdog_scheme" where
  "sup_wake s =
     (if \<not> g_armed s then s
      else let (now, s) = millis s in s\<lparr>sup := SupHaveNow now\<rparr>)"

definition sup_check_loop :: "u32 \<Rightarrow> 'a wdog_scheme \<Rightarrow> 'a wdog_scheme" where
  "sup_check_loop now s =
     (if kLoopStallMs \<le> now - g_lastLoopMs s then reboot ''loop() has not run for 5 min'' s
      else s\<lparr>sup := SupLoopOk now\<rparr>)"

definition sup_check_uplink :: "u32 \<Rightarrow> 'a wdog_scheme \<Rightarrow> 'a wdog_scheme" where
  "sup_check_uplink now s =
     (let downSince = g_uplinkDownSinceMs s
      in if downSince \<noteq> 0 \<and> kUplinkStallMs \<le> now - downSince
         then reboot ''no upstream IP for 5 min'' s
         else s\<lparr>sup := SupDelay\<rparr>)"

definition supervisor_step :: "'a wdog_scheme \<Rightarrow> 'a wdog_scheme" where
  "supervisor_step s =
     (case sup s of
        SupNone \<Rightarrow> s
      | SupDelay \<Rightarrow> sup_wake s
      | SupHaveNow now \<Rightarrow> sup_check_loop now s
      | SupLoopOk now \<Rightarrow> sup_check_uplink now s
      | SupRebooting \<Rightarrow> s)"

text \<open>A poll that nothing interrupts.\<close>

definition supervisor_poll :: "'a wdog_scheme \<Rightarrow> 'a wdog_scheme" where
  "supervisor_poll s = supervisor_step (supervisor_step (supervisor_step s))"

text \<open>The loop of the task: every list entry is the reading of the clock that ends a delay, and
  in between nothing else happens to the stamps.\<close>

fun supervisor_run :: "nat list \<Rightarrow> 'a wdog_scheme \<Rightarrow> 'a wdog_scheme" where
  "supervisor_run [] s = s"
| "supervisor_run (k # ks) s = supervisor_run ks (supervisor_poll (s\<lparr>tick := k\<rparr>))"

definition watchdog_begin :: "esp_reset_reason \<Rightarrow> bool \<Rightarrow> 'a wdog_scheme \<Rightarrow> 'a wdog_scheme" where
  "watchdog_begin reason taskOk s =
     (let s = s\<lparr>g_resetReason := resetReasonName reason\<rparr>;
          s = log_at (''last reset: '' @ resetReasonName reason) s;
          (t, s) = millis s;
          s = s\<lparr>g_lastLoopMs := t\<rparr>;
          s = markUplinkDown s;
          s = s\<lparr>g_armed := True\<rparr>;
          s = call (SupervisorCreate kSupervisorStackBytes kSupervisorPriority kSupervisorCore) s
      in if taskOk then s\<lparr>sup := SupDelay\<rparr>
         else (log_at (''WATCHDOG: supervisor task failed to start '' @ em_dash @ '' no auto-recovery'') s)
                \<lparr>g_armed := False\<rparr>)"

definition lastResetReason :: "'a wdog_scheme \<Rightarrow> string" where
  "lastResetReason s = g_resetReason s"

definition watchdog_update :: "bool \<Rightarrow> 'a wdog_scheme \<Rightarrow> 'a wdog_scheme" where
  "watchdog_update uplinkReady s =
     (let (t, s) = millis s;
          s = s\<lparr>g_lastLoopMs := t\<rparr>
      in if uplinkReady then s\<lparr>g_uplinkDownSinceMs := 0\<rparr> else markUplinkDown s)"

section \<open>One poll\<close>

lemma wdog_log_call_frames [simp, frames]:
  "g_lastLoopMs (log_at m s) = g_lastLoopMs s" "g_lastLoopMs (call c s) = g_lastLoopMs s"
  "g_uplinkDownSinceMs (log_at m s) = g_uplinkDownSinceMs s"
  "g_uplinkDownSinceMs (call c s) = g_uplinkDownSinceMs s"
  "g_armed (log_at m s) = g_armed s" "g_armed (call c s) = g_armed s"
  "g_resetReason (log_at m s) = g_resetReason s" "g_resetReason (call c s) = g_resetReason s"
  "sup (log_at m s) = sup s" "sup (call c s) = sup s"
  by (simp_all add: log_at_eq call_def)

lemma markUplinkDown_simps [simp]:
  "g_uplinkDownSinceMs (markUplinkDown s) \<noteq> 0"
  "g_lastLoopMs (markUplinkDown s) = g_lastLoopMs s" "g_armed (markUplinkDown s) = g_armed s"
  "g_resetReason (markUplinkDown s) = g_resetReason s" "sup (markUplinkDown s) = sup s"
  "clock (markUplinkDown s) = clock s" "calls (markUplinkDown s) = calls s"
  by (simp_all add: markUplinkDown_def Let_def)

lemma reboot_simps [simp]:
  "sup (reboot why s) = SupRebooting"
  "calls (reboot why s) = calls s @ [SerialFlush, Delay 50, Restart]"
  by (simp_all add: reboot_def Let_def call_def log_at_eq)

lemma supervisor_poll_reboots:
  assumes "sup s = SupDelay" and "g_armed s"
  shows "sup (supervisor_poll s) = SupRebooting \<longleftrightarrow>
    kLoopStallMs \<le> clock s (tick s) - g_lastLoopMs s \<or>
    g_uplinkDownSinceMs s \<noteq> 0 \<and> kUplinkStallMs \<le> clock s (tick s) - g_uplinkDownSinceMs s"
  using assms
  by (simp add: supervisor_poll_def supervisor_step_def sup_wake_def sup_check_loop_def
    sup_check_uplink_def Let_def)

lemma watchdog_update_down:
  "g_uplinkDownSinceMs s \<noteq> 0 \<Longrightarrow>
     watchdog_update False s = s\<lparr>tick := Suc (tick s), g_lastLoopMs := clock s (tick s)\<rparr>"
  by (simp add: watchdog_update_def markUplinkDown_def Let_def)

lemma watchdog_update_first_down:
  "g_uplinkDownSinceMs s = 0 \<Longrightarrow>
     watchdog_update False s = s\<lparr>tick := Suc (Suc (tick s)), g_lastLoopMs := clock s (tick s),
       g_uplinkDownSinceMs := (let t = clock s (Suc (tick s)) in if t = 0 then 1 else t)\<rparr>"
  by (simp add: watchdog_update_def markUplinkDown_def Let_def)

lemma watchdog_update_up:
  "watchdog_update True s = s\<lparr>tick := Suc (tick s), g_lastLoopMs := clock s (tick s),
     g_uplinkDownSinceMs := 0\<rparr>"
  by (simp add: watchdog_update_def Let_def)

lemma supervisor_run_append: "supervisor_run (ks @ ks') s = supervisor_run ks' (supervisor_run ks s)"
  by (induction ks arbitrary: s) simp_all

lemma poll_idle:
  assumes "sup s = SupDelay" and "g_armed s" and "g_uplinkDownSinceMs s = 0"
    and "\<not> kLoopStallMs \<le> clock s (tick s) - g_lastLoopMs s"
  shows "supervisor_poll s = s\<lparr>tick := Suc (tick s)\<rparr>"
proof -
  have "s\<lparr>tick := n, sup := SupDelay\<rparr> = s\<lparr>tick := n\<rparr>" for n using assms(1) by (cases s) simp
  then show ?thesis
    using assms by (simp add: supervisor_poll_def supervisor_step_def sup_wake_def sup_check_loop_def
      sup_check_uplink_def Let_def)
qed

lemma run_idle:
  assumes "sup s = SupDelay" and "g_armed s" and "g_uplinkDownSinceMs s = 0"
    and "\<And>k. k \<in> set ks \<Longrightarrow> \<not> kLoopStallMs \<le> clock s k - g_lastLoopMs s"
  shows "\<exists>n. supervisor_run ks s = s\<lparr>tick := n\<rparr>"
  using assms
proof (induction ks arbitrary: s)
  case Nil
  then show ?case by (intro exI [of _ "tick s"]) simp
next
  case (Cons k ks)
  have "supervisor_poll (s\<lparr>tick := k\<rparr>) = s\<lparr>tick := Suc k\<rparr>"
    using poll_idle [of "s\<lparr>tick := k\<rparr>"] Cons.prems by simp
  then show ?case using Cons.IH [of "s\<lparr>tick := Suc k\<rparr>"] Cons.prems by simp
qed

text \<open>The stall clock keeps its first value however often the loop reports the uplink down.\<close>

lemma down_since_kept:
  assumes "g_uplinkDownSinceMs s \<noteq> 0"
  shows "g_uplinkDownSinceMs ((watchdog_update False ^^ n) s) = g_uplinkDownSinceMs s \<and>
    sup ((watchdog_update False ^^ n) s) = sup s \<and>
    g_armed ((watchdog_update False ^^ n) s) = g_armed s \<and>
    clock ((watchdog_update False ^^ n) s) = clock s \<and>
    tick ((watchdog_update False ^^ n) s) = tick s + n"
  using assms by (induction n) (simp_all add: watchdog_update_down)

section \<open>Properties\<close>

text \<open>C15. An uninterrupted poll reboots exactly when the last iteration of \<open>loop()\<close>, or the
  moment the uplink went down, is five minutes or more in the past: the unsigned
  differences are the real intervals also across the 49.7-day wrap of the counter.\<close>

theorem supervisor_poll_exact:
  assumes "sup s = SupDelay" and "g_armed s"
    and now: "clock s (tick s) = of_nat now"
    and loop: "g_lastLoopMs s = of_nat lastLoop" "lastLoop \<le> now" "now - lastLoop < 2 ^ 32"
    and down: "g_uplinkDownSinceMs s \<noteq> 0 \<Longrightarrow>
      g_uplinkDownSinceMs s = of_nat downAt \<and> downAt \<le> now \<and> now - downAt < 2 ^ 32"
  shows "sup (supervisor_poll s) = SupRebooting \<longleftrightarrow>
    300000 \<le> now - lastLoop \<or> g_uplinkDownSinceMs s \<noteq> 0 \<and> 300000 \<le> now - downAt"
proof -
  have "kLoopStallMs \<le> of_nat now - of_nat lastLoop \<longleftrightarrow> 300000 \<le> now - lastLoop"
    using loop by (simp add: elapsed_word_le kLoopStallMs_def)
  moreover have "kUplinkStallMs \<le> of_nat now - of_nat downAt \<longleftrightarrow> 300000 \<le> now - downAt"
    if "g_uplinkDownSinceMs s \<noteq> 0"
    using down [OF that] by (simp add: elapsed_word_le kUplinkStallMs_def)
  ultimately show ?thesis
    using supervisor_poll_reboots [OF assms(1,2)] now loop(1) down by auto
qed

definition wd_demo :: "nat \<Rightarrow> u32 \<Rightarrow> u32 \<Rightarrow> wdog" where
  "wd_demo t lastLoop downSince = \<lparr>clock = (\<lambda>k. of_nat (t + k)), tick = 0, log_ring = init_logbuf,
     serial = [], calls = [], g_brightness = 64, lastWrittenPacked = - 1, g_lastLoopMs = lastLoop,
     g_uplinkDownSinceMs = downSince, g_armed = True, g_resetReason = [], sup = SupDelay\<rparr>"

theorem supervisor_poll_exact_witness:
  "sup (supervisor_poll (wd_demo (2 ^ 32 + 100) (- 50) 0)) \<noteq> SupRebooting \<and>
   sup (supervisor_poll (wd_demo (2 ^ 32 + 100) (- 50) (- 300000))) = SupRebooting"
proof -
  have "sup (supervisor_poll (wd_demo (2 ^ 32 + 100) (- 50) 0)) = SupRebooting \<longleftrightarrow>
      300000 \<le> (2 ^ 32 + 100) - (2 ^ 32 - 50 :: nat) \<or> (0::u32) \<noteq> 0 \<and> 300000 \<le> (2 ^ 32 + 100) - (0::nat)"
    using supervisor_poll_exact [of "wd_demo (2 ^ 32 + 100) (- 50) 0" "2 ^ 32 + 100" "2 ^ 32 - 50" 0]
    by (simp add: wd_demo_def)
  moreover have "sup (supervisor_poll (wd_demo (2 ^ 32 + 100) (- 50) (- 300000))) = SupRebooting \<longleftrightarrow>
      300000 \<le> (2 ^ 32 + 100) - (2 ^ 32 - 50 :: nat) \<or>
      (- 300000 :: u32) \<noteq> 0 \<and> 300000 \<le> (2 ^ 32 + 100) - (2 ^ 32 - 300000 :: nat)"
    using supervisor_poll_exact
      [of "wd_demo (2 ^ 32 + 100) (- 50) (- 300000)" "2 ^ 32 + 100" "2 ^ 32 - 50" "2 ^ 32 - 300000"]
    by (simp add: wd_demo_def)
  ultimately show ?thesis by simp
qed

text \<open>C14. A stalled uplink reboots the board although \<open>loop()\<close> is alive: once the uplink is
  reported down, any number of further iterations that report it down leave the stall
  clock alone, and the first uninterrupted poll more than five minutes later reboots.\<close>

theorem uplink_stall_reboots:
  fixes s :: "'a wdog_scheme" and n :: nat and T :: "nat \<Rightarrow> nat"
  defines "s' \<equiv> (watchdog_update False ^^ n) (watchdog_update False s)"
  assumes "sup s = SupDelay" and "g_armed s" and "real_time T s"
    and "g_uplinkDownSinceMs s = 0"
    and "300000 < T (tick s') - T (Suc (tick s))" and "T (tick s') - T (Suc (tick s)) < 2 ^ 32"
  shows "sup (supervisor_poll s') = SupRebooting"
proof -
  let ?s1 = "watchdog_update False s" and ?t = "Suc (tick s)"
  let ?d = "if clock s ?t = 0 then 1 else clock s ?t"
  have s1: "g_uplinkDownSinceMs ?s1 = ?d" "clock ?s1 = clock s" "sup ?s1 = SupDelay" "g_armed ?s1"
    using assms by (simp_all add: watchdog_update_first_down Let_def)
  have "g_uplinkDownSinceMs ?s1 \<noteq> 0" by (simp add: s1)
  from down_since_kept [OF this, of n] s1
  have s': "g_uplinkDownSinceMs s' = ?d" "clock s' = clock s" "sup s' = SupDelay" "g_armed s'"
    and later: "?t \<le> tick s'"
    by (auto simp: s'_def watchdog_update_first_down assms Let_def)
  have *: "300001 \<le> clock s (tick s') - clock s ?t"
    using real_time_elapsed [OF \<open>real_time T s\<close> later, of 300001] assms(6,7) by simp
  have "300000 \<le> clock s (tick s') - ?d"
  proof (cases "clock s ?t = 0")
    case True
    with * have "300001 \<le> unat (clock s (tick s'))" by (simp add: word_le_nat_alt)
    with True show ?thesis by (simp add: word_le_nat_alt unat_sub)
  next
    case False
    with * show ?thesis by (simp add: word_le_nat_alt)
  qed
  then show ?thesis
    using supervisor_poll_reboots [OF s'(3,4)] s' by (simp add: kUplinkStallMs_def)
qed

theorem uplink_stall_reboots_witness:
  "sup (supervisor_poll ((watchdog_update False ^^ 3)
     (watchdog_update False ((wd_demo 0 0 0)\<lparr>clock := (\<lambda>k. of_nat (100000 * k))\<rparr>)))) = SupRebooting"
proof (rule uplink_stall_reboots)
  let ?s = "(wd_demo 0 0 0)\<lparr>clock := (\<lambda>k. of_nat (100000 * k))\<rparr>"
  show "real_time (\<lambda>k. 100000 * k) ?s"
    by (simp add: real_time_def monoI)
  have "tick ((watchdog_update False ^^ 3) (watchdog_update False ?s)) = 5"
    using down_since_kept [of "watchdog_update False ?s" 3]
    by (simp add: watchdog_update_first_down wd_demo_def)
  then show "300000 < 100000 * tick ((watchdog_update False ^^ 3) (watchdog_update False ?s))
      - 100000 * Suc (tick ?s)"
    and "100000 * tick ((watchdog_update False ^^ 3) (watchdog_update False ?s))
      - 100000 * Suc (tick ?s) < 2 ^ 32"
    by (simp_all add: wd_demo_def)
qed (simp_all add: wd_demo_def)

text \<open>C13. A \<open>loop()\<close> that hangs is rebooted on time. With the uplink up, the supervisor lets
  every poll pass until five minutes after the last stamp and reboots at the first one after
  that, which is at most one poll interval, and what the scheduler adds to it, later.\<close>

theorem frozen_loop_rebooted:
  fixes s :: "'a wdog_scheme" and T :: "nat \<Rightarrow> nat" and ks :: "nat list" and j d :: nat
  assumes "sup s = SupDelay" and "g_armed s" and "g_uplinkDownSinceMs s = 0" and "real_time T s"
    and "g_lastLoopMs s = clock s j" and "\<forall>k\<in>set ks. j \<le> k \<and> T k - T j < 2 ^ 32"
    and "successively (\<lambda>k k'. T k' \<le> T k + unat kPollIntervalMs + d) (j # ks)"
    and "T j + 300000 \<le> T (last (j # ks))"
  shows "\<exists>ks1 k ks2. ks = ks1 @ k # ks2 \<and> sup (supervisor_run ks1 s) = SupDelay \<and>
    sup (supervisor_run (ks1 @ [k]) s) = SupRebooting \<and> T j + 300000 \<le> T k \<and> T k < T j + 301000 + d"
proof -
  let ?early = "\<lambda>k. T k < T j + 300000"
  have due: "kLoopStallMs \<le> clock s k - g_lastLoopMs s \<longleftrightarrow> \<not> ?early k" if "k \<in> set ks" for k
    using real_time_elapsed [OF assms(4), of j k kLoopStallMs] real_time_mono [OF assms(4), of j k] assms(5,6) that
    by (auto simp: kLoopStallMs_def)
  define ks1 where "ks1 = takeWhile ?early ks"
  have "ks \<noteq> []" using assms(8) by auto
  then have "\<not> ?early (last ks)" "last ks \<in> set ks" using assms(8) by simp_all
  then have "dropWhile ?early ks \<noteq> []" unfolding dropWhile_eq_Nil_conv by blast
  then obtain k ks2 where k: "dropWhile ?early ks = k # ks2" "\<not> ?early k"
    using hd_dropWhile [of ?early ks] by (cases "dropWhile ?early ks") simp_all
  have ks: "ks = ks1 @ k # ks2"
    unfolding ks1_def k(1) [symmetric] by (rule takeWhile_dropWhile_id [symmetric])
  have "\<not> kLoopStallMs \<le> clock s i - g_lastLoopMs s" if "i \<in> set ks1" for i
    using due [of i] that set_takeWhileD [of i ?early ks] by (auto simp: ks1_def)
  then obtain n where n: "supervisor_run ks1 s = s\<lparr>tick := n\<rparr>"
    using run_idle [OF assms(1-3)] by blast
  have "sup (supervisor_run (ks1 @ [k]) s) = SupRebooting"
    using supervisor_poll_reboots [of "s\<lparr>tick := k\<rparr>"] due [of k] assms(1,2) k(2) ks
    by (simp add: supervisor_run_append n)
  moreover have "T k \<le> T (last (j # ks1)) + 1000 + d" "?early (last (j # ks1))"
  proof -
    show "?early (last (j # ks1))"
      using last_in_set [of ks1] set_takeWhileD [of "last ks1" ?early ks] by (auto simp: ks1_def)
    have "successively (\<lambda>k k'. T k' \<le> T k + unat kPollIntervalMs + d) ((j # ks1) @ k # ks2)"
      using assms(7) ks by simp
    then show "T k \<le> T (last (j # ks1)) + 1000 + d"
      unfolding successively_append_iff by (simp add: kPollIntervalMs_def)
  qed
  ultimately show ?thesis
    using n ks k(2) assms(1) by (intro exI [of _ ks1] exI [of _ k] exI [of _ ks2]) simp
qed

theorem frozen_loop_rebooted_witness:
  "\<exists>ks1 k. sup (supervisor_run (ks1 @ [k]) ((wd_demo 0 0 0)\<lparr>clock := (\<lambda>k. of_nat (10000 * k))\<rparr>)) = SupRebooting \<and>
     10000 * k < 301000 + (9000::nat)"
proof -
  let ?s = "(wd_demo 0 0 0)\<lparr>clock := (\<lambda>k. of_nat (10000 * k))\<rparr>"
  have "real_time (\<lambda>k. 10000 * k) ?s" by (simp add: real_time_def monoI)
  moreover have "successively (\<lambda>k k'. 10000 * k' \<le> 10000 * k + unat kPollIntervalMs + 9000) [0..<m]" for m :: nat
  proof (induction m)
    case (Suc m)
    then show ?case by (cases m) (simp_all add: successively_append_iff kPollIntervalMs_def)
  qed simp
  then have "successively (\<lambda>k k'. 10000 * k' \<le> 10000 * k + unat kPollIntervalMs + 9000) (0 # [1..<31 :: nat])"
    by (metis upt_conv_Cons One_nat_def zero_less_numeral)
  moreover have "last (0 # [1..<31]) = (30 :: nat)" by (simp add: last_upt)
  ultimately show ?thesis
    using frozen_loop_rebooted [of ?s "\<lambda>k. 10000 * k" 0 "[1..<31]" 9000] by (auto simp: wd_demo_def)
qed

text \<open>C38. The supervisor samples the clock before it reads the time of the last iteration.
  If \<open>loop()\<close> completes its stamp in between, one millisecond later by the clock, the
  unsigned difference underflows and a healthy board reboots, with the message that
  \<open>loop()\<close> has not run for five minutes.\<close>

theorem supervisor_race:
  assumes "sup s = SupHaveNow (of_nat (T k))" and "real_time T s"
    and "T k < T (tick s)" and "T (tick s) - T k \<le> 2 ^ 32 - 300000"
  shows "sup (supervisor_step (watchdog_update up s)) = SupRebooting \<and>
    calls (supervisor_step (watchdog_update up s)) = calls s @ [SerialFlush, Delay 50, Restart]"
proof -
  let ?s = "watchdog_update up s"
  have s: "sup ?s = SupHaveNow (of_nat (T k))" "g_lastLoopMs ?s = of_nat (T (tick s))"
    "calls ?s = calls s"
    using assms(1) real_time_clock [OF assms(2)]
    by (simp_all add: watchdog_update_def markUplinkDown_def Let_def)
  obtain d where d: "T (tick s) = T k + d" "0 < d" "d \<le> 2 ^ 32 - 300000"
    using assms(3,4) by (metis add_diff_cancel_left' less_imp_add_positive)
  have "unat (of_nat (T k) - of_nat (T k + d) :: u32) = 2 ^ 32 - d"
    by (rule elapsed_backwards) (use d in auto)
  then have "kLoopStallMs \<le> of_nat (T k) - of_nat (T (tick s))"
    using d by (simp only: d(1) word_le_nat_alt kLoopStallMs_def) simp
  then show ?thesis
    using s by (simp add: supervisor_step_def sup_check_loop_def)
qed

theorem supervisor_race_witness:
  "sup (supervisor_step (watchdog_update True (supervisor_step (wd_demo 1000 999 0)))) = SupRebooting"
proof -
  let ?s = "supervisor_step (wd_demo 1000 999 0)"
  have "sup ?s = SupHaveNow (of_nat (1000 + 0))" and "real_time (\<lambda>k. 1000 + k) ?s"
    by (simp_all add: supervisor_step_def sup_wake_def wd_demo_def real_time_def monoI Let_def)
  then show ?thesis
    by (rule supervisor_race [THEN conjunct1])
      (simp_all add: supervisor_step_def sup_wake_def wd_demo_def Let_def)
qed

text \<open>\<open>begin()\<close> starts both clocks, so that a board that never gets an uplink is covered
  from the start: with the task created it is armed and the stall clock runs; without the
  task it is disarmed and no poll of it can ever reboot.\<close>

theorem watchdog_begin_arms:
  fixes s :: "'a wdog_scheme" and reason :: esp_reset_reason
  defines "s1 \<equiv> watchdog_begin reason True s" and "s0 \<equiv> watchdog_begin reason False s"
  assumes "sup s = SupNone"
  shows "sup s1 = SupDelay \<and> g_armed s1 \<and> g_uplinkDownSinceMs s1 \<noteq> 0 \<and>
    g_lastLoopMs s1 = clock s (Suc (tick s)) \<and> lastResetReason s1 = resetReasonName reason \<and>
    \<not> g_armed s0 \<and> supervisor_poll s0 = s0"
  using assms
  by (simp add: watchdog_begin_def Let_def lastResetReason_def supervisor_poll_def
    supervisor_step_def)

theorem watchdog_begin_arms_witness:
  "g_armed (watchdog_begin ESP_RST_BROWNOUT True ((wd_demo 5 0 0)\<lparr>sup := SupNone\<rparr>))"
  using watchdog_begin_arms [of "(wd_demo 5 0 0)\<lparr>sup := SupNone\<rparr>" ESP_RST_BROWNOUT] by simp

end
