(* ===== verification/Config.thy ===== *)
theory Config
  imports Watchdog
begin

text \<open>
  The persisted settings of \<^verbatim>\<open>src/config.cpp\<close>: factory defaults from \<^verbatim>\<open>secrets.h\<close>, overlaid by
  what the NVS namespace holds, and written back key by key. The framework's
  \<open>Preferences\<close> store and \<open>IPAddress\<close> text format are parameters: records of operations
  whose documented laws are the locales \<open>nvs_store\<close> and \<open>ip_codec\<close>. \<open>flash_ops\<close> (a map)
  and \<open>dotted\<close> (dotted decimal) are instances of them. The theory shows that a saved
  configuration survives a reboot, up to what follows a NUL character in a text, that
  \<^verbatim>\<open>secrets.h\<close> matters only to a blank device, and what a save interrupted after any number
  of writes leaves behind.
\<close>

section \<open>The store and the address format\<close>

datatype nvs_val = VStr string | VBool bool | VUChar u8

record 'n nvs_ops =
  nvs_get :: "'n \<Rightarrow> string \<Rightarrow> nvs_val option"
  nvs_put :: "'n \<Rightarrow> string \<Rightarrow> nvs_val \<Rightarrow> 'n"
  nvs_clear :: "'n \<Rightarrow> 'n"

record ipcodec =
  ip_toString :: "ipaddr \<Rightarrow> string"
  ip_fromString :: "string \<Rightarrow> ipaddr option"

text \<open>The typed getters fall back to the caller's default when the key is missing or
  holds another type.\<close>

definition isKey :: "'n nvs_ops \<Rightarrow> 'n \<Rightarrow> string \<Rightarrow> bool" where
  "isKey P n k \<longleftrightarrow> nvs_get P n k \<noteq> None"

definition getString :: "'n nvs_ops \<Rightarrow> 'n \<Rightarrow> string \<Rightarrow> string \<Rightarrow> string" where
  "getString P n k d = (case nvs_get P n k of Some (VStr v) \<Rightarrow> v | _ \<Rightarrow> d)"

definition getBool :: "'n nvs_ops \<Rightarrow> 'n \<Rightarrow> string \<Rightarrow> bool \<Rightarrow> bool" where
  "getBool P n k d = (case nvs_get P n k of Some (VBool v) \<Rightarrow> v | _ \<Rightarrow> d)"

definition getUChar :: "'n nvs_ops \<Rightarrow> 'n \<Rightarrow> string \<Rightarrow> u8 \<Rightarrow> u8" where
  "getUChar P n k d = (case nvs_get P n k of Some (VUChar v) \<Rightarrow> v | _ \<Rightarrow> d)"

section \<open>Settings\<close>

record settings =
  uplinkSsid :: string
  uplinkEnterprise :: bool
  uplinkPass :: string
  eapIdentity :: string
  eapUsername :: string
  eapPassword :: string
  apSsid :: string
  apPass :: string
  apIp :: ipaddr
  dns :: ipaddr
  ledBrightness :: u8
  adminUser :: string
  adminPass :: string

text \<open>A \<open>String\<close> of the framework may hold a NUL character; \<open>putString\<close> and an assignment from a
  string literal stop there. \<open>stored\<close> is what flash can hold of a configuration.\<close>

definition stored :: "settings \<Rightarrow> settings" where
  "stored st = st\<lparr>uplinkSsid := c_str (uplinkSsid st), uplinkPass := c_str (uplinkPass st),
     eapIdentity := c_str (eapIdentity st), eapUsername := c_str (eapUsername st),
     eapPassword := c_str (eapPassword st), apSsid := c_str (apSsid st), apPass := c_str (apPass st),
     adminUser := c_str (adminUser st), adminPass := c_str (adminPass st)\<rparr>"

definition no_nul :: "settings \<Rightarrow> bool" where
  "no_nul st \<longleftrightarrow> (\<forall>v \<in> {uplinkSsid st, uplinkPass st, eapIdentity st, eapUsername st, eapPassword st,
     apSsid st, apPass st, adminUser st, adminPass st}. NUL \<notin> set v)"

lemma c_str_simps [simp]:
  "c_str [] = []" "c_str (c # cs) = (if c = NUL then [] else c # c_str cs)" "c_str (c_str v) = c_str v"
  by (simp_all add: c_str_def)

lemma c_str_id: "c_str v = v \<longleftrightarrow> NUL \<notin> set v"
  by (induction v) auto

lemma c_str_append: "NUL \<notin> set v \<Longrightarrow> c_str (v @ w) = v @ c_str w"
  by (induction v) auto

lemma stored_id: "stored st = st \<longleftrightarrow> no_nul st"
  by (cases st) (simp add: stored_def no_nul_def c_str_id)

lemma stored_stored [simp]: "stored (stored st) = stored st"
  by (simp add: stored_def)

text \<open>The macros of \<^verbatim>\<open>secrets.h\<close>.\<close>

record secrets =
  UPLINK_SSID :: string
  UPLINK_AUTH_ENTERPRISE :: int
  UPLINK_PASS :: string
  UPLINK_EAP_IDENTITY :: string
  UPLINK_EAP_USERNAME :: string
  UPLINK_EAP_PASSWORD :: string
  PRINTERNET_SSID :: string
  PRINTERNET_PASS :: string

definition parseIp :: "ipcodec \<Rightarrow> string \<Rightarrow> ipaddr \<Rightarrow> ipaddr" where
  "parseIp C s fallback = (case ip_fromString C s of Some ip \<Rightarrow> ip | None \<Rightarrow> fallback)"

definition loadFromDefaults :: "secrets \<Rightarrow> settings" where
  "loadFromDefaults sec =
     \<lparr>uplinkSsid = c_str (UPLINK_SSID sec),
      uplinkEnterprise = (UPLINK_AUTH_ENTERPRISE sec \<noteq> 0),
      uplinkPass = c_str (UPLINK_PASS sec),
      eapIdentity = c_str (UPLINK_EAP_IDENTITY sec),
      eapUsername = c_str (UPLINK_EAP_USERNAME sec),
      eapPassword = c_str (UPLINK_EAP_PASSWORD sec),
      apSsid = c_str (PRINTERNET_SSID sec),
      apPass = c_str (PRINTERNET_PASS sec),
      apIp = IP 192 168 5 1,
      dns = IP 1 1 1 1,
      ledBrightness = 64,
      adminUser = ''admin'',
      adminPass = c_str (PRINTERNET_PASS sec)\<rparr>"

lemma stored_defaults [simp]: "stored (loadFromDefaults sec) = loadFromDefaults sec"
  by (simp add: stored_def loadFromDefaults_def)

text \<open>The writes of \<open>save()\<close>, in order; \<open>save\<close> performs them one by one.\<close>

definition save_writes :: "ipcodec \<Rightarrow> settings \<Rightarrow> (string \<times> nvs_val) list" where
  "save_writes C st =
     [(''uSsid'', VStr (c_str (uplinkSsid st))),
      (''uEnt'', VBool (uplinkEnterprise st)),
      (''uPass'', VStr (c_str (uplinkPass st))),
      (''eapId'', VStr (c_str (eapIdentity st))),
      (''eapUser'', VStr (c_str (eapUsername st))),
      (''eapPass'', VStr (c_str (eapPassword st))),
      (''apSsid'', VStr (c_str (apSsid st))),
      (''apPass'', VStr (c_str (apPass st))),
      (''apIp'', VStr (c_str (ip_toString C (apIp st)))),
      (''dns'', VStr (c_str (ip_toString C (dns st)))),
      (''ledBri'', VUChar (ledBrightness st)),
      (''admUser'', VStr (c_str (adminUser st))),
      (''admPass'', VStr (c_str (adminPass st)))]"

definition put_all :: "'n nvs_ops \<Rightarrow> (string \<times> nvs_val) list \<Rightarrow> 'n \<Rightarrow> 'n" where
  "put_all P ws n = fold (\<lambda>(k, v) n. nvs_put P n k v) ws n"

lemma put_all_Nil [simp]: "put_all P [] n = n"
  by (simp add: put_all_def)

definition config_save :: "'n nvs_ops \<Rightarrow> ipcodec \<Rightarrow> settings \<Rightarrow> 'n \<Rightarrow> 'n" where
  "config_save P C st n = put_all P (save_writes C st) n"

definition overlay :: "'n nvs_ops \<Rightarrow> ipcodec \<Rightarrow> 'n \<Rightarrow> settings \<Rightarrow> settings" where
  "overlay P C n d =
     \<lparr>uplinkSsid = getString P n ''uSsid'' (uplinkSsid d),
      uplinkEnterprise = getBool P n ''uEnt'' (uplinkEnterprise d),
      uplinkPass = getString P n ''uPass'' (uplinkPass d),
      eapIdentity = getString P n ''eapId'' (eapIdentity d),
      eapUsername = getString P n ''eapUser'' (eapUsername d),
      eapPassword = getString P n ''eapPass'' (eapPassword d),
      apSsid = getString P n ''apSsid'' (apSsid d),
      apPass = getString P n ''apPass'' (apPass d),
      apIp = parseIp C (getString P n ''apIp'' (ip_toString C (apIp d))) (apIp d),
      dns = parseIp C (getString P n ''dns'' (ip_toString C (dns d))) (dns d),
      ledBrightness = getUChar P n ''ledBri'' (ledBrightness d),
      adminUser = getString P n ''admUser'' (adminUser d),
      adminPass = getString P n ''admPass'' (adminPass d)\<rparr>"

definition config_begin :: "'n nvs_ops \<Rightarrow> ipcodec \<Rightarrow> secrets \<Rightarrow> 'n \<Rightarrow> settings \<times> 'n" where
  "config_begin P C sec n =
     (let d = loadFromDefaults sec; provisioned = isKey P n ''uSsid''
      in if \<not> provisioned then (d, config_save P C d n)
         else (overlay P C n d, n))"

definition factoryReset :: "'n nvs_ops \<Rightarrow> ipcodec \<Rightarrow> secrets \<Rightarrow> 'n \<Rightarrow> settings \<times> 'n" where
  "factoryReset P C sec n =
     (let n = nvs_clear P n; d = loadFromDefaults sec in (d, config_save P C d n))"

section \<open>The contracts\<close>

locale nvs_store =
  fixes P :: "'n nvs_ops"
  assumes get_put: "nvs_get P (nvs_put P n k v) k' = (if k' = k then Some v else nvs_get P n k')"
    and get_clear: "nvs_get P (nvs_clear P n) k = None"
begin

lemma get_put_all:
  "distinct (map fst ws) \<Longrightarrow>
     nvs_get P (put_all P ws n) k = (case map_of ws k of Some v \<Rightarrow> Some v | None \<Rightarrow> nvs_get P n k)"
proof (induction ws arbitrary: n)
  case (Cons w ws)
  obtain k0 v0 where w: "w = (k0, v0)" by fastforce
  then have "map_of ws k0 = None" using Cons.prems by (simp add: map_of_eq_None_iff)
  with Cons w show ?case
    by (auto simp: put_all_def get_put split: option.splits)
qed (simp add: put_all_def)

end

locale ip_codec =
  fixes C :: ipcodec
  assumes from_to: "ip_fromString C (ip_toString C ip) = Some ip"
    and plain: "NUL \<notin> set (ip_toString C ip)"
begin

lemma print_stored [simp]: "c_str (ip_toString C ip) = ip_toString C ip"
  by (simp add: c_str_id plain)

lemma parse_print [simp]: "parseIp C (ip_toString C ip) fallback = ip"
  by (simp add: parseIp_def from_to)

end

text \<open>Position of a key in a list of writes, of which the first \<open>k\<close> were made.\<close>

lemma map_of_take:
  assumes "distinct (map fst ws)" and "i < length ws" and "ws ! i = (key, v)"
  shows "map_of (take k ws) key = (if i < k then Some v else None)"
proof (cases "i < k")
  case True
  have "distinct (map fst (take k ws))"
    using assms(1) by (simp flip: take_map)
  moreover have "(key, v) \<in> set (take k ws)"
    using True assms(2,3) by (auto simp: in_set_conv_nth intro!: exI [of _ i])
  ultimately show ?thesis using True by simp
next
  case False
  have "key \<noteq> fst (take k ws ! j)" if "j < length (take k ws)" for j
  proof -
    have "j \<noteq> i" "j < length ws" using that False by auto
    then have "map fst ws ! j \<noteq> map fst ws ! i"
      using assms(1,2) by (simp add: nth_eq_iff_index_eq del: nth_map)
    then show ?thesis using that assms(2,3) by simp
  qed
  then have "key \<notin> fst ` set (take k ws)"
    by (metis image_iff in_set_conv_nth)
  then have "map_of (take k ws) key = None" by (simp add: map_of_eq_None_iff)
  with False show ?thesis by simp
qed

lemma save_writes_distinct: "distinct (map fst (save_writes C st))"
  by (simp add: save_writes_def)

text \<open>The settings a boot finds when the last \<open>save\<close> got through its first \<open>k\<close> writes.\<close>

definition torn :: "nat \<Rightarrow> settings \<Rightarrow> settings \<Rightarrow> settings" where
  "torn k old new =
     \<lparr>uplinkSsid = (if 0 < k then uplinkSsid new else uplinkSsid old),
      uplinkEnterprise = (if 1 < k then uplinkEnterprise new else uplinkEnterprise old),
      uplinkPass = (if 2 < k then uplinkPass new else uplinkPass old),
      eapIdentity = (if 3 < k then eapIdentity new else eapIdentity old),
      eapUsername = (if 4 < k then eapUsername new else eapUsername old),
      eapPassword = (if 5 < k then eapPassword new else eapPassword old),
      apSsid = (if 6 < k then apSsid new else apSsid old),
      apPass = (if 7 < k then apPass new else apPass old),
      apIp = (if 8 < k then apIp new else apIp old),
      dns = (if 9 < k then dns new else dns old),
      ledBrightness = (if 10 < k then ledBrightness new else ledBrightness old),
      adminUser = (if 11 < k then adminUser new else adminUser old),
      adminPass = (if 12 < k then adminPass new else adminPass old)\<rparr>"

lemma torn_all: "13 \<le> k \<Longrightarrow> torn k old new = new"
  by (simp add: torn_def)

lemma torn_same: "torn k st st = st"
  by (simp add: torn_def)

locale config_store = nvs_store P + ip_codec C for P :: "'n nvs_ops" and C :: ipcodec
begin

lemma get_torn:
  assumes "save_writes C st ! i = (key, v)" and "i < 13"
  shows "nvs_get P (put_all P (take k (save_writes C st)) n) key
    = (if i < k then Some v else nvs_get P n key)"
proof -
  have "distinct (map fst (take k (save_writes C st)))"
    using save_writes_distinct [of C st] by (simp flip: take_map)
  moreover have "length (save_writes C st) = 13" by (simp add: save_writes_def)
  ultimately show ?thesis
    using assms by (simp add: get_put_all map_of_take [OF save_writes_distinct])
qed

lemma get_torn_fields:
  "nvs_get P (put_all P (take k (save_writes C st)) n) ''uSsid''
     = (if 0 < k then Some (VStr (c_str (uplinkSsid st))) else nvs_get P n ''uSsid'')"
  "nvs_get P (put_all P (take k (save_writes C st)) n) ''uEnt''
     = (if 1 < k then Some (VBool (uplinkEnterprise st)) else nvs_get P n ''uEnt'')"
  "nvs_get P (put_all P (take k (save_writes C st)) n) ''uPass''
     = (if 2 < k then Some (VStr (c_str (uplinkPass st))) else nvs_get P n ''uPass'')"
  "nvs_get P (put_all P (take k (save_writes C st)) n) ''eapId''
     = (if 3 < k then Some (VStr (c_str (eapIdentity st))) else nvs_get P n ''eapId'')"
  "nvs_get P (put_all P (take k (save_writes C st)) n) ''eapUser''
     = (if 4 < k then Some (VStr (c_str (eapUsername st))) else nvs_get P n ''eapUser'')"
  "nvs_get P (put_all P (take k (save_writes C st)) n) ''eapPass''
     = (if 5 < k then Some (VStr (c_str (eapPassword st))) else nvs_get P n ''eapPass'')"
  "nvs_get P (put_all P (take k (save_writes C st)) n) ''apSsid''
     = (if 6 < k then Some (VStr (c_str (apSsid st))) else nvs_get P n ''apSsid'')"
  "nvs_get P (put_all P (take k (save_writes C st)) n) ''apPass''
     = (if 7 < k then Some (VStr (c_str (apPass st))) else nvs_get P n ''apPass'')"
  "nvs_get P (put_all P (take k (save_writes C st)) n) ''apIp''
     = (if 8 < k then Some (VStr (ip_toString C (apIp st))) else nvs_get P n ''apIp'')"
  "nvs_get P (put_all P (take k (save_writes C st)) n) ''dns''
     = (if 9 < k then Some (VStr (ip_toString C (dns st))) else nvs_get P n ''dns'')"
  "nvs_get P (put_all P (take k (save_writes C st)) n) ''ledBri''
     = (if 10 < k then Some (VUChar (ledBrightness st)) else nvs_get P n ''ledBri'')"
  "nvs_get P (put_all P (take k (save_writes C st)) n) ''admUser''
     = (if 11 < k then Some (VStr (c_str (adminUser st))) else nvs_get P n ''admUser'')"
  "nvs_get P (put_all P (take k (save_writes C st)) n) ''admPass''
     = (if 12 < k then Some (VStr (c_str (adminPass st))) else nvs_get P n ''admPass'')"
  by (rule get_torn; simp add: save_writes_def)+

lemma overlay_torn:
  "overlay P C (put_all P (take k (save_writes C new)) n) d = torn k (overlay P C n d) (stored new)"
  by (simp add: overlay_def torn_def stored_def getString_def getBool_def getUChar_def get_torn_fields)

lemma save_full: "config_save P C st n = put_all P (take 13 (save_writes C st)) n"
  by (simp add: config_save_def save_writes_def)

lemma overlay_save: "overlay P C (config_save P C st n) d = stored st"
  by (simp add: save_full overlay_torn torn_all)

lemma isKey_torn:
  "isKey P (put_all P (take k (save_writes C st)) n) ''uSsid'' \<longleftrightarrow> 0 < k \<or> isKey P n ''uSsid''"
  by (simp add: isKey_def get_torn_fields)

lemma isKey_save: "isKey P (config_save P C st n) ''uSsid''"
  by (simp add: save_full isKey_torn)

lemma overlay_clear: "overlay P C (nvs_clear P n) d = d"
  by (simp add: overlay_def getString_def getBool_def getUChar_def get_clear)

lemma begin_save: "config_begin P C sec (config_save P C st n) = (stored st, config_save P C st n)"
  by (simp add: config_begin_def isKey_save overlay_save)

lemma begin_idem:
  assumes "config_begin P C sec n = (st, n')"
  shows "config_begin P C sec n' = (st, n')"
proof (cases "isKey P n ''uSsid''")
  case True
  then show ?thesis using assms by (auto simp: config_begin_def Let_def)
next
  case False
  then have "n' = config_save P C st n" "st = loadFromDefaults sec"
    using assms by (auto simp: config_begin_def Let_def)
  then show ?thesis by (simp add: begin_save)
qed

lemma begin_blank:
  "\<not> isKey P n ''uSsid'' \<Longrightarrow>
     config_begin P C sec n = (loadFromDefaults sec, config_save P C (loadFromDefaults sec) n)"
  by (simp add: config_begin_def Let_def)

lemma begin_torn:
  "0 < k \<or> isKey P n ''uSsid'' \<Longrightarrow>
     fst (config_begin P C sec (put_all P (take k (save_writes C new)) n))
       = torn k (overlay P C n (loadFromDefaults sec)) (stored new)"
  by (simp add: config_begin_def isKey_torn overlay_torn)

end

lemma config_store_begin_save:
  "nvs_store P \<Longrightarrow> ip_codec C \<Longrightarrow>
     config_begin P C sec (config_save P C st n) = (stored st, config_save P C st n)"
  by (rule config_store.begin_save) (simp add: config_store_def)

lemma config_store_begin_idem:
  "nvs_store P \<Longrightarrow> ip_codec C \<Longrightarrow> config_begin P C sec n = (st, n') \<Longrightarrow>
     config_begin P C sec n' = (st, n')"
  by (rule config_store.begin_idem) (simp_all add: config_store_def)

section \<open>Instances\<close>

type_synonym flash = "string \<Rightarrow> nvs_val option"

definition flash_ops :: "flash nvs_ops" where
  "flash_ops = \<lparr>nvs_get = (\<lambda>n k. n k), nvs_put = (\<lambda>n k v. n(k \<mapsto> v)), nvs_clear = (\<lambda>n. Map.empty)\<rparr>"

fun split_on :: "char \<Rightarrow> string \<Rightarrow> string list" where
  "split_on d [] = [[]]"
| "split_on d (c # cs) =
     (if c = d then [] # split_on d cs
      else (case split_on d cs of [] \<Rightarrow> [[c]] | p # ps \<Rightarrow> (c # p) # ps))"

definition parse_octet :: "string \<Rightarrow> u8 option" where
  "parse_octet s =
     (if s \<noteq> [] \<and> list_all is_digit s \<and> undec s \<le> 255 then Some (of_nat (undec s)) else None)"

definition dotted :: ipcodec where
  "dotted =
     \<lparr>ip_toString = (\<lambda>ip. dec_word (oct0 ip) @ ''.'' @ dec_word (oct1 ip) @ ''.''
        @ dec_word (oct2 ip) @ ''.'' @ dec_word (oct3 ip)),
      ip_fromString = (\<lambda>s. case map parse_octet (split_on (CHR ''.'') s) of
          [Some a, Some b, Some c, Some d] \<Rightarrow> Some (IP a b c d) | _ \<Rightarrow> None)\<rparr>"

lemma split_on_plain: "d \<notin> set s \<Longrightarrow> split_on d s = [s]"
  by (induction s) auto

lemma split_on_sep: "d \<notin> set s \<Longrightarrow> split_on d (s @ d # r) = s # split_on d r"
  by (induction s) auto

lemma dot_not_in_dec: "CHR ''.'' \<notin> set (dec n)"
proof
  assume "CHR ''.'' \<in> set (dec n)"
  from dec_digits [OF this] show False by (simp add: is_digit_def)
qed

lemma parse_octet_dec: "parse_octet (dec_word w) = Some (w :: u8)"
  using unat_lt2p_8 [of w] dec_digits [of _ "unat w"]
  by (auto simp: parse_octet_def dec_word_def list_all_iff)

interpretation flash: nvs_store flash_ops
  by unfold_locales (simp_all add: flash_ops_def)

lemma nul_not_in_dec: "NUL \<notin> set (dec n)"
proof
  assume "NUL \<in> set (dec n)"
  from dec_digits [OF this] show False by (simp add: is_digit_def)
qed

interpretation dotted: ip_codec dotted
proof unfold_locales
  show "ip_fromString dotted (ip_toString dotted ip) = Some ip" for ip
    by (simp add: dotted_def dec_word_def split_on_sep split_on_plain dot_not_in_dec
        parse_octet_dec [unfolded dec_word_def])
  show "NUL \<notin> set (ip_toString dotted ip)" for ip
    by (simp add: dotted_def dec_word_def nul_not_in_dec)
qed

interpretation flash_config: config_store flash_ops dotted
  by unfold_locales

section \<open>Properties\<close>

text \<open>C23. A configuration that was saved is what the next boot loads, whatever \<^verbatim>\<open>secrets.h\<close>
  that firmware was built with and whatever the store held before; the boot writes nothing.
  Only what follows a NUL character in a text is lost, so a configuration comes back
  unchanged exactly when none of its texts contains one.\<close>

theorem saved_config_survives:
  assumes "nvs_store P" and "ip_codec C"
  shows "config_begin P C sec (config_save P C st n) = (stored st, config_save P C st n) \<and>
    (fst (config_begin P C sec (config_save P C st n)) = st \<longleftrightarrow> no_nul st)"
  using config_store_begin_save [OF assms] by (simp add: stored_id)

definition demo_secrets :: secrets where
  "demo_secrets = \<lparr>UPLINK_SSID = ''campus'', UPLINK_AUTH_ENTERPRISE = 1, UPLINK_PASS = [],
     UPLINK_EAP_IDENTITY = ''id'', UPLINK_EAP_USERNAME = ''user'', UPLINK_EAP_PASSWORD = ''secret'',
     PRINTERNET_SSID = ''PrinterNet'', PRINTERNET_PASS = ''change-me''\<rparr>"

theorem saved_config_survives_witness:
  "fst (config_begin flash_ops dotted demo_secrets
     (config_save flash_ops dotted ((loadFromDefaults demo_secrets)\<lparr>dns := IP 9 9 9 9\<rparr>) Map.empty))
   = (loadFromDefaults demo_secrets)\<lparr>dns := IP 9 9 9 9\<rparr>"
  using saved_config_survives [OF flash.nvs_store_axioms dotted.ip_codec_axioms]
  by (simp add: stored_def no_nul_def loadFromDefaults_def demo_secrets_def)

text \<open>\<^verbatim>\<open>secrets.h\<close> only seeds a blank device: the first boot stores the defaults of the
  firmware that runs it, and every later boot loads these, also when it was built from
  other secrets. Only a factory reset brings the new secrets in.\<close>

theorem secrets_only_seed:
  assumes "nvs_store P" and "ip_codec C" and blank: "\<not> isKey P n ''uSsid''"
  shows "fst (config_begin P C sec n) = loadFromDefaults sec \<and>
    fst (config_begin P C sec' (snd (config_begin P C sec n))) = loadFromDefaults sec \<and>
    fst (config_begin P C sec'' (snd (factoryReset P C sec' (snd (config_begin P C sec n)))))
      = loadFromDefaults sec'"
proof -
  have "config_store P C" using assms by (simp add: config_store_def)
  then show ?thesis
    by (simp add: config_store.begin_blank [OF _ blank] config_store.begin_save factoryReset_def Let_def)
qed

theorem secrets_only_seed_witness:
  "fst (config_begin flash_ops dotted (demo_secrets\<lparr>UPLINK_SSID := ''home''\<rparr>)
     (snd (config_begin flash_ops dotted demo_secrets Map.empty))) = loadFromDefaults demo_secrets"
  using secrets_only_seed [OF flash.nvs_store_axioms dotted.ip_codec_axioms, of Map.empty demo_secrets
      "demo_secrets\<lparr>UPLINK_SSID := ''home''\<rparr>"]
  by (simp add: isKey_def flash_ops_def)

text \<open>A save interrupted after any number of its writes leaves each setting at its old or
  its new value, the new ones being exactly those written so far; no setting is lost,
  blanked or mixed up with another. The first save of a blank device can be cut anywhere
  and the next boot of the same firmware still finds the factory defaults.\<close>

theorem interrupted_save:
  assumes "nvs_store P" and "ip_codec C"
  shows "fst (config_begin P C sec (put_all P (take k (save_writes C new)) (config_save P C old n)))
      = torn k (stored old) (stored new) \<and>
    fst (config_begin P C sec (put_all P (take k (save_writes C (loadFromDefaults sec))) (nvs_clear P n)))
      = loadFromDefaults sec"
proof -
  have c: "config_store P C" using assms by (simp add: config_store_def)
  have blank: "\<not> isKey P (nvs_clear P n) ''uSsid''"
    using assms(1) by (simp add: isKey_def nvs_store.get_clear)
  have "fst (config_begin P C sec (put_all P (take k (save_writes C (loadFromDefaults sec))) (nvs_clear P n)))
      = loadFromDefaults sec"
    using c blank
    by (cases "0 < k")
      (simp_all add: config_store.begin_torn config_store.overlay_clear torn_same
        config_store.begin_blank)
  with c show ?thesis
    by (simp add: config_store.begin_torn config_store.isKey_save config_store.overlay_save)
qed

theorem interrupted_save_witness:
  "fst (config_begin flash_ops dotted demo_secrets
     (put_all flash_ops (take 3 (save_writes dotted (loadFromDefaults demo_secrets)))
       (nvs_clear flash_ops Map.empty))) = loadFromDefaults demo_secrets"
  using interrupted_save [OF flash.nvs_store_axioms dotted.ip_codec_axioms] by blast

end
