(* ===== verification/Napt.thy ===== *)
theory Napt
  imports Config
begin

text \<open>
  The settings in the firmware state, and the NAPT switch of \<^verbatim>\<open>src/net/napt.cpp\<close>: a flag
  that follows what the driver accepted, so that repeated requests reach the driver once.
\<close>

record cfgst = wdog +
  cfg :: settings
  nvs :: flash

record napts = cfgst +
  s_enabled :: bool

text \<open>\<open>ok\<close> is the answer of \<open>WiFi.AP.enableNAPT(true)\<close>.\<close>

definition napt_enable :: "bool \<Rightarrow> 'a napts_scheme \<Rightarrow> 'a napts_scheme" where
  "napt_enable ok s =
     (if s_enabled s then s
      else let s = call (EnableNapt True) s;
               s = log_at (''enableNAPT(true) returned '' @ dec_bool ok) s
           in s\<lparr>s_enabled := ok\<rparr>)"

definition napt_disable :: "'a napts_scheme \<Rightarrow> 'a napts_scheme" where
  "napt_disable s =
     (if \<not> s_enabled s then s
      else (call (EnableNapt False) s)\<lparr>s_enabled := False\<rparr>)"

definition napt_isEnabled :: "'a napts_scheme \<Rightarrow> bool" where
  "napt_isEnabled s = s_enabled s"

section \<open>The contract of the switch\<close>

locale nat_switch =
  fixes on :: "'s \<Rightarrow> bool" and enable :: "bool \<Rightarrow> 's \<Rightarrow> 's" and disable :: "'s \<Rightarrow> 's"
  assumes on_enable: "on (enable ok s) \<longleftrightarrow> on s \<or> ok"
    and off_disable: "\<not> on (disable s)"
    and enable_on: "on s \<Longrightarrow> enable ok s = s"
    and disable_off: "\<not> on s \<Longrightarrow> disable s = s"
begin

text \<open>A client that compares what it wants with what is, and asks for the difference,
  ends up with what it wants unless the driver refuses.\<close>

lemma drive:
  "on (if want = on s then s else if want then enable ok s else disable s)
     \<longleftrightarrow> want \<and> (ok \<or> on s)"
  by (auto simp: on_enable off_disable)

lemma drive_settled:
  "on s = want \<Longrightarrow> (if want then enable ok s else disable s) = s"
  by (auto simp: enable_on disable_off)

end

interpretation napt: nat_switch napt_isEnabled napt_enable napt_disable
  by unfold_locales
    (simp_all add: napt_isEnabled_def napt_enable_def napt_disable_def Let_def)

lemma napt_frames [simp, frames]:
  "clock (napt_enable ok s) = clock s" "clock (napt_disable s) = clock s"
  "g_brightness (napt_enable ok s) = g_brightness s" "g_brightness (napt_disable s) = g_brightness s"
  "cfg (napt_enable ok s) = cfg s" "cfg (napt_disable s) = cfg s"
  "nvs (napt_enable ok s) = nvs s" "nvs (napt_disable s) = nvs s"
  "napts.more (napt_enable ok s) = napts.more s" "napts.more (napt_disable s) = napts.more s"
  by (simp_all add: napt_enable_def napt_disable_def Let_def call_def log_at_eq)

text \<open>The driver as the calls leave it, when it accepts every request.\<close>

fun driver_napt :: "bool \<Rightarrow> dev_call list \<Rightarrow> bool" where
  "driver_napt b [] = b"
| "driver_napt b (EnableNapt v # cs) = driver_napt v cs"
| "driver_napt b (_ # cs) = driver_napt b cs"

lemma driver_napt_append: "driver_napt b (xs @ ys) = driver_napt (driver_napt b xs) ys"
  by (induction b xs rule: driver_napt.induct) auto

end
