(* ===== verification/Health.thy ===== *)
theory Health
  imports Napt "HOL-Library.Multiset"
begin

text \<open>
  The reachability probes of \<^verbatim>\<open>src/net/health.cpp\<close>: one ICMP session per direction, started
  by \<open>update()\<close> at most once a minute, fed by two callbacks on another task, and harvested
  by the next \<open>update()\<close> after it finished. The operations on one probe are written once,
  over a slot of the state (how to read it, how to write it), and used for both
  directions. The theory shows the handle discipline of the ping API, the verdict of a
  round, its rate limit, and how the fail streaks move.
\<close>

datatype result = Unknown | Ok | Failed

definition kRoundIntervalMs :: u32 where
  "kRoundIntervalMs = 60000"

definition kPingCount :: u32 where "kPingCount = 3"
definition kPingIntervalMs :: u32 where "kPingIntervalMs = 500"
definition kPingTimeoutMs :: u32 where "kPingTimeoutMs = 1000"
definition kPingStackBytes :: u32 where "kPingStackBytes = 2560"
definition kPingPriority :: u32 where "kPingPriority = 2"

definition ping_session :: "ipaddr \<Rightarrow> ping_config" where
  "ping_session target =
     \<lparr>target_addr = target, ping_count = kPingCount, interval_ms = kPingIntervalMs,
      timeout_ms = kPingTimeoutMs, data_size = 32, tos = 0, ttl = 64, task_stack_size = kPingStackBytes,
      task_prio = kPingPriority, interface = 0\<rparr>"

record probe =
  p_name :: string
  p_handle :: "nat option"
  replies :: u32
  finished :: bool
  running :: bool
  presult :: result
  failStreak :: u8
  everOk :: bool

definition init_probe :: "string \<Rightarrow> probe" where
  "init_probe n = \<lparr>p_name = n, p_handle = None, replies = 0, finished = False, running = False,
     presult = Unknown, failStreak = 0, everOk = False\<rparr>"

record healths = napts +
  g_up :: probe
  g_down :: probe
  g_lastRoundMs :: u32

text \<open>The answers of the ping API to one \<open>startProbe\<close>: the session handle if
  \<open>esp_ping_new_session\<close> succeeds, and whether \<open>esp_ping_start\<close> does.\<close>

record ping_ans =
  new_handle :: "nat option"
  start_ok :: bool

text \<open>A slot of the state that holds a probe.\<close>

record 's slot =
  get :: "'s \<Rightarrow> probe"
  put :: "probe \<Rightarrow> 's \<Rightarrow> 's"

definition slot_up :: "('a healths_scheme) slot" where
  "slot_up = \<lparr>get = g_up, put = (\<lambda>p s. s\<lparr>g_up := p\<rparr>)\<rparr>"

definition slot_down :: "('a healths_scheme) slot" where
  "slot_down = \<lparr>get = g_down, put = (\<lambda>p s. s\<lparr>g_down := p\<rparr>)\<rparr>"

section \<open>Operations\<close>

definition onPingSuccess :: "'a healths_scheme slot \<Rightarrow> 'a healths_scheme \<Rightarrow> 'a healths_scheme" where
  "onPingSuccess L s = (let p = get L s in put L (p\<lparr>replies := replies p + 1\<rparr>) s)"

definition onPingEnd :: "'a healths_scheme slot \<Rightarrow> 'a healths_scheme \<Rightarrow> 'a healths_scheme" where
  "onPingEnd L s = (let p = get L s in put L (p\<lparr>finished := True\<rparr>) s)"

definition startProbe ::
  "'a healths_scheme slot \<Rightarrow> ipaddr \<Rightarrow> ping_ans \<Rightarrow> 'a healths_scheme \<Rightarrow> 'a healths_scheme" where
  "startProbe L target a s =
     (let p = get L s
      in if running p then s
         else
           let p = p\<lparr>replies := 0, finished := False\<rparr>;
               s = call (PingNew (ping_session target) (new_handle a)) s
           in case new_handle a of
                None \<Rightarrow> put L (p\<lparr>p_handle := None\<rparr>) s
              | Some h \<Rightarrow>
                  let p = p\<lparr>p_handle := Some h\<rparr>;
                      s = call (PingStart (p_handle p)) s
                  in if \<not> start_ok a then
                       let s = call (PingDelete (p_handle p)) s
                       in put L (p\<lparr>p_handle := None\<rparr>) s
                     else put L (p\<lparr>running := True\<rparr>) s)"

definition harvest :: "'a healths_scheme slot \<Rightarrow> 'a healths_scheme \<Rightarrow> 'a healths_scheme" where
  "harvest L s =
     (let p = get L s
      in if \<not> running p \<or> \<not> finished p then s
         else
           let ok = replies p > 0;
               p = p\<lparr>presult := (if ok then Ok else Failed)\<rparr>;
               (p, s) =
                 (if ok then
                    (p\<lparr>everOk := True, failStreak := 0\<rparr>,
                     if failStreak p \<noteq> 0 then log_at (''health: '' @ p_name p @ '' recovered'') s else s)
                  else
                    let p = (if failStreak p < 255 then p\<lparr>failStreak := failStreak p + 1\<rparr> else p)
                    in (p, log_at (''health: '' @ p_name p @ '' unreachable ('' @ dec_word (failStreak p)
                              @ '' in a row)'') s));
               s = call (PingStop (p_handle p)) s;
               s = call (PingDelete (p_handle p)) s
           in put L (p\<lparr>p_handle := None, running := False\<rparr>) s)"

definition health_begin :: "'a healths_scheme \<Rightarrow> 'a healths_scheme" where
  "health_begin s =
     s\<lparr>g_up := (g_up s)\<lparr>p_name := ''upstream gateway''\<rparr>,
       g_down := (g_down s)\<lparr>p_name := ''downstream client''\<rparr>,
       g_lastRoundMs := 0\<rparr>"

definition health_round ::
  "ipaddr \<Rightarrow> ipaddr \<Rightarrow> ping_ans \<Rightarrow> ping_ans \<Rightarrow> 'a healths_scheme \<Rightarrow> 'a healths_scheme" where
  "health_round gateway client au ad s =
     (if running (g_up s) \<or> running (g_down s) then s
      else
        let (now, s) = millis s;
            s = s\<lparr>g_lastRoundMs := now\<rparr>;
            s = (if u32_of_ip gateway \<noteq> 0 then startProbe slot_up gateway au s else s)
        in if u32_of_ip client \<noteq> 0 then startProbe slot_down client ad s else s)"

definition health_update ::
  "bool \<Rightarrow> ipaddr \<Rightarrow> ipaddr \<Rightarrow> ping_ans \<Rightarrow> ping_ans \<Rightarrow> 'a healths_scheme \<Rightarrow> 'a healths_scheme" where
  "health_update uplinkReady gateway client au ad s =
     (let s = harvest slot_up s;
          s = harvest slot_down s
      in if \<not> uplinkReady then s\<lparr>g_up := (g_up s)\<lparr>presult := Unknown, failStreak := 0\<rparr>\<rparr>
         else if g_lastRoundMs s \<noteq> 0 then
           (let (now, s) = millis s
            in if now - g_lastRoundMs s < kRoundIntervalMs then s
               else health_round gateway client au ad s)
         else health_round gateway client au ad s)"

definition upstream :: "'a healths_scheme \<Rightarrow> result" where "upstream s = presult (g_up s)"
definition downstream :: "'a healths_scheme \<Rightarrow> result" where "downstream s = presult (g_down s)"
definition upstreamFailStreak :: "'a healths_scheme \<Rightarrow> u8" where
  "upstreamFailStreak s = failStreak (g_up s)"
definition downstreamFailStreak :: "'a healths_scheme \<Rightarrow> u8" where
  "downstreamFailStreak s = failStreak (g_down s)"
definition upstreamEverOk :: "'a healths_scheme \<Rightarrow> bool" where "upstreamEverOk s = everOk (g_up s)"
definition downstreamEverOk :: "'a healths_scheme \<Rightarrow> bool" where "downstreamEverOk s = everOk (g_down s)"

definition resetStreaks :: "'a healths_scheme \<Rightarrow> 'a healths_scheme" where
  "resetStreaks s = s\<lparr>g_up := (g_up s)\<lparr>failStreak := 0\<rparr>, g_down := (g_down s)\<lparr>failStreak := 0\<rparr>\<rparr>"

section \<open>Slots\<close>

text \<open>
  The contract of a slot: it reads back what was written, leaves the log, the clock and
  the calls alone, and is not touched by them. Harvesting and starting are proved against
  it once.
\<close>

locale probe_slot =
  fixes L :: "'a healths_scheme slot"
  assumes get_put [simp]: "get L (put L p s) = p"
    and get_log [simp]: "get L (log_at m s) = get L s"
    and get_call [simp]: "get L (call c s) = get L s"
    and calls_put [simp]: "calls (put L p s) = calls s"
    and put_frame [simp]: "clock (put L p s) = clock s" "g_lastRoundMs (put L p s) = g_lastRoundMs s"
      "tick (put L p s) = tick s"
begin

lemma harvest_pending: "\<not> (running (get L s) \<and> finished (get L s)) \<Longrightarrow> harvest L s = s"
  by (auto simp: harvest_def Let_def)

lemma harvest_verdict:
  assumes "running (get L s)" and "finished (get L s)"
  shows "presult (get L (harvest L s)) = (if replies (get L s) > 0 then Ok else Failed)"
    and "everOk (get L (harvest L s)) = (everOk (get L s) \<or> replies (get L s) > 0)"
    and "failStreak (get L (harvest L s)) =
      (if replies (get L s) > 0 then 0
       else if failStreak (get L s) < 255 then failStreak (get L s) + 1 else failStreak (get L s))"
    and "p_handle (get L (harvest L s)) = None" and "\<not> running (get L (harvest L s))"
    and "calls (harvest L s) = calls s @ [PingStop (p_handle (get L s)), PingDelete (p_handle (get L s))]"
  using assms by (simp_all add: harvest_def Let_def)

lemma startProbe_running: "running (get L s) \<Longrightarrow> startProbe L target a s = s"
  by (simp add: startProbe_def Let_def)

lemma startProbe_started:
  assumes "\<not> running (get L s)" and "new_handle a = Some h" and "start_ok a"
  shows "running (get L (startProbe L target a s))"
    and "p_handle (get L (startProbe L target a s)) = Some h"
    and "replies (get L (startProbe L target a s)) = 0"
    and "\<not> finished (get L (startProbe L target a s))"
    and "calls (startProbe L target a s) = calls s @ [PingNew (ping_session target) (Some h), PingStart (Some h)]"
  using assms by (simp_all add: startProbe_def Let_def)

lemma startProbe_no_session:
  assumes "\<not> running (get L s)" and "new_handle a = None"
  shows "p_handle (get L (startProbe L target a s)) = None"
    and "\<not> running (get L (startProbe L target a s))"
    and "calls (startProbe L target a s) = calls s @ [PingNew (ping_session target) None]"
  using assms by (simp_all add: startProbe_def Let_def)

lemma startProbe_not_started:
  assumes "\<not> running (get L s)" and "new_handle a = Some h" and "\<not> start_ok a"
  shows "p_handle (get L (startProbe L target a s)) = None"
    and "\<not> running (get L (startProbe L target a s))"
    and "calls (startProbe L target a s)
      = calls s @ [PingNew (ping_session target) (Some h), PingStart (Some h), PingDelete (Some h)]"
  using assms by (simp_all add: startProbe_def Let_def)

text \<open>A failed or refused start leaves verdict, streak and history alone; so does a start.\<close>

lemma startProbe_keeps:
  "presult (get L (startProbe L target a s)) = presult (get L s)"
  "failStreak (get L (startProbe L target a s)) = failStreak (get L s)"
  "everOk (get L (startProbe L target a s)) = everOk (get L s)"
  by (simp_all add: startProbe_def Let_def split: option.splits)

end

interpretation up: probe_slot slot_up
  by unfold_locales (simp_all add: slot_up_def log_at_eq call_def)

interpretation down: probe_slot slot_down
  by unfold_locales (simp_all add: slot_down_def log_at_eq call_def)

section \<open>Two slots\<close>

locale probe_slots = L: probe_slot L + M: probe_slot M
  for L M :: "'a healths_scheme slot" +
  assumes get_other [simp]: "get M (put L p s) = get M s"
begin

lemma other_harvest [simp]: "get M (harvest L s) = get M s"
  by (simp add: harvest_def Let_def)

lemma other_start [simp]: "get M (startProbe L target a s) = get M s"
  by (simp add: startProbe_def Let_def split: option.splits)

end

interpretation up_down: probe_slots slot_up slot_down
  by unfold_locales (simp add: slot_up_def slot_down_def)

interpretation down_up: probe_slots slot_down slot_up
  by unfold_locales (simp add: slot_up_def slot_down_def)

lemma slot_gets [simp]: "get slot_up = g_up" "get slot_down = g_down"
  by (simp_all add: slot_up_def slot_down_def)

lemma slot_puts [simp]:
  "put slot_up p s = s\<lparr>g_up := p\<rparr>" "put slot_down p s = s\<lparr>g_down := p\<rparr>"
  by (simp_all add: slot_up_def slot_down_def)

lemmas up_facts = up_down.other_harvest [simplified] up_down.other_start [simplified]
  down_up.other_harvest [simplified] down_up.other_start [simplified]

declare up_facts [simp]

lemmas start_keeps [simp] = up.startProbe_keeps [simplified] down.startProbe_keeps [simplified]

lemma harvest_frames [simp, frames]:
  "clock (harvest slot_up s) = clock s" "clock (harvest slot_down s) = clock s"
  "g_lastRoundMs (harvest slot_up s) = g_lastRoundMs s"
  "g_lastRoundMs (harvest slot_down s) = g_lastRoundMs s"
  by (simp_all add: harvest_def Let_def slot_up_def slot_down_def log_at_eq call_def)

lemma harvest_tick:
  "tick (harvest slot_up s) \<le> Suc (tick s)" "tick s \<le> tick (harvest slot_up s)"
  "tick (harvest slot_down s) \<le> Suc (tick s)" "tick s \<le> tick (harvest slot_down s)"
  by (simp_all add: harvest_def Let_def slot_up_def slot_down_def)

lemma startProbe_frames [simp, frames]:
  "clock (startProbe slot_up target a s) = clock s" "clock (startProbe slot_down target a s) = clock s"
  "tick (startProbe slot_up target a s) = tick s" "tick (startProbe slot_down target a s) = tick s"
  "g_lastRoundMs (startProbe slot_up target a s) = g_lastRoundMs s"
  "g_lastRoundMs (startProbe slot_down target a s) = g_lastRoundMs s"
  by (simp_all add: startProbe_def Let_def slot_up_def slot_down_def call_def split: option.splits)

section \<open>Handles\<close>

text \<open>
  The protocol of the ping API over a trace of calls: a session may be started, stopped or
  deleted only while it is open. \<open>sess\<close> is the multiset of the open sessions, or nothing
  when a call used a handle that is not open.
\<close>

fun sess :: "nat multiset \<Rightarrow> dev_call list \<Rightarrow> nat multiset option" where
  "sess M [] = Some M"
| "sess M (PingNew _ r # cs) = (case r of None \<Rightarrow> sess M cs | Some h \<Rightarrow> sess (add_mset h M) cs)"
| "sess M (PingStart r # cs) =
     (case r of None \<Rightarrow> None | Some h \<Rightarrow> if h \<in># M then sess M cs else None)"
| "sess M (PingStop r # cs) =
     (case r of None \<Rightarrow> None | Some h \<Rightarrow> if h \<in># M then sess M cs else None)"
| "sess M (PingDelete r # cs) =
     (case r of None \<Rightarrow> None | Some h \<Rightarrow> if h \<in># M then sess (M - {#h#}) cs else None)"
| "sess M (_ # cs) = sess M cs"

lemma sess_append: "sess M (xs @ ys) = Option.bind (sess M xs) (\<lambda>M. sess M ys)"
  by (induction M xs rule: sess.induct) (auto split: option.splits)

definition probe_ok :: "probe \<Rightarrow> bool" where
  "probe_ok p \<longleftrightarrow> (running p \<longleftrightarrow> p_handle p \<noteq> None)"

definition handles :: "probe \<Rightarrow> nat multiset" where
  "handles p = (case p_handle p of None \<Rightarrow> {#} | Some h \<Rightarrow> {#h#})"

context probe_slot
begin

lemma harvest_sess:
  assumes "probe_ok (get L s)" and "sess {#} (calls s) = Some (X + handles (get L s))"
  shows "sess {#} (calls (harvest L s)) = Some (X + handles (get L (harvest L s)))
    \<and> probe_ok (get L (harvest L s))"
proof (cases "running (get L s) \<and> finished (get L s)")
  case True
  then obtain h where "p_handle (get L s) = Some h" using assms(1) by (auto simp: probe_ok_def)
  with True assms show ?thesis
    by (simp add: harvest_verdict sess_append handles_def probe_ok_def)
next
  case False
  with assms show ?thesis by (simp add: harvest_pending)
qed

lemma startProbe_sess:
  assumes "probe_ok (get L s)" and "sess {#} (calls s) = Some (X + handles (get L s))"
  shows "sess {#} (calls (startProbe L t a s)) = Some (X + handles (get L (startProbe L t a s)))
    \<and> probe_ok (get L (startProbe L t a s))"
proof (cases "running (get L s)")
  case True
  with assms show ?thesis by (simp add: startProbe_running)
next
  case idle: False
  then have "handles (get L s) = {#}" using assms(1) by (simp add: probe_ok_def handles_def)
  with idle assms show ?thesis
    by (cases "new_handle a"; cases "start_ok a")
      (simp_all add: startProbe_started startProbe_no_session startProbe_not_started
        sess_append handles_def probe_ok_def)
qed

end

definition health_ok :: "'a healths_scheme \<Rightarrow> bool" where
  "health_ok s \<longleftrightarrow> probe_ok (g_up s) \<and> probe_ok (g_down s) \<and>
     sess {#} (calls s) = Some (handles (g_up s) + handles (g_down s))"

lemma health_ok_harvest:
  "health_ok s \<Longrightarrow> health_ok (harvest slot_up s)" "health_ok s \<Longrightarrow> health_ok (harvest slot_down s)"
  using up.harvest_sess [of s "handles (g_down s)"] down.harvest_sess [of s "handles (g_up s)"]
  by (auto simp: health_ok_def add.commute)

lemma health_ok_start:
  "health_ok s \<Longrightarrow> health_ok (startProbe slot_up t a s)"
  "health_ok s \<Longrightarrow> health_ok (startProbe slot_down t a s)"
  using up.startProbe_sess [of s "handles (g_down s)" t a]
    down.startProbe_sess [of s "handles (g_up s)" t a]
  by (auto simp: health_ok_def add.commute)

lemma health_ok_fields [simp]:
  "health_ok (s\<lparr>g_lastRoundMs := x\<rparr>) = health_ok s" "health_ok (s\<lparr>tick := n\<rparr>) = health_ok s"
  by (simp_all add: health_ok_def)

lemma health_ok_round:
  "health_ok s \<Longrightarrow> health_ok (health_round gw cl au ad s)"
  by (simp add: health_round_def Let_def health_ok_start)

lemma health_ok_verdict:
  "health_ok s \<Longrightarrow> running p = running (g_up s) \<Longrightarrow> p_handle p = p_handle (g_up s) \<Longrightarrow>
     health_ok (s\<lparr>g_up := p\<rparr>)"
  by (simp add: health_ok_def probe_ok_def handles_def)

lemma health_ok_update: "health_ok s \<Longrightarrow> health_ok (health_update u gw cl au ad s)"
  by (simp add: health_update_def Let_def health_ok_harvest health_ok_round health_ok_verdict)

lemma health_ok_callbacks:
  "health_ok s \<Longrightarrow> health_ok (onPingSuccess slot_up s)"
  "health_ok s \<Longrightarrow> health_ok (onPingSuccess slot_down s)"
  "health_ok s \<Longrightarrow> health_ok (onPingEnd slot_up s)"
  "health_ok s \<Longrightarrow> health_ok (onPingEnd slot_down s)"
  "health_ok s \<Longrightarrow> health_ok (resetStreaks s)"
  by (simp_all add: health_ok_def onPingSuccess_def onPingEnd_def resetStreaks_def probe_ok_def
    handles_def Let_def)

section \<open>The component as a transition system\<close>

text \<open>
  Steps of the probes and of what surrounds them: updates and streak resets from
  \<open>loop()\<close>, callbacks of the ping task for either direction at any time, and calls and log
  lines of other components, which make no ping calls.
\<close>

fun ping_call :: "dev_call \<Rightarrow> bool" where
  "ping_call (PingNew _ _) = True"
| "ping_call (PingStart _) = True"
| "ping_call (PingStop _) = True"
| "ping_call (PingDelete _) = True"
| "ping_call _ = False"

lemma sess_other: "\<not> ping_call c \<Longrightarrow> sess M [c] = Some M"
  by (cases c) auto

definition health_init :: "healths \<Rightarrow> bool" where
  "health_init s \<longleftrightarrow> calls s = [] \<and> g_up s = init_probe [] \<and> g_down s = init_probe []"

inductive health_step :: "healths \<Rightarrow> healths \<Rightarrow> bool" where
  hs_begin: "\<not> running (g_up s) \<Longrightarrow> \<not> running (g_down s) \<Longrightarrow> health_step s (health_begin s)"
| hs_update: "health_step s (health_update u gw cl au ad s)"
| hs_success: "L \<in> {slot_up, slot_down} \<Longrightarrow> health_step s (onPingSuccess L s)"
| hs_end: "L \<in> {slot_up, slot_down} \<Longrightarrow> health_step s (onPingEnd L s)"
| hs_reset: "health_step s (resetStreaks s)"
| hs_other: "\<not> ping_call c \<Longrightarrow> health_step s (call c s)"
| hs_log: "health_step s (log_at m s)"

lemma health_ok_begin:
  "health_ok s \<Longrightarrow> health_ok (health_begin s)"
  by (simp add: health_ok_def health_begin_def probe_ok_def handles_def)

lemma health_ok_other:
  "health_ok s \<Longrightarrow> \<not> ping_call c \<Longrightarrow> health_ok (call c s)" "health_ok s \<Longrightarrow> health_ok (log_at m s)"
  using up.get_call [of c s] down.get_call [of c s] up.get_log [of m s] down.get_log [of m s]
  by (simp_all add: health_ok_def sess_append sess_other)

lemma health_ok_init: "health_init s \<Longrightarrow> health_ok s"
  by (simp add: health_init_def health_ok_def init_probe_def probe_ok_def handles_def)

lemma health_ok_step: "health_step s t \<Longrightarrow> health_ok s \<Longrightarrow> health_ok t"
  by (induction rule: health_step.induct)
    (auto simp: health_ok_update health_ok_callbacks health_ok_begin health_ok_other)

interpretation health: invariant_of health_init health_step health_ok
  by unfold_locales (auto simp: health_ok_init intro: health_ok_step)

section \<open>Properties\<close>

text \<open>In every reachable state, whatever the order of updates, callbacks and other
  activity, the ping API was only ever given handles of open sessions, and the sessions
  still open are those of the running probes: nothing is used after it was deleted,
  nothing leaks, and at most two sessions exist at a time.\<close>

theorem ping_sessions_safe:
  assumes "reach health_init health_step s"
  shows "\<exists>M. sess {#} (calls s) = Some M \<and> size M \<le> 2 \<and>
    M = (if running (g_up s) then {#the (p_handle (g_up s))#} else {#})
      + (if running (g_down s) then {#the (p_handle (g_down s))#} else {#})"
  using health.always [OF assms]
  by (auto simp: health_ok_def probe_ok_def handles_def)

definition health_demo :: healths where
  "health_demo = \<lparr>clock = (\<lambda>k. of_nat (1000 * k)), tick = 1, log_ring = init_logbuf,
     serial = [], calls = [], g_brightness = 64, lastWrittenPacked = - 1, g_lastLoopMs = 0,
     g_uplinkDownSinceMs = 0, g_armed = True, g_resetReason = [], sup = SupDelay,
     cfg = loadFromDefaults demo_secrets, nvs = Map.empty, s_enabled = False,
     g_up = init_probe [], g_down = init_probe [], g_lastRoundMs = 0\<rparr>"

definition ping_good :: "nat \<Rightarrow> ping_ans" where
  "ping_good h = \<lparr>new_handle = Some h, start_ok = True\<rparr>"

theorem ping_sessions_safe_witness:
  "\<exists>M. sess {#} (calls (health_update True (IP 10 0 0 1) (IP 192 168 5 2) (ping_good 7) (ping_good 8)
     health_demo)) = Some M \<and> size M \<le> 2"
proof -
  have "reach health_init health_step health_demo"
    by (rule reach_init) (simp add: health_init_def health_demo_def)
  then have "reach health_init health_step (health_update True (IP 10 0 0 1) (IP 192 168 5 2)
      (ping_good 7) (ping_good 8) health_demo)"
    by (rule reach_step) (rule hs_update)
  from ping_sessions_safe [OF this] show ?thesis by blast
qed

section \<open>Rounds\<close>

lemma streak_inc: "unat (if x < 255 then x + 1 else x) = min 255 (unat x + 1)" for x :: u8
proof (cases "x < 255")
  case True
  then have "unat x < 255" by (simp add: word_less_nat_alt)
  then have "unat (x + 1) = unat x + 1" by (simp add: unat_word_ariths)
  with True \<open>unat x < 255\<close> show ?thesis by simp
next
  case False
  then have "255 \<le> unat x" by (simp add: word_less_nat_alt)
  with False unat_lt2p_8 [of x] show ?thesis by simp
qed

lemma round_keeps:
  "presult (g_up (health_round gw cl au ad s)) = presult (g_up s)"
  "presult (g_down (health_round gw cl au ad s)) = presult (g_down s)"
  "failStreak (g_up (health_round gw cl au ad s)) = failStreak (g_up s)"
  "failStreak (g_down (health_round gw cl au ad s)) = failStreak (g_down s)"
  "everOk (g_up (health_round gw cl au ad s)) = everOk (g_up s)"
  "everOk (g_down (health_round gw cl au ad s)) = everOk (g_down s)"
  by (simp_all add: health_round_def Let_def)

text \<open>An update that finds the uplink ready leaves the verdicts of its harvest in place.\<close>

lemma update_keeps:
  "presult (g_up (health_update True gw cl au ad s)) = presult (g_up (harvest slot_up s))"
  "failStreak (g_up (health_update True gw cl au ad s)) = failStreak (g_up (harvest slot_up s))"
  "everOk (g_up (health_update u gw cl au ad s)) = everOk (g_up (harvest slot_up s))"
  "presult (g_down (health_update u gw cl au ad s)) = presult (g_down (harvest slot_down (harvest slot_up s)))"
  "failStreak (g_down (health_update u gw cl au ad s)) = failStreak (g_down (harvest slot_down (harvest slot_up s)))"
  "everOk (g_down (health_update u gw cl au ad s)) = everOk (g_down (harvest slot_down (harvest slot_up s)))"
  by (simp_all add: health_update_def Let_def round_keeps)

lemma update_down:
  "presult (g_up (health_update False gw cl au ad s)) = Unknown"
  "failStreak (g_up (health_update False gw cl au ad s)) = 0"
  "calls (health_update False gw cl au ad s) = calls (harvest slot_down (harvest slot_up s))"
  by (simp_all add: health_update_def Let_def)

text \<open>A round is due: none is running and a minute has passed since the last one began.\<close>

definition round_due :: "'a healths_scheme \<Rightarrow> bool" where
  "round_due s \<longleftrightarrow> \<not> running (g_up s) \<and> \<not> running (g_down s) \<and>
     (g_lastRoundMs s = 0 \<or> \<not> clock s (tick s) - g_lastRoundMs s < kRoundIntervalMs)"

lemma update_due:
  assumes "round_due s"
  shows "\<exists>n. health_update True gw cl au ad s = health_round gw cl au ad (s\<lparr>tick := n\<rparr>)"
proof -
  have "harvest slot_up s = s" "harvest slot_down s = s"
    using assms up.harvest_pending [of s] down.harvest_pending [of s] by (auto simp: round_due_def)
  then have "health_update True gw cl au ad s
      = health_round gw cl au ad (s\<lparr>tick := if g_lastRoundMs s = 0 then tick s else Suc (tick s)\<rparr>)"
    using assms by (auto simp: health_update_def round_due_def Let_def)
  then show ?thesis by blast
qed

lemma onPingSuccess_run:
  "g_up ((onPingSuccess slot_up ^^ n) s) = (g_up s)\<lparr>replies := replies (g_up s) + of_nat n\<rparr>"
  by (induction n) (simp_all add: onPingSuccess_def Let_def add_ac)

lemma probe_round:
  fixes s v :: "'a healths_scheme" and n h :: nat and gw cl gw' cl' :: ipaddr
    and au ad au' ad' :: ping_ans
  defines "s1 \<equiv> health_update True gw cl au ad s"
  defines "s2 \<equiv> onPingEnd slot_up ((onPingSuccess slot_up ^^ n) s1)"
  defines "s3 \<equiv> health_update True gw' cl' au' ad' v"
  assumes "round_due s" and "gw \<noteq> ip_unset" and "new_handle au = Some h" and "start_ok au"
    and "n < 2 ^ 32" and "g_up v = g_up s2"
  shows "upstream s3 = (if 0 < n then Ok else Failed) \<and>
    unat (upstreamFailStreak s3) = (if 0 < n then 0 else min 255 (unat (upstreamFailStreak s) + 1)) \<and>
    upstreamEverOk s3 = (upstreamEverOk s \<or> 0 < n)"
proof -
  obtain k where s1: "s1 = health_round gw cl au ad (s\<lparr>tick := k\<rparr>)"
    using update_due [OF assms(4)] s1_def by blast
  have idle: "\<not> running (g_up s)" "\<not> running (g_down s)"
    using assms(4) by (auto simp: round_due_def)
  have up1: "running (g_up s1)" "replies (g_up s1) = 0"
    using idle assms(5)
    by (simp_all add: s1 health_round_def Let_def up.startProbe_started(1,3) [OF _ assms(6,7), simplified])
  have kept: "failStreak (g_up s1) = failStreak (g_up s)" "everOk (g_up s1) = everOk (g_up s)"
    by (simp_all add: s1 round_keeps)
  have up2: "g_up s2 = (g_up s1)\<lparr>replies := of_nat n, finished := True\<rparr>"
    using up1 by (simp add: s2_def onPingEnd_def Let_def onPingSuccess_run)
  have n: "(of_nat n :: u32) > 0 \<longleftrightarrow> 0 < n"
    using assms(8) by (simp add: word_less_nat_alt unat_of_nat take_bit_nat_eq_self)
  have "failStreak (g_up s3) = (if 0 < n then 0
      else if failStreak (g_up s) < 255 then failStreak (g_up s) + 1 else failStreak (g_up s))"
    and "presult (g_up s3) = (if 0 < n then Ok else Failed)"
    and "everOk (g_up s3) = (everOk (g_up s) \<or> 0 < n)"
    using up1 kept n by (simp_all add: assms(9) up2 s3_def update_keeps up.harvest_verdict [simplified])
  then show ?thesis
    using streak_inc [of "failStreak (g_up s)"]
    by (simp add: upstream_def upstreamFailStreak_def upstreamEverOk_def)
qed

text \<open>C26. A whole round towards the gateway: when it is due and the session starts, and then
  \<open>n\<close> replies arrive before the session ends, the next update calls the direction healthy
  exactly if there was a reply; a failure adds one to the streak (which stops at 255), a
  success clears it and is remembered for good.\<close>

theorem probe_round_verdict:
  fixes s :: "'a healths_scheme" and n h :: nat and gw cl gw' cl' :: ipaddr
    and au ad au' ad' :: ping_ans
  defines "s1 \<equiv> health_update True gw cl au ad s"
  defines "s2 \<equiv> onPingEnd slot_up ((onPingSuccess slot_up ^^ n) s1)"
  defines "s3 \<equiv> health_update True gw' cl' au' ad' s2"
  assumes "round_due s" and "gw \<noteq> ip_unset" and "new_handle au = Some h" and "start_ok au"
    and "n < 2 ^ 32"
  shows "upstream s3 = (if 0 < n then Ok else Failed) \<and>
    unat (upstreamFailStreak s3) = (if 0 < n then 0 else min 255 (unat (upstreamFailStreak s) + 1)) \<and>
    upstreamEverOk s3 = (upstreamEverOk s \<or> 0 < n)"
  unfolding s3_def by (rule probe_round [OF assms(4-8)]) (simp add: s1_def s2_def)

theorem probe_round_verdict_witness:
  "upstream (health_update True (IP 10 0 0 1) (IP 192 168 5 2) (ping_good 9) (ping_good 10)
     (onPingEnd slot_up ((onPingSuccess slot_up ^^ 2)
       (health_update True (IP 10 0 0 1) (IP 192 168 5 2) (ping_good 7) (ping_good 8) health_demo)))) = Ok"
proof -
  have "round_due health_demo"
    by (simp add: round_due_def health_demo_def init_probe_def)
  from probe_round_verdict [OF this, of "IP 10 0 0 1" "ping_good 7" 7 2] show ?thesis
    by (simp add: ping_good_def)
qed

fun is_new :: "dev_call \<Rightarrow> bool" where
  "is_new (PingNew _ _) = True"
| "is_new _ = False"

lemma harvest_no_new:
  "filter is_new (calls (harvest slot_up s)) = filter is_new (calls s)"
  "filter is_new (calls (harvest slot_down s)) = filter is_new (calls s)"
  using up.harvest_pending [of s] up.harvest_verdict(6) [of s]
    down.harvest_pending [of s] down.harvest_verdict(6) [of s] by fastforce+

text \<open>The probes cost at most one round a minute: until 60 seconds of real time have
  passed since the last round began, updates open no ping session in either direction,
  also when the counter wraps in between.\<close>

theorem probe_rate_limit:
  assumes "real_time T s" and "j \<le> tick s" and "g_lastRoundMs s = clock s j"
    and "g_lastRoundMs s \<noteq> 0" and "T (tick s + 2) - T j < 60000"
  shows "filter is_new (calls (health_update u gw cl au ad s)) = filter is_new (calls s)"
proof -
  let ?h = "harvest slot_down (harvest slot_up s)"
  have k: "tick s \<le> tick ?h" "tick ?h \<le> tick s + 2"
    using harvest_tick(1,2) [of s] harvest_tick(3,4) [of "harvest slot_up s"] by linarith+
  then have le: "T (tick ?h) - T j < 60000"
    using assms(1,5) real_time_mono [of T s "tick ?h" "tick s + 2"] by simp
  have "\<not> kRoundIntervalMs \<le> clock s (tick ?h) - clock s j"
    using real_time_elapsed [of T s j "tick ?h" kRoundIntervalMs] assms(1,2) k le
    by (simp add: kRoundIntervalMs_def)
  then have "clock s (tick ?h) - clock s j < kRoundIntervalMs" by simp
  then show ?thesis
    using assms(3,4) by (simp add: health_update_def Let_def harvest_no_new)
qed

theorem probe_rate_limit_witness:
  "let s = health_update True (IP 10 0 0 1) ip_unset (ping_good 7) (ping_good 8) health_demo
   in filter is_new (calls (health_update True (IP 10 0 0 1) ip_unset (ping_good 9) (ping_good 10) s))
     = filter is_new (calls s)"
proof -
  let ?s = "health_update True (IP 10 0 0 1) ip_unset (ping_good 7) (ping_good 8) health_demo"
  have s: "clock ?s = clock health_demo" "tick ?s = 2" "g_lastRoundMs ?s = 1000"
    by (simp_all add: health_demo_def health_update_def health_round_def harvest_def startProbe_def
      init_probe_def ping_good_def call_def Let_def)
  have "real_time (\<lambda>k. 1000 * k) ?s"
    by (simp add: real_time_def monoI s) (simp add: health_demo_def)
  moreover have "g_lastRoundMs ?s = clock ?s 1" by (simp add: s) (simp add: health_demo_def)
  ultimately show ?thesis
    using probe_rate_limit [of "\<lambda>k. 1000 * k" ?s 1] by (simp add: s)
qed

text \<open>While the uplink is down its verdict is unknown and its streak zero after every
  update, and no session is opened. The downstream verdict is not reset in any such way:
  with no probe in flight an update without a client address leaves it as it was, so a
  client that left is still reported as it was last seen.\<close>

theorem verdicts_without_target:
  assumes "\<not> running (g_down s)"
  shows "upstream (health_update False gw cl au ad s) = Unknown \<and>
   upstreamFailStreak (health_update False gw cl au ad s) = 0 \<and>
   filter is_new (calls (health_update False gw cl au ad s)) = filter is_new (calls s) \<and>
   downstream (health_update u gw ip_unset au ad s) = downstream s \<and>
   downstreamFailStreak (health_update u gw ip_unset au ad s) = downstreamFailStreak s"
proof -
  have "harvest slot_down (harvest slot_up s) = harvest slot_up s"
    using assms by (intro down.harvest_pending) simp
  then show ?thesis
    by (simp add: upstream_def upstreamFailStreak_def downstream_def downstreamFailStreak_def
      update_down update_keeps harvest_no_new)
qed

theorem verdicts_without_target_witness:
  "let s = health_demo\<lparr>g_down := (init_probe [])\<lparr>presult := Failed, failStreak := 3\<rparr>\<rparr>
   in downstream (health_update True (IP 10 0 0 1) ip_unset (ping_good 9) (ping_good 10) s) = Failed"
  using verdicts_without_target
    [of "health_demo\<lparr>g_down := (init_probe [])\<lparr>presult := Failed, failStreak := 3\<rparr>\<rparr>"]
  by (simp add: init_probe_def downstream_def)

end
