(* ===== verification/Net.thy ===== *)
theory Net
  imports Health
begin

text \<open>
  The two interfaces: the SoftAP bring-up of \<^verbatim>\<open>src/net/softap.cpp\<close> and the start of a
  station connection of \<^verbatim>\<open>src/net/uplink.cpp\<close>. Both are straight sequences of framework
  calls whose order matters; the theory states the order, what the DHCP server is left
  with, and that credentials do not reach the log.
\<close>

section \<open>SoftAP\<close>

definition kLeaseMinutes :: u32 where
  "kLeaseMinutes = 7 * 24 * 60"

definition leaseStartFor :: "ipaddr \<Rightarrow> ipaddr" where
  "leaseStartFor ip =
     (let last = (if oct3 ip < 254 then oct3 ip + 1 else oct3 ip - 1)
      in IP (oct0 ip) (oct1 ip) (oct2 ip) last)"

text \<open>
  \<open>netif\<close> says whether the AP has a network interface handle. The debug build logs the names
  of the four results, which the deployed build discards: \<open>dbg\<close> is nothing there.
\<close>

record offer_errs =
  err_dns :: string
  err_opt :: string
  err_start :: string
  err_lease :: string

definition offer_line :: "ipcodec \<Rightarrow> ipaddr \<Rightarrow> offer_errs \<Rightarrow> string" where
  "offer_line C d er =
     ''DNS offer '' @ ip_toString C d @ '': set_dns='' @ err_dns er @ '' option='' @ err_opt er
     @ '' dhcps_start='' @ err_start er @ '' lease='' @ err_lease er
     @ '' ('' @ dec_word kLeaseMinutes @ '' min)''"

definition applyDnsOffer ::
  "ipcodec \<Rightarrow> offer_errs option \<Rightarrow> bool \<Rightarrow> ipaddr \<Rightarrow> 'a healths_scheme \<Rightarrow> 'a healths_scheme" where
  "applyDnsOffer C dbg netif d s =
     (if \<not> netif then s
      else
        let s = call DhcpsStop s;
            s = call (DhcpsSetLease kLeaseMinutes) s;
            s = call (DhcpsSetDns d) s;
            s = call DhcpsSetOffer s;
            s = call DhcpsStart s
        in case dbg of None \<Rightarrow> s | Some er \<Rightarrow> log_at (offer_line C d er) s)"

text \<open>The answers of the four bring-up calls, and the handle for the last step.\<close>

record ap_ans =
  begin_ok :: bool
  config_ok :: bool
  create_ok :: bool
  started_ok :: bool
  has_netif :: bool
  nat_debug :: "offer_errs option"

definition softap_begin :: "ipcodec \<Rightarrow> ap_ans \<Rightarrow> 'a healths_scheme \<Rightarrow> bool \<times> 'a healths_scheme" where
  "softap_begin C a s =
     (let st = cfg s; subnet = IP 255 255 255 0; s = call ApBegin s
      in if \<not> begin_ok a then (False, s)
         else
           let s = call (ApConfig (apIp st) (apIp st) subnet (leaseStartFor (apIp st)) (dns st)) s
           in if \<not> config_ok a then (False, s)
              else
                let s = call (ApCreateWpa2Psk (c_str (apSsid st)) (c_str (apPass st)) 1 0 4 False) s
                in if \<not> create_ok a then (False, s)
                   else
                     let s = call (ApWaitStarted 1000) s
                     in if \<not> started_ok a then (False, s)
                        else (True, applyDnsOffer C (nat_debug a) (has_netif a) (dns st) s))"

section \<open>Station\<close>

definition uplink_begin :: "'a healths_scheme \<Rightarrow> 'a healths_scheme" where
  "uplink_begin s =
     (let s = call (SetAutoReconnect False) s;
          s = call (StaDisconnect False False 0) s;
          st = cfg s;
          s = log_at (''STA target: SSID='' @ [CHR 0x22] @ c_str (uplinkSsid st) @ [CHR 0x22] @ '' (''
                @ dec (length (uplinkSsid st)) @ '' chars) auth=''
                @ (if uplinkEnterprise st then ''WPA2-Enterprise'' else ''WPA2-Personal'')) s
      in if uplinkEnterprise st then
           let s = log_at (''EAP: identity='' @ [CHR 0x22] @ c_str (eapIdentity st) @ [CHR 0x22]
                     @ '' username='' @ [CHR 0x22] @ c_str (eapUsername st) @ [CHR 0x22]
                     @ '' password='' @ dec (length (eapPassword st)) @ '' chars'') s;
               s = call (EapSetIdentity (eapIdentity st) (length (eapIdentity st))) s;
               s = call (EapSetUsername (eapUsername st) (length (eapUsername st))) s;
               s = call (EapSetPassword (eapPassword st) (length (eapPassword st))) s;
               s = call EnterpriseEnable s
           in call (StaBegin (c_str (uplinkSsid st)) None) s
         else call (StaBegin (c_str (uplinkSsid st)) (Some (c_str (uplinkPass st)))) s)"

section \<open>Frames\<close>

lemma cfg_io_frames [simp, frames]:
  "cfg (call c s) = cfg s" "cfg (log_at m s) = cfg s"
  "nvs (call c s) = nvs s" "nvs (log_at m s) = nvs s"
  by (simp_all add: call_def log_at_eq)

section \<open>The DHCP server\<close>

text \<open>
  The part of the DHCP server's state that the bring-up is about, as the source documents
  it: options are ignored while it runs, and bringing the interface up starts it with the
  DNS offer cleared and the default lease.
\<close>

record dhcps =
  dh_running :: bool
  dh_offer :: bool
  dh_lease :: u32
  dh_dns :: ipaddr

fun dhcps_call :: "dev_call \<Rightarrow> dhcps \<Rightarrow> dhcps" where
  "dhcps_call (ApConfig ip gw msk start d) h = h\<lparr>dh_dns := d, dh_offer := True\<rparr>"
| "dhcps_call (ApWaitStarted t) h = h\<lparr>dh_running := True, dh_offer := False, dh_lease := 120\<rparr>"
| "dhcps_call DhcpsStop h = h\<lparr>dh_running := False\<rparr>"
| "dhcps_call DhcpsStart h = h\<lparr>dh_running := True\<rparr>"
| "dhcps_call (DhcpsSetLease m) h = (if dh_running h then h else h\<lparr>dh_lease := m\<rparr>)"
| "dhcps_call (DhcpsSetDns d) h = h\<lparr>dh_dns := d\<rparr>"
| "dhcps_call DhcpsSetOffer h = (if dh_running h then h else h\<lparr>dh_offer := True\<rparr>)"
| "dhcps_call _ h = h"

lemma softap_begin_calls:
  "calls (snd (softap_begin C a s)) = calls s @ [ApBegin] @
     (if begin_ok a then
        [ApConfig (apIp (cfg s)) (apIp (cfg s)) (IP 255 255 255 0) (leaseStartFor (apIp (cfg s))) (dns (cfg s))] @
        (if config_ok a then
           [ApCreateWpa2Psk (c_str (apSsid (cfg s))) (c_str (apPass (cfg s))) 1 0 4 False] @
           (if create_ok a then
              [ApWaitStarted 1000] @
              (if started_ok a \<and> has_netif a then
                 [DhcpsStop, DhcpsSetLease kLeaseMinutes, DhcpsSetDns (dns (cfg s)), DhcpsSetOffer, DhcpsStart]
               else [])
            else [])
         else [])
      else [])"
  by (simp add: softap_begin_def applyDnsOffer_def Let_def split: option.split)

lemma softap_begin_result:
  "fst (softap_begin C a s) \<longleftrightarrow> begin_ok a \<and> config_ok a \<and> create_ok a \<and> started_ok a"
  by (simp add: softap_begin_def Let_def)

section \<open>The lease pool\<close>

text \<open>The addresses of the /24 that a host may have.\<close>

definition hosts :: "ipaddr \<Rightarrow> ipaddr set" where
  "hosts ip = {IP (oct0 ip) (oct1 ip) (oct2 ip) 1 .. IP (oct0 ip) (oct1 ip) (oct2 ip) 254}"

text \<open>The \<open>n\<close> addresses the DHCP server hands out from the lease start on.\<close>

definition lease_pool :: "nat \<Rightarrow> ipaddr \<Rightarrow> ipaddr set" where
  "lease_pool n ip = {x. leaseStartFor ip \<le> x \<and> ip_nat x < ip_nat (leaseStartFor ip) + n}"

definition prefix24 :: "ipaddr \<Rightarrow> nat" where
  "prefix24 ip = 256 * (256 * unat (oct0 ip) + unat (oct1 ip)) + unat (oct2 ip)"

lemma ip_nat_prefix: "ip_nat ip = 256 * prefix24 ip + unat (oct3 ip)"
  by (simp add: ip_nat_def prefix24_def)

lemma hosts_iff: "x \<in> hosts ip \<longleftrightarrow> 256 * prefix24 ip < ip_nat x \<and> ip_nat x < 256 * prefix24 ip + 255"
  by (auto simp: hosts_def less_eq_ipaddr_def ip_nat_prefix) (auto simp: prefix24_def)

lemma leaseStartFor_prefix: "prefix24 (leaseStartFor ip) = prefix24 ip"
  by (simp add: prefix24_def leaseStartFor_def Let_def)

lemma leaseStartFor_last:
  "unat (oct3 (leaseStartFor ip)) = (if unat (oct3 ip) < 254 then unat (oct3 ip) + 1 else unat (oct3 ip) - 1)"
proof (cases "unat (oct3 ip) < 254")
  case True
  then show ?thesis by (simp add: leaseStartFor_def Let_def word_less_nat_alt unat_word_ariths)
next
  case False
  then have "oct3 ip \<noteq> 0" by auto
  then have "unat (oct3 ip - 1) = unat (oct3 ip) - 1" by (simp add: unat_minus_one)
  with False show ?thesis by (simp add: leaseStartFor_def Let_def word_less_nat_alt)
qed

text \<open>Every number is an address as long as the first octet does not overflow.\<close>

lemma address_at:
  assumes "m < 256"
  obtains x where "ip_nat x = 256 * prefix24 ip + m"
proof
  show "ip_nat (IP (oct0 ip) (oct1 ip) (oct2 ip) (of_nat m)) = 256 * prefix24 ip + m"
    using assms by (simp add: ip_nat_prefix) (simp add: prefix24_def unat_of_nat)
qed

text \<open>The pool is handed to hosts other than the access point itself only if the last octet
  leaves room for it: the code moves the start of the pool for the highest addresses, but
  not its end.\<close>

lemma lease_pool_fits:
  assumes "0 < n"
  shows "lease_pool n ip \<subseteq> hosts ip - {ip} \<longleftrightarrow> n = 1 \<or> unat (oct3 ip) + n \<le> 254"
    (is "?fits \<longleftrightarrow> ?small")
proof
  let ?l = "unat (oct3 (leaseStartFor ip))"
  have mem: "x \<in> lease_pool n ip \<longleftrightarrow> 256 * prefix24 ip + ?l \<le> ip_nat x \<and> ip_nat x < 256 * prefix24 ip + ?l + n" for x
    by (auto simp: lease_pool_def less_eq_ipaddr_def ip_nat_prefix leaseStartFor_prefix)
  show ?fits if ?small
  proof
    fix x assume "x \<in> lease_pool n ip"
    then have "256 * prefix24 ip + ?l \<le> ip_nat x" "ip_nat x < 256 * prefix24 ip + ?l + n" by (simp_all add: mem)
    moreover have "unat (oct3 ip) < 256" by (rule unat_lt2p_8)
    ultimately show "x \<in> hosts ip - {ip}"
      using that by (auto simp: hosts_iff leaseStartFor_last ip_nat_prefix [of ip] split: if_splits)
  qed
  show ?small if ?fits
  proof (rule ccontr)
    assume big: "\<not> ?small"
    show False
    proof (cases "unat (oct3 ip) < 254")
      case True
      obtain x where x: "ip_nat x = 256 * prefix24 ip + 255" using address_at [of 255] by auto
      then have "x \<in> lease_pool n ip" using big True by (auto simp: mem leaseStartFor_last)
      then show False using that x by (auto simp: hosts_iff)
    next
      case False
      then have "ip \<in> lease_pool n ip" using big assms by (auto simp: mem leaseStartFor_last ip_nat_prefix [of ip])
      then show False using that by auto
    qed
  qed
qed

section \<open>Properties\<close>

text \<open>A successful bring-up leaves the DHCP server running, with a lease of a week and
  the configured DNS server offered, from any state before: the options are set after the
  interface came up and while the server is stopped. A bring-up that fails stops at the
  step that failed.\<close>

theorem softap_dhcp_ready:
  assumes "fst (softap_begin C a s)" and "has_netif a"
  shows "fold dhcps_call (drop (length (calls s)) (calls (snd (softap_begin C a s)))) h
    = \<lparr>dh_running = True, dh_offer = True, dh_lease = 10080, dh_dns = dns (cfg s)\<rparr>"
  using assms by (simp add: softap_begin_result softap_begin_calls kLeaseMinutes_def)

theorem softap_dhcp_ready_witness:
  "let a = \<lparr>begin_ok = True, config_ok = True, create_ok = True, started_ok = True, has_netif = True,
         nat_debug = None\<rparr>
   in dh_offer (fold dhcps_call (drop 0 (calls (snd (softap_begin dotted a health_demo))))
        \<lparr>dh_running = True, dh_offer = False, dh_lease = 120, dh_dns = ip_unset\<rparr>)"
  using softap_dhcp_ready [of dotted "\<lparr>begin_ok = True, config_ok = True, create_ok = True,
      started_ok = True, has_netif = True, nat_debug = None\<rparr>" health_demo]
  by (simp add: softap_begin_result health_demo_def)

text \<open>The first address leased lies in the AP's own /24, is not the AP's address, and is
  neither the network nor the broadcast address, for every AP address that can be
  configured.\<close>

theorem lease_start_usable:
  "oct0 (leaseStartFor ip) = oct0 ip \<and> oct1 (leaseStartFor ip) = oct1 ip \<and>
   oct2 (leaseStartFor ip) = oct2 ip \<and> leaseStartFor ip \<noteq> ip \<and>
   1 \<le> unat (oct3 (leaseStartFor ip)) \<and> unat (oct3 (leaseStartFor ip)) \<le> 254"
proof (cases "oct3 ip < 254")
  case True
  then have "unat (oct3 ip) < 254" by (simp add: word_less_nat_alt)
  then have "unat (oct3 ip + 1) = unat (oct3 ip) + 1" by (simp add: unat_word_ariths)
  with True \<open>unat (oct3 ip) < 254\<close> show ?thesis by (cases ip) (auto simp: leaseStartFor_def)
next
  case False
  then have "254 \<le> unat (oct3 ip)" by (simp add: word_less_nat_alt)
  then have "unat (oct3 ip) = 254 \<or> unat (oct3 ip) = 255"
    using unat_lt2p_8 [of "oct3 ip"] by arith
  then have "oct3 ip = 254 \<or> oct3 ip = 255"
    by (auto simp: word_unat_eq_iff)
  with False show ?thesis by (cases ip) (auto simp: leaseStartFor_def)
qed

text \<open>Every connection attempt first turns the framework's own reconnect off and tears
  down what is in flight; in enterprise mode identity, user name and password are set
  before 802.1X is enabled and before the connection starts, which then carries no
  passphrase; in personal mode no 802.1X call is made.\<close>

theorem uplink_begin_sequence:
  "calls (uplink_begin s) = calls s @ [SetAutoReconnect False, StaDisconnect False False 0] @
     (if uplinkEnterprise (cfg s) then
        [EapSetIdentity (eapIdentity (cfg s)) (length (eapIdentity (cfg s))),
         EapSetUsername (eapUsername (cfg s)) (length (eapUsername (cfg s))),
         EapSetPassword (eapPassword (cfg s)) (length (eapPassword (cfg s))),
         EnterpriseEnable, StaBegin (c_str (uplinkSsid (cfg s))) None]
      else [StaBegin (c_str (uplinkSsid (cfg s))) (Some (c_str (uplinkPass (cfg s))))])"
  by (simp add: uplink_begin_def Let_def)

text \<open>Nothing about the passwords but the length of the 802.1X one reaches the serial
  console or the log ring, which the portal shows: two configurations that differ only in
  the pre-shared key and in the characters of the 802.1X password log the same text.\<close>

theorem uplink_log_hides_passwords:
  fixes s :: "'a healths_scheme" and p q :: string
  assumes "length q = length (eapPassword (cfg s))"
  defines "s' \<equiv> s\<lparr>cfg := (cfg s)\<lparr>uplinkPass := p, eapPassword := q\<rparr>\<rparr>"
  shows "serial (uplink_begin s') = serial (uplink_begin s) \<and>
    log_ring (uplink_begin s') = log_ring (uplink_begin s)"
  using assms by (simp add: uplink_begin_def Let_def log_at_eq)

theorem uplink_log_hides_passwords_witness:
  "serial (uplink_begin (health_demo\<lparr>cfg := (cfg health_demo)\<lparr>uplinkPass := ''other'', eapPassword := ''SECRET''\<rparr>\<rparr>))
     = serial (uplink_begin health_demo)"
  using uplink_log_hides_passwords [of "''SECRET''" health_demo "''other''"]
  by (simp add: health_demo_def loadFromDefaults_def demo_secrets_def)

end
