(* ===== verification/Html.thy ===== *)
theory Html
  imports Net
begin

text \<open>
  The pages of \<^verbatim>\<open>src/web/portal.cpp\<close>: escaping, the page frame, the status and the
  settings page, and the three static pages. Pages are functions of the settings, of the
  firmware state and of what the framework answers (\<open>web_env\<close>), so that what a page can
  reveal is a property of these functions. The theory shows that escaping removes every
  character that could end an attribute or open a tag and loses nothing, and that the
  settings page depends on stored secrets only through their lengths.
\<close>

section \<open>What the framework answers to a request\<close>

datatype wl_status =
    WL_CONNECTED | WL_NO_SSID_AVAIL | WL_CONNECT_FAILED | WL_CONNECTION_LOST
  | WL_DISCONNECTED | WL_IDLE_STATUS | WL_SCAN_COMPLETED | WL_OTHER

text \<open>The answers of the framework while one request is served. Each of its functions is called at
  most once for one answer, but for \<open>WiFi.status()\<close>, which the status page reads twice;
  \<open>sta_list\<close> is the signal strength of each associated station, or nothing when the driver
  reports an error. \<open>loop()\<close> asks some of these again for itself, and gets answers of its own
  (see \<open>loop_env\<close> in theory Router).\<close>

record web_env =
  wl_first :: wl_status
  wl_second :: wl_status
  localIP :: ipaddr
  gatewayIP :: ipaddr
  dnsIP :: ipaddr
  sta_rssi :: int
  stationNum :: u8
  wifi_channel :: int
  sta_list :: "int list option"
  freeHeap :: u32
  minFreeHeap :: u32
  maxAllocHeap :: u32
  randoms :: "nat \<Rightarrow> u32"
  malloc_ok :: bool
  connected :: "nat \<Rightarrow> bool"

section \<open>Escaping\<close>

definition esc_char :: "char \<Rightarrow> string" where
  \<open>esc_char c =
     (if c = CHR ''&'' then ''&amp;''
      else if c = CHR ''<'' then ''&lt;''
      else if c = CHR ''>'' then ''&gt;''
      else if c = CHR 0x22 then ''&quot;''
      else if c = CHR 0x27 then ''&#39;''
      else [c])\<close>

fun htmlEscape :: "string \<Rightarrow> string" where
  "htmlEscape [] = []"
| "htmlEscape (c # cs) = esc_char c @ htmlEscape cs"

section \<open>Page frame\<close>

definition kCss :: string where
  \<open>kCss =
     ''<style>''
     @ ''*{box-sizing:border-box}''
     @ ''body{font-family:system-ui,-apple-system,Segoe UI,Roboto,sans-serif;margin:0;''
     @ ''background:#0f1115;color:#e6e6e6;line-height:1.5}''
     @ ''.wrap{max-width:560px;margin:0 auto;padding:24px 18px 60px}''
     @ ''h1{font-size:20px;margin:8px 0 2px}.sub{color:#8b93a1;font-size:13px;margin:0 0 22px}''
     @ ''h2{font-size:14px;text-transform:uppercase;letter-spacing:.04em;color:#8b93a1;''
     @ ''border-bottom:1px solid #2a2f3a;padding-bottom:6px;margin:26px 0 12px}''
     @ ''label{display:block;font-size:13px;margin:12px 0 4px;color:#c7ccd6}''
     @ ''input,select{width:100%;padding:10px 12px;border:1px solid #2a2f3a;border-radius:8px;''
     @ ''background:#171a21;color:#e6e6e6;font-size:15px}''
     @ ''input:focus,select:focus{outline:none;border-color:#3b82f6}''
     @ ''.hint{font-size:12px;color:#8b93a1;margin:4px 0 0}''
     @ ''button{width:100%;margin-top:22px;padding:12px;border:0;border-radius:8px;''
     @ ''background:#3b82f6;color:#fff;font-size:15px;font-weight:600;cursor:pointer}''
     @ ''button.alt{background:#2a2f3a;margin-top:10px}''
     @ ''.msg{padding:10px 12px;border-radius:8px;margin:0 0 16px;font-size:14px}''
     @ ''.err{background:#3b1d1d;border:1px solid #7f1d1d;color:#fca5a5}''
     @ ''.ok{background:#14321f;border:1px solid #166534;color:#86efac}''
     @ ''.row{display:flex;gap:10px}.row>div{flex:1}''
     @ ''a{color:#60a5fa}''
     @ ''.tabs{display:flex;gap:6px;margin:18px 0 8px}''
     @ ''.tab{flex:1;width:auto;margin-top:0;padding:9px;border:1px solid #2a2f3a;border-radius:8px;''
     @ ''background:#171a21;color:#c7ccd6;font-size:14px;font-weight:500;cursor:pointer}''
     @ ''.tab.active{background:#3b82f6;border-color:#3b82f6;color:#fff}''
     @ ''.pane{display:none}''
     @ ''input[type=range]{padding:0;height:28px}''
     @ ''.big{font-size:22px;font-weight:600}''
     @ ''.kv{display:flex;justify-content:space-between;gap:12px;padding:6px 0;''
     @ ''border-bottom:1px solid #1c212b;font-size:13px}''
     @ ''.kv span{color:#8b93a1}.kv b{font-weight:600;text-align:right;word-break:break-all}''
     @ ''.up{color:#86efac}.down{color:#fca5a5}''
     @ ''pre.log{background:#0a0c10;border:1px solid #2a2f3a;border-radius:8px;padding:12px;''
     @ ''font:12px/1.45 ui-monospace,SFMono-Regular,Consolas,monospace;color:#c7ccd6;''
     @ ''white-space:pre-wrap;word-break:break-word;max-height:62vh;overflow-y:auto;margin:0}''
     @ ''</style>''\<close>

definition pageHead :: "string \<Rightarrow> string" where
  \<open>pageHead title =
     ''<!doctype html><html><head><meta charset=utf-8>''
     @ ''<meta name=viewport content="width=device-width,initial-scale=1"><title>''
     @ title
     @ ''</title>''
     @ kCss
     @ ''</head><body><div class=wrap>''\<close>

definition kPageFoot :: string where
  "kPageFoot = ''</div></body></html>''"

definition login_html :: "string option \<Rightarrow> string" where
  \<open>login_html errMsg =
     pageHead (''SpoolGate '' @ [CHR 0xE2, CHR 0x80, CHR 0x94] @ '' Sign in'')
     @ ''<h1>SpoolGate</h1><p class=sub>Admin sign-in</p>''
     @ (case errMsg of None \<Rightarrow> [] | Some m \<Rightarrow> ''<div class='msg err'>'' @ m @ ''</div>'')
     @ ''<form method=post action=/login>''
     @ ''<label>Username</label><input name=u autocomplete=username autofocus>''
     @ ''<label>Password</label><input name=p type=password autocomplete=current-password>''
     @ ''<button type=submit>Sign in</button></form>''
     @ kPageFoot\<close>

section \<open>Status\<close>

fun staStatusName :: "wl_status \<Rightarrow> string" where
  "staStatusName WL_CONNECTED = ''connected''"
| "staStatusName WL_NO_SSID_AVAIL = ''SSID not found in scan''"
| "staStatusName WL_CONNECT_FAILED = ''connect failed''"
| "staStatusName WL_CONNECTION_LOST = ''connection lost''"
| "staStatusName WL_DISCONNECTED = ''disconnected''"
| "staStatusName WL_IDLE_STATUS = ''idle''"
| "staStatusName WL_SCAN_COMPLETED = ''scan completed''"
| "staStatusName WL_OTHER = ''unknown''"

definition kv :: "string \<Rightarrow> string \<Rightarrow> string option \<Rightarrow> string" where
  \<open>kv k v cls =
     ''<div class=kv><span>'' @ k @ ''</span><b''
     @ (case cls of None \<Rightarrow> [] | Some c \<Rightarrow> '' class='' @ c)
     @ ''>'' @ htmlEscape v @ ''</b></div>''\<close>

definition secretSummary :: "string \<Rightarrow> string" where
  "secretSummary secret =
     (if secret = [] then ''(not set)'' else dec (length secret) @ '' chars stored'')"

definition two_digits :: "nat \<Rightarrow> string" where
  "two_digits n = pad_left 2 (CHR ''0'') (dec n)"

text \<open>\<open>now\<close> is the reading of \<open>millis()\<close>.\<close>

definition uptimeString :: "u32 \<Rightarrow> string" where
  "uptimeString now =
     (let t = unat now div 1000
      in dec (t div 86400) @ ''d '' @ two_digits ((t mod 86400) div 3600) @ '':''
         @ two_digits ((t mod 3600) div 60) @ '':'' @ two_digits (t mod 60))"

definition appendStatus :: "ipcodec \<Rightarrow> web_env \<Rightarrow> u32 \<Rightarrow> 'a healths_scheme \<Rightarrow> string" where
  \<open>appendStatus C e now s =
     (let st = cfg s; up = (wl_first e = WL_CONNECTED);
          warn = (\<lambda>v. if v = [] then Some ''down'' else None);
          show_or_empty = (\<lambda>v. if v = [] then ''(empty)'' else v)
      in ''<h2>Current state</h2>''
         @ kv ''Uplink'' (if up then ''Up'' else ''Down'') (Some (if up then ''up'' else ''down''))
         @ kv ''STA status'' (staStatusName (wl_second e)) None
         @ kv ''SSID in use'' (uplinkSsid st) None
         @ kv ''Security'' (if uplinkEnterprise st then ''WPA2-Enterprise (802.1X)'' else ''WPA2-Personal'') None
         @ (if uplinkEnterprise st then
              kv ''EAP identity'' (show_or_empty (eapIdentity st)) (warn (eapIdentity st))
              @ kv ''EAP username'' (show_or_empty (eapUsername st)) (warn (eapUsername st))
              @ kv ''EAP password'' (secretSummary (eapPassword st)) (warn (eapPassword st))
            else kv ''Password'' (secretSummary (uplinkPass st)) (warn (uplinkPass st)))
         @ (if up then
              kv ''IP address'' (ip_toString C (localIP e)) None
              @ kv ''Gateway'' (ip_toString C (gatewayIP e)) None
              @ kv ''Upstream DNS'' (ip_toString C (dnsIP e)) None
              @ kv ''Signal'' (dec_int (sta_rssi e) @ '' dBm'') None
            else [])
         @ kv ''SoftAP'' (apSsid st @ '' on '' @ ip_toString C (apIp st)) None
         @ kv ''Clients joined'' (dec_word (stationNum e)) None
         @ kv ''NAPT'' (if napt_isEnabled s then ''on'' else ''off'')
             (Some (if napt_isEnabled s then ''up'' else ''down''))
         @ kv ''Uptime'' (uptimeString now) None
         @ kv ''Last reset'' (lastResetReason s) None)\<close>

section \<open>The settings form\<close>

definition form_tabs :: string where
  \<open>form_tabs =
     ''<div class=tabs>''
     @ ''<button type=button class='tab active' data-t=net onclick="showTab('net')">Network</button>''
     @ ''<button type=button class=tab data-t=led onclick="showTab('led')">LED</button>''
     @ ''<button type=button class=tab data-t=adm onclick="showTab('adm')">Admin</button>''
     @ ''</div>''\<close>

definition form_network :: "ipcodec \<Rightarrow> settings \<Rightarrow> string" where
  \<open>form_network C st =
     ''<div class=pane id=pane-net>''
     @ ''<h2>Upstream Wi-Fi (STA)</h2>''
     @ ''<label>SSID</label><input name=uSsid value='' @ [CHR 0x27] @ htmlEscape (uplinkSsid st) @ [CHR 0x27] @ ''>''
     @ ''<label>Security</label><select name=uAuth id=uAuth onchange="tog()">''
     @ (if uplinkEnterprise st
        then ''<option value=personal>WPA2-Personal</option><option value=ent selected>WPA2-Enterprise (802.1X)</option>''
        else ''<option value=personal selected>WPA2-Personal</option><option value=ent>WPA2-Enterprise (802.1X)</option>'')
     @ ''</select>''
     @ ''<div id=personalBox><label>Password</label><input name=uPass type=password placeholder='(unchanged)'></div>''
     @ ''<div id=entBox><label>Identity</label><input name=eapId value='' @ [CHR 0x27] @ htmlEscape (eapIdentity st)
     @ [CHR 0x27] @ ''><label>Username</label><input name=eapUser value='' @ [CHR 0x27] @ htmlEscape (eapUsername st)
     @ [CHR 0x27] @ ''><label>Password</label><input name=eapPass type=password placeholder='(unchanged)'></div>''
     @ ''<h2>Downstream Wi-Fi (SoftAP)</h2>''
     @ ''<label>SSID</label><input name=apSsid value='' @ [CHR 0x27] @ htmlEscape (apSsid st)
     @ [CHR 0x27] @ ''><label>Password</label><input name=apPass type=password placeholder='(unchanged)'>''
     @ ''<p class=hint>Minimum 8 characters. Leave blank to keep the current password.</p>''
     @ ''<h2>Network</h2>''
     @ ''<div class=row><div><label>AP IP address</label><input name=apIp value='' @ [CHR 0x27] @ ip_toString C (apIp st)
     @ [CHR 0x27] @ ''></div><div><label>DNS for clients</label><input name=dns value='' @ [CHR 0x27] @ ip_toString C (dns st)
     @ [CHR 0x27] @ ''></div></div><p class=hint>Clients get a /24 on the AP IP; DNS is handed out via DHCP.</p>''
     @ ''</div>''\<close>

definition form_led :: "settings \<Rightarrow> string" where
  \<open>form_led st =
     ''<div class=pane id=pane-led>''
     @ ''<h2>Status LED</h2>''
     @ ''<label>Brightness</label>''
     @ ''<input type=range name=ledBri min=0 max=255 value='' @ [CHR 0x27]
     @ dec_word (ledBrightness st)
     @ [CHR 0x27] @ '' oninput="document.getElementById('briVal').textContent=''
     @ ''(this.value==0?'Off':Math.round(this.value/255*100)+'%')">''
     @ ''<p class=hint>Level: <span id=briVal class=big></span> &nbsp; 0 turns the LED off entirely.</p>''
     @ ''<p class=hint>Colours: red = upstream down, amber = up/no client, blue = client connected.</p>''
     @ ''</div>''\<close>

definition form_admin :: "settings \<Rightarrow> string" where
  \<open>form_admin st =
     ''<div class=pane id=pane-adm>''
     @ ''<h2>Admin login</h2>''
     @ ''<label>Username</label><input name=admUser value='' @ [CHR 0x27] @ htmlEscape (adminUser st)
     @ [CHR 0x27] @ ''><label>New password</label><input name=admPass type=password placeholder='(unchanged)'>''
     @ ''</div>''\<close>

definition form_code :: string where
  \<open>form_code =
     ''function tog(){var e=document.getElementById('uAuth').value=='ent';''
     @ ''document.getElementById('entBox').style.display=e?'block':'none';''
     @ ''document.getElementById('personalBox').style.display=e?'none':'block';}''
     @ ''function showTab(t){var ps=document.querySelectorAll('.pane');''
     @ ''for(var i=0;i<ps.length;i++)ps[i].style.display='none';''
     @ ''document.getElementById('pane-'+t).style.display='block';''
     @ ''var bs=document.querySelectorAll('.tab');''
     @ ''for(var j=0;j<bs.length;j++)bs[j].classList.toggle('active',bs[j].dataset.t==t);}''
     @ ''tog();showTab('net');''
     @ ''document.getElementById('briVal').textContent=''
     @ ''(document.getElementsByName('ledBri')[0].value==0?'Off':''
     @ ''Math.round(document.getElementsByName('ledBri')[0].value/255*100)+'%');''\<close>

definition form_script :: string where
  \<open>form_script = ''<script>'' @ form_code @ ''</script>''\<close>

definition appendConfigForm :: "ipcodec \<Rightarrow> string option \<Rightarrow> 'a healths_scheme \<Rightarrow> string" where
  \<open>appendConfigForm C msgHtml s =
     (case msgHtml of None \<Rightarrow> [] | Some m \<Rightarrow> m)
     @ form_tabs
     @ ''<form method=post action=/save>''
     @ form_network C (cfg s) @ form_led (cfg s) @ form_admin (cfg s)
     @ ''<button type=submit>Save &amp; reboot</button></form>''
     @ ''<a href=/log><button class=alt type=button>View log</button></a>''
     @ ''<a href=/speed><button class=alt type=button>Speed test</button></a>''
     @ ''<form method=post action=/logout><button class=alt type=submit>Sign out</button></form>''
     @ form_script\<close>

definition config_html :: "ipcodec \<Rightarrow> web_env \<Rightarrow> u32 \<Rightarrow> string option \<Rightarrow> 'a healths_scheme \<Rightarrow> string" where
  \<open>config_html C e now msgHtml s =
     pageHead (''SpoolGate '' @ [CHR 0xE2, CHR 0x80, CHR 0x94] @ '' Settings'')
     @ ''<h1>SpoolGate</h1><p class=sub>Settings</p>''
     @ (case msgHtml of None \<Rightarrow> [] | Some m \<Rightarrow> m)
     @ appendStatus C e now s
     @ appendConfigForm C None s
     @ kPageFoot\<close>

section \<open>Static pages\<close>

definition saved_html :: string where
  \<open>saved_html =
     pageHead (''SpoolGate '' @ [CHR 0xE2, CHR 0x80, CHR 0x94] @ '' Rebooting'')
     @ ''<h1>Settings saved</h1>''
     @ ''<div class='msg ok'>Rebooting to apply. If you changed the SoftAP name or ''
     @ ''password, reconnect to the new network, then browse to the AP IP address.</div>''
     @ kPageFoot\<close>

definition log_script :: string where
  \<open>log_script =
     ''var el=document.getElementById('log'),fo=document.getElementById('follow');''
     @ ''function load(){fetch('/log.txt',{cache:'no-store'}).then(function(r){''
     @ ''if(!r.ok)throw 0;return r.text()}).then(function(t){''
     @ ''if(t===el.textContent)return;el.textContent=t;''
     @ ''if(fo.checked)el.scrollTop=el.scrollHeight;})''
     @ ''.catch(function(){el.textContent+='' @ [CHR 0x27, CHR 0x0A] @ ''[disconnected from router]';});}''
     @ ''load();setInterval(function(){if(fo.checked)load();},3000);''\<close>

definition log_html :: string where
  \<open>log_html =
     pageHead (''SpoolGate '' @ [CHR 0xE2, CHR 0x80, CHR 0x94] @ '' Log'')
     @ ''<h1>SpoolGate</h1><p class=sub>Log</p>''
     @ ''<a href=/><button class=alt type=button>Back to settings</button></a>''
     @ ''<label><input type=checkbox id=follow checked style='width:auto;margin-right:6px'>''
     @ ''Auto-refresh every 3s, pinned to the newest line</label>''
     @ ''<pre class=log id=log>loading...</pre>''
     @ ''<script>'' @ log_script @ ''</script>''
     @ kPageFoot\<close>

definition speed_script :: string where
  \<open>speed_script =
     ''var busy=0;''
     @ ''function row(k,v){return '<div class=kv><span>'+k+'</span><b>'+v+'</b></div>'}''
     @ ''function stat(){''
     @ ''fetch('/stat.json',{cache:'no-store'}).then(function(r){return r.json()}).then(function(d){''
     @ ''var h='' @ [CHR 0x27, CHR 0x27] @ '';''
     @ ''h+=row('Uplink',d.uplink?'up':'down');''
     @ ''h+=row('Channel',d.channel);''
     @ ''h+=row('Uplink signal',d.sta_rssi+' dBm');''
     @ ''h+=row('Clients joined',d.clients);''
     @ ''h+=row('Client signal',d.client_rssi?d.client_rssi+' dBm':'n/a');''
     @ ''h+=row('NAPT',d.napt?'on':'off');''
     @ ''h+=row('Gateway reachable',d.health_up);''
     @ ''h+=row('Client reachable',d.health_down);''
     @ ''h+=row('Free heap',Math.round(d.heap_free/1024)+' KiB');''
     @ ''h+=row('Min free heap since boot',Math.round(d.heap_min/1024)+' KiB');''
     @ ''h+=row('Largest free block',Math.round(d.heap_largest_block/1024)+' KiB');''
     @ ''h+=row('Last run, router side',d.aplink_ms?(d.aplink_bytes/125/d.aplink_ms).toFixed(2)+' Mbit/s':'none yet');''
     @ ''document.getElementById('stat').innerHTML=h;''
     @ ''}).catch(function(){document.getElementById('stat').textContent='unreachable'})}''
     @ ''function run(mb){''
     @ ''if(busy){return}busy=1;''
     @ ''var out=document.getElementById('res');''
     @ ''out.textContent='running '+mb+' MiB'' @ [CHR 0x5C] @ ''u2026';''
     @ ''var t0=0,got=0;''
     @ ''fetch('/speed/down?mb='+mb+'&t='+Date.now(),{cache:'no-store'}).then(function(r){''
     @ ''if(!r.ok){throw new Error('HTTP '+r.status)}''
     @ ''var rd=r.body.getReader();''
     @ ''function pump(){return rd.read().then(function(c){''
     @ ''if(c.done){return}''
     @ ''if(!t0){t0=performance.now()}''
     @ ''got+=c.value.length;''
     @ ''var s=(performance.now()-t0)/1000;''
     @ ''if(s>0.3){out.textContent=(got/125000/s).toFixed(2)+' Mbit/s'}''
     @ ''return pump()})}''
     @ ''return pump()}).then(function(){''
     @ ''var s=(performance.now()-t0)/1000;''
     @ ''out.textContent=(got/125000/s).toFixed(2)+' Mbit/s '' @ [CHR 0x5C] @ ''u2014 '+(got/1048576).toFixed(1)''
     @ ''+' MiB in '+s.toFixed(1)+' s';''
     @ ''}).catch(function(e){out.textContent='failed: '+e.message})''
     @ ''.then(function(){busy=0;stat()})}''
     @ ''stat();''\<close>

definition speed_html :: string where
  \<open>speed_html =
     pageHead (''SpoolGate '' @ [CHR 0xE2, CHR 0x80, CHR 0x94] @ '' Speed test'')
     @ ''<h1>SpoolGate</h1><p class=sub>Downstream link speed test</p>''
     @ ''<a href=/><button class=alt type=button>Back to settings</button></a>''
     @ ''<div class=tabs>''
     @ ''<button type=button class=tab onclick="run(4)">4 MiB</button>''
     @ ''<button type=button class=tab onclick="run(16)">16 MiB</button>''
     @ ''<button type=button class=tab onclick="run(64)">64 MiB</button>''
     @ ''</div>''
     @ ''<p class=big id=res>idle</p>''
     @ ''<p class=hint>One hop only: this router's radio to the device you are ''
     @ ''reading this on. It is the ceiling for the downstream Wi-Fi link, not the ''
     @ ''speed of NAT-routed traffic &mdash; a forwarded packet crosses the same ''
     @ ''radio twice, so routed traffic gets at best about half of this. For the ''
     @ ''end-to-end figure run <code>tools/speedtest.ps1</code> from a laptop ''
     @ ''joined to this network.</p>''
     @ ''<h2>Router state</h2><div id=stat>loading&hellip;</div>''
     @ ''<p class=hint>Min free heap is a low-water mark since boot, so it only ''
     @ ''ever falls. If a run drives it down sharply, the Wi-Fi driver is running ''
     @ ''out of transmit buffers &mdash; that is a throughput ceiling no amount of ''
     @ ''signal will lift.</p>''
     @ ''<script>'' @ speed_script
     @ ''</script>''
     @ kPageFoot\<close>

section \<open>Machine-readable state\<close>

definition clientRssi :: "web_env \<Rightarrow> int" where
  "clientRssi e =
     (case sta_list e of
        None \<Rightarrow> 0
      | Some rs \<Rightarrow> if length rs \<le> 0 then 0
          else fold (\<lambda>r best. if r > best then r else best) rs (- 127))"

definition json_quoted :: "string \<Rightarrow> string" where
  "json_quoted v = [CHR 0x22] @ v @ [CHR 0x22]"

fun healthJson :: "result \<Rightarrow> string" where
  "healthJson Ok = json_quoted ''ok''"
| "healthJson Failed = json_quoted ''fail''"
| "healthJson Unknown = json_quoted ''unknown''"

text \<open>The fields in order; \<open>bytes\<close> and \<open>ms\<close> are the last throughput run.\<close>

definition stat_fields :: "web_env \<Rightarrow> u32 \<Rightarrow> u32 \<Rightarrow> u32 \<Rightarrow> 'a healths_scheme \<Rightarrow> (string \<times> string) list" where
  "stat_fields e now bytes ms s =
     (let up = (wl_first e = WL_CONNECTED)
      in [(''uptime_s'', dec (unat now div 1000)),
          (''uplink'', if up then ''true'' else ''false''),
          (''napt'', if napt_isEnabled s then ''true'' else ''false''),
          (''channel'', dec_int (wifi_channel e)),
          (''sta_rssi'', dec_int (if up then sta_rssi e else 0)),
          (''clients'', dec_word (stationNum e)),
          (''client_rssi'', dec_int (clientRssi e)),
          (''health_up'', healthJson (upstream s)),
          (''health_down'', healthJson (downstream s)),
          (''heap_free'', dec_word (freeHeap e)),
          (''heap_min'', dec_word (minFreeHeap e)),
          (''heap_largest_block'', dec_word (maxAllocHeap e)),
          (''aplink_bytes'', dec_word bytes),
          (''aplink_ms'', dec_word ms)])"

fun json_object :: "bool \<Rightarrow> (string \<times> string) list \<Rightarrow> string" where
  "json_object first [] = ''}''"
| "json_object first ((k, v) # r) =
     (if first then ''{'' else '','') @ json_quoted k @ '':'' @ v @ json_object False r"

definition stat_json :: "web_env \<Rightarrow> u32 \<Rightarrow> u32 \<Rightarrow> u32 \<Rightarrow> 'a healths_scheme \<Rightarrow> string" where
  "stat_json e now bytes ms s = json_object True (stat_fields e now bytes ms s)"

section \<open>Escaping loses nothing\<close>

text \<open>What a browser does with the five references the code emits.\<close>

function unescape :: "string \<Rightarrow> string" where
  "unescape s =
     (case s of
        [] \<Rightarrow> []
      | c # cs \<Rightarrow>
          if prefix ''&amp;'' s then CHR ''&'' # unescape (drop 5 s)
          else if prefix ''&lt;'' s then CHR ''<'' # unescape (drop 4 s)
          else if prefix ''&gt;'' s then CHR ''>'' # unescape (drop 4 s)
          else if prefix ''&quot;'' s then CHR 0x22 # unescape (drop 6 s)
          else if prefix ''&#39;'' s then CHR 0x27 # unescape (drop 5 s)
          else c # unescape cs)"
  by pat_completeness auto
termination
  by (relation "measure length") auto

declare unescape.simps [simp del]

lemma unescape_Nil [simp]: "unescape [] = []"
  by (simp add: unescape.simps)

lemma unescape_entity:
  "unescape (''&amp;'' @ t) = CHR ''&'' # unescape t"
  "unescape (''&lt;'' @ t) = CHR ''<'' # unescape t"
  "unescape (''&gt;'' @ t) = CHR ''>'' # unescape t"
  "unescape (''&quot;'' @ t) = CHR 0x22 # unescape t"
  "unescape (''&#39;'' @ t) = CHR 0x27 # unescape t"
  by (subst unescape.simps; simp)+

lemma unescape_plain: "c \<noteq> CHR ''&'' \<Longrightarrow> unescape (c # t) = c # unescape t"
  by (subst unescape.simps) simp

lemma unescape_esc_char: "unescape (esc_char c @ t) = c # unescape t"
  using unescape_entity [of t] by (auto simp: esc_char_def unescape_plain)

lemma esc_char_safe:
  "x \<in> set (esc_char c) \<Longrightarrow> x \<notin> {CHR ''<'', CHR ''>'', CHR 0x22, CHR 0x27}"
  by (auto simp: esc_char_def split: if_splits)

section \<open>Properties\<close>

text \<open>Escaped text contains no angle bracket and no quote of either kind, so inside a
  quoted attribute or between tags it cannot end the attribute or open a tag; and reading
  the references back gives the original text, so no two values look alike.\<close>

theorem htmlEscape_safe:
  "set (htmlEscape v) \<inter> {CHR ''<'', CHR ''>'', CHR 0x22, CHR 0x27} = {} \<and>
   unescape (htmlEscape v) = v"
proof (induction v)
  case (Cons c cs)
  then show ?case using esc_char_safe [of _ c] by (auto simp: unescape_esc_char)
qed simp

text \<open>C33. The settings page does not reveal a password: two configurations that differ only
  in the uplink passwords, at equal lengths, and in the access point's and the
  administrator's password, at any length, give the same page.\<close>

theorem settings_page_hides_secrets:
  fixes s :: "'a healths_scheme" and p q a b :: string
  assumes "length p = length (uplinkPass (cfg s))" and "length q = length (eapPassword (cfg s))"
  defines "s' \<equiv> s\<lparr>cfg := (cfg s)\<lparr>uplinkPass := p, eapPassword := q, apPass := a, adminPass := b\<rparr>\<rparr>"
  shows "config_html C e now m s' = config_html C e now m s"
proof -
  have "secretSummary p = secretSummary (uplinkPass (cfg s))"
    and "secretSummary q = secretSummary (eapPassword (cfg s))"
    and "p = [] \<longleftrightarrow> uplinkPass (cfg s) = []" and "q = [] \<longleftrightarrow> eapPassword (cfg s) = []"
    using assms by (auto simp: secretSummary_def)
  moreover have "napt_isEnabled s' = napt_isEnabled s" "lastResetReason s' = lastResetReason s"
    by (simp_all add: s'_def napt_isEnabled_def lastResetReason_def)
  moreover have "form_network C (cfg s') = form_network C (cfg s)"
    "form_led (cfg s') = form_led (cfg s)" "form_admin (cfg s') = form_admin (cfg s)"
    by (simp_all add: s'_def form_network_def form_led_def form_admin_def)
  ultimately have "appendStatus C e now s' = appendStatus C e now s"
    and "appendConfigForm C None s' = appendConfigForm C None s"
    by (simp_all add: s'_def appendStatus_def appendConfigForm_def Let_def)
  then show ?thesis by (simp only: config_html_def)
qed

definition web_demo :: web_env where
  "web_demo = \<lparr>wl_first = WL_CONNECTED, wl_second = WL_CONNECTED, localIP = IP 10 0 0 7,
     gatewayIP = IP 10 0 0 1, dnsIP = IP 10 0 0 2, sta_rssi = - 60, stationNum = 1,
     wifi_channel = 6, sta_list = Some [- 70, - 50], freeHeap = 100000, minFreeHeap = 90000,
     maxAllocHeap = 50000, randoms = (\<lambda>k. of_nat (7 * k)), malloc_ok = True, connected = (\<lambda>k. True)\<rparr>"

theorem settings_page_hides_secrets_witness:
  "config_html dotted web_demo 0 None (health_demo\<lparr>cfg := (cfg health_demo)\<lparr>uplinkPass := [],
       eapPassword := ''SECRET'', apPass := ''x'', adminPass := ''y''\<rparr>\<rparr>)
   = config_html dotted web_demo 0 None health_demo"
  by (rule settings_page_hides_secrets)
    (simp_all add: health_demo_def loadFromDefaults_def demo_secrets_def)

text \<open>The state served without a login carries nothing of the configuration at all: it is
  the same for any two configurations.\<close>

theorem stat_json_configuration_free:
  "stat_json e now bytes ms (s\<lparr>cfg := c, nvs := n\<rparr>) = stat_json e now bytes ms s"
proof -
  have "napt_isEnabled (s\<lparr>cfg := c, nvs := n\<rparr>) = napt_isEnabled s"
    "upstream (s\<lparr>cfg := c, nvs := n\<rparr>) = upstream s"
    "downstream (s\<lparr>cfg := c, nvs := n\<rparr>) = downstream s"
    by (simp_all add: napt_isEnabled_def upstream_def downstream_def)
  then show ?thesis by (simp add: stat_json_def stat_fields_def)
qed

text \<open>
  The scripts of the pages, as far as their string literals go: a literal ends with the quote
  it began with, a backslash takes the next character with it, and a line break inside one is
  a syntax error, which makes a browser discard the whole script. (None of the scripts
  contains a comment, a regular expression or a template.)
\<close>

fun js_literals_ok :: "char option \<Rightarrow> string \<Rightarrow> bool" where
  "js_literals_ok q [] \<longleftrightarrow> q = None"
| "js_literals_ok None (c # cs) =
     js_literals_ok (if c = CHR 0x27 \<or> c = CHR 0x22 then Some c else None) cs"
| "js_literals_ok (Some q) [c] \<longleftrightarrow> c = q"
| "js_literals_ok (Some q) (c # d # cs) =
     (if c = q then js_literals_ok None (d # cs)
      else if c = CHR 0x5C then js_literals_ok (Some q) cs
      else if c = LF \<or> c = CR then False
      else js_literals_ok (Some q) (d # cs))"

text \<open>The scripts of the settings page and of the throughput page have well-formed string
  literals. That of the log page does not: the escape meant for the browser is taken by the
  compiler, and the literal is broken by a line feed. So the page cannot run its script and
  stays at its placeholder.\<close>

theorem log_page_script_broken:
  "js_literals_ok None form_code \<and> js_literals_ok None speed_script \<and> \<not> js_literals_ok None log_script"
  by code_simp

text \<open>The client signal reported is the strongest among the associated stations, and 0
  when there is none or the driver cannot tell.\<close>

theorem clientRssi_strongest:
  assumes "sta_list e = Some rs" and "rs \<noteq> []" and "list_all (\<lambda>r. - 127 \<le> r) rs"
  shows "clientRssi e = Max (set rs)"
proof -
  have fold_max: "fold (\<lambda>r best. if r > best then r else best) xs b = Max (insert b (set xs))"
    for xs and b :: int
  proof (induction xs arbitrary: b)
    case (Cons x xs)
    have "Max (insert (max x b) (set xs)) = Max (insert b (insert x (set xs)))"
      by (cases "set xs = {}") (simp_all add: max.assoc max.commute max.left_commute)
    moreover have "fold (\<lambda>r best. if r > best then r else best) (x # xs) b
        = fold (\<lambda>r best. if r > best then r else best) xs (max x b)"
      by (simp add: max_def)
    ultimately show ?case by (simp only: Cons.IH list.set)
  qed simp
  have "- 127 \<le> Max (set rs)"
    using assms(2,3) by (intro Max_ge_iff [THEN iffD2]) (auto simp: list_all_iff neq_Nil_conv)
  then have "Max (insert (- 127) (set rs)) = Max (set rs)"
    using assms(2) by (simp add: Max_insert)
  then show ?thesis using assms(1,2) by (simp add: clientRssi_def fold_max)
qed

theorem clientRssi_strongest_witness: "clientRssi web_demo = - 50"
  using clientRssi_strongest [of web_demo "[- 70, - 50]"] by (simp add: web_demo_def)

end
