(* ===== verification/Portal.thy ===== *)
theory Portal
  imports Html
begin

text \<open>
  The admin portal of \<^verbatim>\<open>src/web/portal.cpp\<close>: access control, sessions, the settings form,
  the throughput test and the routes. A request is what the handlers read of it; a
  response is recorded when it is sent. The web server library, the hardware random
  numbers and the text formats of the framework are parameters (\<open>request\<close>, \<open>web_env\<close>,
  \<open>plat\<close>). The theory shows that nothing is served outside the private /24, that the
  protected routes do nothing without a session, when a session is accepted, and what a
  saved form changes.
\<close>

section \<open>Requests and responses\<close>

datatype http_method = HTTP_GET | HTTP_POST | HTTP_OTHER

record request =
  rq_method :: http_method
  rq_uri :: string
  rq_remote :: ipaddr
  rq_cookie :: "string option"
  rq_arg :: "string \<Rightarrow> string option"

definition arg :: "request \<Rightarrow> string \<Rightarrow> string" where
  "arg rq k = (case rq_arg rq k of Some v \<Rightarrow> v | None \<Rightarrow> [])"

definition hasArg :: "request \<Rightarrow> string \<Rightarrow> bool" where
  "hasArg rq k \<longleftrightarrow> rq_arg rq k \<noteq> None"

record response =
  r_status :: nat
  r_type :: string
  r_headers :: "(string \<times> string) list"
  r_body :: string

record plat =
  codec :: ipcodec
  toInt :: "string \<Rightarrow> int"

record portals = healths +
  g_session :: string
  g_sessionExpiryMs :: u32
  g_rebootAtMs :: u32
  g_speedBytes :: u32
  g_speedMs :: u32
  out_headers :: "(string \<times> string) list"
  sent :: "response list"
  streamed :: "nat list"
  rebooted :: bool

definition kSessionTtlMs :: u32 where
  "kSessionTtlMs = 15 * 60 * 1000"

definition kSpeedBlockBytes :: nat where "kSpeedBlockBytes = 4096"
definition kSpeedDefaultMiB :: int where "kSpeedDefaultMiB = 8"
definition kSpeedMaxMiB :: int where "kSpeedMaxMiB = 64"
definition kSpeedMaxMs :: u32 where "kSpeedMaxMs = 20000"

definition sendHeader :: "string \<Rightarrow> string \<Rightarrow> 'a portals_scheme \<Rightarrow> 'a portals_scheme" where
  "sendHeader k v s = s\<lparr>out_headers := out_headers s @ [(k, v)]\<rparr>"

definition send :: "nat \<Rightarrow> string \<Rightarrow> string \<Rightarrow> 'a portals_scheme \<Rightarrow> 'a portals_scheme" where
  "send code ty body s =
     s\<lparr>sent := sent s @ [\<lparr>r_status = code, r_type = ty, r_headers = out_headers s, r_body = body\<rparr>],
       out_headers := []\<rparr>"

section \<open>Strings\<close>

text \<open>The framework's \<open>indexOf\<close> and \<open>trim\<close>.\<close>

fun indexOf :: "string \<Rightarrow> string \<Rightarrow> nat option" where
  "indexOf pat [] = (if pat = [] then Some 0 else None)"
| "indexOf pat (c # cs) = (if prefix pat (c # cs) then Some 0 else map_option Suc (indexOf pat cs))"

definition is_space :: "char \<Rightarrow> bool" where
  "is_space c \<longleftrightarrow> c \<in> {CHR '' '', CHR 0x09, CHR 0x0A, CHR 0x0B, CHR 0x0C, CHR 0x0D}"

definition trim :: "string \<Rightarrow> string" where
  "trim v = rev (dropWhile is_space (rev (dropWhile is_space v)))"

section \<open>Access control\<close>

definition same_net :: "ipaddr \<Rightarrow> ipaddr \<Rightarrow> bool" where
  "same_net r ap \<longleftrightarrow> oct0 r = oct0 ap \<and> oct1 r = oct1 ap \<and> oct2 r = oct2 ap"

definition fromLan :: "request \<Rightarrow> 'a portals_scheme \<Rightarrow> bool" where
  "fromLan rq s \<longleftrightarrow> same_net (rq_remote rq) (apIp (cfg s))"

definition makeToken :: "(nat \<Rightarrow> u32) \<Rightarrow> string" where
  "makeToken rnd = map (\<lambda>i. ''0123456789abcdef'' ! unat (and (rnd i) 15)) [0..<32]"

text \<open>The token that a \<open>Cookie\<close> header carries, if it names a session.\<close>

definition cookie_token :: "string \<Rightarrow> string option" where
  "cookie_token c =
     (case indexOf ''SESSION='' c of
        None \<Rightarrow> None
      | Some i \<Rightarrow>
          let tok = drop (i + 8) c;
              tok = (case indexOf '';'' tok of Some semi \<Rightarrow> take semi tok | None \<Rightarrow> tok)
          in Some (trim tok))"

definition isAuthed :: "request \<Rightarrow> 'a portals_scheme \<Rightarrow> bool \<times> 'a portals_scheme" where
  "isAuthed rq s =
     (if g_session s = [] then (False, s)
      else
        let (now, s) = millis s
        in if now > g_sessionExpiryMs s then (False, s)
           else case rq_cookie rq of
             None \<Rightarrow> (False, s)
           | Some c \<Rightarrow>
               (case cookie_token c of
                  None \<Rightarrow> (False, s)
                | Some tok \<Rightarrow>
                    if tok \<noteq> g_session s then (False, s)
                    else let (now, s) = millis s
                         in (True, s\<lparr>g_sessionExpiryMs := now + kSessionTtlMs\<rparr>)))"

definition noStore :: "'a portals_scheme \<Rightarrow> 'a portals_scheme" where
  "noStore s =
     sendHeader ''Expires'' ''0''
       (sendHeader ''Pragma'' ''no-cache''
         (sendHeader ''Cache-Control'' ''no-store, no-cache, must-revalidate, max-age=0'' s))"

definition redirect :: "string \<Rightarrow> 'a portals_scheme \<Rightarrow> 'a portals_scheme" where
  "redirect path s = send 302 ''text/plain'' [] (sendHeader ''Location'' path (noStore s))"

definition guard :: "bool \<Rightarrow> request \<Rightarrow> 'a portals_scheme \<Rightarrow> bool \<times> 'a portals_scheme" where
  "guard requireAuth rq s =
     (if \<not> fromLan rq s then
        (False, send 403 ''text/plain''
           ''Forbidden: admin portal is only reachable from the private network.'' s)
      else if requireAuth then
        (let (ok, s) = isAuthed rq s
         in if \<not> ok then (False, redirect ''/login'' s) else (True, s))
      else (True, s))"

section \<open>Handlers\<close>

text \<open>
  Each handler begins with \<open>guard\<close> and returns when it fails; \<open>guarded\<close> is that first line
  and the early return.
\<close>

definition guarded ::
  "bool \<Rightarrow> (request \<Rightarrow> 'a portals_scheme \<Rightarrow> 'a portals_scheme) \<Rightarrow> request \<Rightarrow>
     'a portals_scheme \<Rightarrow> 'a portals_scheme" where
  "guarded requireAuth body rq s = (let (ok, s) = guard requireAuth rq s in if ok then body rq s else s)"

definition sendLogin :: "string option \<Rightarrow> 'a portals_scheme \<Rightarrow> 'a portals_scheme" where
  "sendLogin errMsg s = send 200 ''text/html'' (login_html errMsg) (noStore s)"

definition handleLoginGet :: "request \<Rightarrow> 'a portals_scheme \<Rightarrow> 'a portals_scheme" where
  "handleLoginGet = guarded False
     (\<lambda>rq s. let (ok, s) = isAuthed rq s in if ok then redirect ''/'' s else sendLogin None s)"

definition handleLoginPost :: "web_env \<Rightarrow> request \<Rightarrow> 'a portals_scheme \<Rightarrow> 'a portals_scheme" where
  "handleLoginPost e = guarded False
     (\<lambda>rq s.
        if arg rq ''u'' = adminUser (cfg s) \<and> arg rq ''p'' = adminPass (cfg s) then
          let s = s\<lparr>g_session := makeToken (randoms e)\<rparr>;
              (now, s) = millis s;
              s = s\<lparr>g_sessionExpiryMs := now + kSessionTtlMs\<rparr>;
              s = sendHeader ''Set-Cookie''
                    (''SESSION='' @ g_session s @ ''; Path=/; HttpOnly; SameSite=Strict'') s
          in redirect ''/'' s
        else sendLogin (Some ''Incorrect username or password.'') s)"

definition handleLogout :: "request \<Rightarrow> 'a portals_scheme \<Rightarrow> 'a portals_scheme" where
  "handleLogout = guarded False
     (\<lambda>rq s. redirect ''/login''
        (sendHeader ''Set-Cookie'' ''SESSION=; Path=/; Max-Age=0'' (s\<lparr>g_session := []\<rparr>)))"

definition sendConfig :: "plat \<Rightarrow> web_env \<Rightarrow> string option \<Rightarrow> 'a portals_scheme \<Rightarrow> 'a portals_scheme" where
  "sendConfig P e msgHtml s =
     (let (now, s) = millis s
      in send 200 ''text/html'' (config_html (codec P) e now msgHtml (healths.truncate s)) (noStore s))"

definition handleRoot :: "plat \<Rightarrow> web_env \<Rightarrow> request \<Rightarrow> 'a portals_scheme \<Rightarrow> 'a portals_scheme" where
  "handleRoot P e = guarded True (\<lambda>rq s. sendConfig P e None s)"

text \<open>The validation chain of \<open>handleSave\<close>; \<open>Inr\<close> carries the two parsed addresses.\<close>

definition save_check :: "plat \<Rightarrow> request \<Rightarrow> settings \<Rightarrow> string + (ipaddr \<times> ipaddr)" where
  "save_check P rq st =
     (if trim (arg rq ''uSsid'') = [] then Inl ''Upstream SSID cannot be empty.''
      else if trim (arg rq ''apSsid'') = [] then Inl ''Downstream SSID cannot be empty.''
      else if trim (arg rq ''admUser'') = [] then Inl ''Admin username cannot be empty.''
      else case ip_fromString (codec P) (arg rq ''apIp'') of
        None \<Rightarrow> Inl ''AP IP address is not a valid IPv4 address.''
      | Some a \<Rightarrow>
          (case ip_fromString (codec P) (arg rq ''dns'') of
             None \<Rightarrow> Inl ''DNS address is not a valid IPv4 address.''
           | Some d \<Rightarrow>
               if 0 < length (arg rq ''apPass'') \<and> length (arg rq ''apPass'') < 8 then
                 Inl ''Downstream password must be at least 8 characters.''
               else if arg rq ''uAuth'' = ''ent'' \<and> arg rq ''eapUser'' = [] \<and> eapUsername st = [] then
                 Inl ''802.1X username cannot be empty.''
               else Inr (a, d)))"

definition keep_if_empty :: "string \<Rightarrow> string \<Rightarrow> string" where
  "keep_if_empty v old = (if length v > 0 then v else old)"

definition save_overlay :: "plat \<Rightarrow> request \<Rightarrow> ipaddr \<Rightarrow> ipaddr \<Rightarrow> settings \<Rightarrow> settings" where
  "save_overlay P rq a d st =
     (let bri = toInt P (arg rq ''ledBri'')
      in st\<lparr>uplinkSsid := trim (arg rq ''uSsid''),
            uplinkEnterprise :=
              (if hasArg rq ''uAuth'' then arg rq ''uAuth'' = ''ent'' else uplinkEnterprise st),
            uplinkPass := keep_if_empty (arg rq ''uPass'') (uplinkPass st),
            eapIdentity := keep_if_empty (arg rq ''eapId'') (eapIdentity st),
            eapUsername := keep_if_empty (arg rq ''eapUser'') (eapUsername st),
            eapPassword := keep_if_empty (arg rq ''eapPass'') (eapPassword st),
            apSsid := trim (arg rq ''apSsid''),
            apPass := (if length (arg rq ''apPass'') \<ge> 8 then arg rq ''apPass'' else apPass st),
            apIp := a,
            dns := d,
            ledBrightness := word_of_int (if bri < 0 then 0 else if bri > 255 then 255 else bri),
            adminUser := trim (arg rq ''admUser''),
            adminPass := keep_if_empty (arg rq ''admPass'') (adminPass st)\<rparr>)"

definition err_html :: "string \<Rightarrow> string" where
  \<open>err_html m = ''<div class='msg err'>'' @ m @ ''</div>''\<close>

definition handleSave :: "plat \<Rightarrow> web_env \<Rightarrow> request \<Rightarrow> 'a portals_scheme \<Rightarrow> 'a portals_scheme" where
  "handleSave P e = guarded True
     (\<lambda>rq s.
        case save_check P rq (cfg s) of
          Inl err \<Rightarrow> sendConfig P e (Some (err_html err)) s
        | Inr (a, d) \<Rightarrow>
            let s = s\<lparr>cfg := save_overlay P rq a d (cfg s)\<rparr>;
                s = s\<lparr>nvs := config_save flash_ops (codec P) (cfg s) (nvs s)\<rparr>;
                s = send 200 ''text/html'' saved_html (noStore s);
                (now, s) = millis s
            in s\<lparr>g_rebootAtMs := now + 1500\<rparr>)"

definition handleLogText :: "(nat \<Rightarrow> logbuf) \<Rightarrow> request \<Rightarrow> 'a portals_scheme \<Rightarrow> 'a portals_scheme" where
  "handleLogText ls = guarded True
     (\<lambda>rq s. send 200 ''text/plain'' (render ls []) (noStore s))"

definition handleLog :: "request \<Rightarrow> 'a portals_scheme \<Rightarrow> 'a portals_scheme" where
  "handleLog = guarded True (\<lambda>rq s. send 200 ''text/html'' log_html (noStore s))"

definition handleStatJson :: "web_env \<Rightarrow> request \<Rightarrow> 'a portals_scheme \<Rightarrow> 'a portals_scheme" where
  "handleStatJson e = guarded False
     (\<lambda>rq s. let (now, s) = millis s
        in send 200 ''application/json''
             (stat_json e now (g_speedBytes s) (g_speedMs s) (healths.truncate s)) (noStore s))"

section \<open>Throughput test\<close>

definition speed_mib :: "int \<Rightarrow> int" where
  "speed_mib mb = (if mb \<le> 0 then kSpeedDefaultMiB else if mb > kSpeedMaxMiB then kSpeedMaxMiB else mb)"

definition speed_target :: "int \<Rightarrow> nat" where
  "speed_target mb = nat (speed_mib mb) * 1024 * 1024"

text \<open>
  The loop of \<open>handleSpeedDown\<close>. \<open>i\<close> counts the blocks, which is also the number of the
  question whether the client is still connected; \<open>cnt\<close> is the number of bytes sent. It is
  a natural number: the target is at most 64 MiB, so the code's 32-bit sum does not wrap.
\<close>

function speed_blocks :: "web_env \<Rightarrow> nat \<Rightarrow> u32 \<Rightarrow> nat \<Rightarrow> nat \<Rightarrow> 'a portals_scheme \<Rightarrow> nat \<times> 'a portals_scheme" where
  "speed_blocks e target start i cnt s =
     (if cnt < target then
        (let (now, s) = millis s
         in if now - start < kSpeedMaxMs then
              if \<not> connected e i then (cnt, s)
              else speed_blocks e target start (Suc i) (cnt + kSpeedBlockBytes)
                     (s\<lparr>streamed := streamed s @ [kSpeedBlockBytes]\<rparr>)
            else (cnt, s))
      else (cnt, s))"
  by pat_completeness auto
termination
  by (relation "measure (\<lambda>(e, target, start, i, cnt, s). target - cnt)")
    (auto simp: kSpeedBlockBytes_def)

declare speed_blocks.simps [simp del]

definition handleSpeedDown :: "plat \<Rightarrow> web_env \<Rightarrow> request \<Rightarrow> 'a portals_scheme \<Rightarrow> 'a portals_scheme" where
  "handleSpeedDown P e = guarded True
     (\<lambda>rq s.
        let target = speed_target (toInt P (arg rq ''mb''))
        in if \<not> malloc_ok e then send 503 ''text/plain'' ''Out of memory for the test buffer.'' s
           else
             let s = send 200 ''application/octet-stream'' [] (noStore s);
                 (start, s) = millis s;
                 (cnt, s) = speed_blocks e target start 0 0 s;
                 (now, s) = millis s;
                 elapsed = now - start;
                 s = s\<lparr>streamed := streamed s @ [0]\<rparr>;
                 s = s\<lparr>g_speedBytes := of_nat cnt, g_speedMs := elapsed\<rparr>
             in log_at (''speedtest: AP link sent '' @ dec (cnt div 1024) @ '' KiB in '' @ dec_word elapsed
                  @ '' ms = ''
                  @ dec (if elapsed > 0 then (cnt * 8 div unat elapsed) mod 2 ^ 32 else 0)
                  @ '' kbit/s (client rssi '' @ dec_int (clientRssi e) @ '' dBm)'') s)"

definition handleSpeedPage :: "request \<Rightarrow> 'a portals_scheme \<Rightarrow> 'a portals_scheme" where
  "handleSpeedPage = guarded True (\<lambda>rq s. send 200 ''text/html'' speed_html (noStore s))"

definition handleNotFound :: "request \<Rightarrow> 'a portals_scheme \<Rightarrow> 'a portals_scheme" where
  "handleNotFound rq s =
     (if \<not> fromLan rq s then send 403 ''text/plain'' ''Forbidden'' s
      else let (ok, s) = isAuthed rq s in redirect (if ok then ''/'' else ''/login'') s)"

section \<open>Routes\<close>

datatype endpoint =
    Root | LoginGet | LoginPost | Save | Logout | Log | LogText | SpeedPage | SpeedDown
  | StatJson | NotFound

definition route_table :: "(string \<times> http_method \<times> endpoint) list" where
  "route_table =
     [(''/'', HTTP_GET, Root),
      (''/login'', HTTP_GET, LoginGet),
      (''/login'', HTTP_POST, LoginPost),
      (''/save'', HTTP_POST, Save),
      (''/logout'', HTTP_POST, Logout),
      (''/log'', HTTP_GET, Log),
      (''/log.txt'', HTTP_GET, LogText),
      (''/speed'', HTTP_GET, SpeedPage),
      (''/speed/down'', HTTP_GET, SpeedDown),
      (''/stat.json'', HTTP_GET, StatJson)]"

definition route :: "http_method \<Rightarrow> string \<Rightarrow> endpoint" where
  "route m u = (case find (\<lambda>(p, k, h). p = u \<and> k = m) route_table of
                  Some (p, k, h) \<Rightarrow> h | None \<Rightarrow> NotFound)"

fun handle ::
  "plat \<Rightarrow> web_env \<Rightarrow> (nat \<Rightarrow> logbuf) \<Rightarrow> endpoint \<Rightarrow> request \<Rightarrow> 'a portals_scheme \<Rightarrow> 'a portals_scheme" where
  "handle P e ls Root = handleRoot P e"
| "handle P e ls LoginGet = handleLoginGet"
| "handle P e ls LoginPost = handleLoginPost e"
| "handle P e ls Save = handleSave P e"
| "handle P e ls Logout = handleLogout"
| "handle P e ls Log = handleLog"
| "handle P e ls LogText = handleLogText ls"
| "handle P e ls SpeedPage = handleSpeedPage"
| "handle P e ls SpeedDown = handleSpeedDown P e"
| "handle P e ls StatJson = handleStatJson e"
| "handle P e ls NotFound = handleNotFound"

definition dispatch ::
  "plat \<Rightarrow> web_env \<Rightarrow> (nat \<Rightarrow> logbuf) \<Rightarrow> request \<Rightarrow> 'a portals_scheme \<Rightarrow> 'a portals_scheme" where
  "dispatch P e ls rq s = handle P e ls (route (rq_method rq) (rq_uri rq)) rq s"

text \<open>
  One turn of the portal: at most one request, then the pending reboot. \<open>ESP.restart()\<close> does
  not return; \<open>rebooted\<close> records that it was called, and nothing of the program runs on a
  \<open>halted\<close> board. The supervisor task reboots by the same call.
\<close>

definition portal_loop ::
  "plat \<Rightarrow> web_env \<Rightarrow> (nat \<Rightarrow> logbuf) \<Rightarrow> request option \<Rightarrow> 'a portals_scheme \<Rightarrow> 'a portals_scheme" where
  "portal_loop P e ls rqo s =
     (let s = (case rqo of None \<Rightarrow> s | Some rq \<Rightarrow> dispatch P e ls rq s)
      in if g_rebootAtMs s \<noteq> 0 then
           (let (now, s) = millis s
            in if now > g_rebootAtMs s then (call Restart s)\<lparr>rebooted := True\<rparr> else s)
         else s)"

definition halted :: "'a portals_scheme \<Rightarrow> bool" where
  "halted s \<longleftrightarrow> rebooted s \<or> sup s = SupRebooting"

end
