(* ===== verification/Access.thy ===== *)
theory Access
  imports Portal
begin

text \<open>
  What the portal promises. The contracts of a handler (refuses strangers, does nothing
  without a session, answers exactly once and forbids caching) are locales, met by every
  handler through the one lemma on \<open>guarded\<close>; the properties follow over all routes:
  who may change the configuration, when a session is accepted, what a saved form leaves
  behind, and how long a throughput run can last.
\<close>

section \<open>Sessions\<close>

definition presents :: "request \<Rightarrow> string \<Rightarrow> bool" where
  "presents rq tok \<longleftrightarrow> (case rq_cookie rq of None \<Rightarrow> False | Some c \<Rightarrow> cookie_token c = Some tok)"

definition session_valid :: "request \<Rightarrow> 'a portals_scheme \<Rightarrow> bool" where
  "session_valid rq s \<longleftrightarrow>
     g_session s \<noteq> [] \<and> clock s (tick s) \<le> g_sessionExpiryMs s \<and> presents rq (g_session s)"

lemma isAuthed_eq:
  "isAuthed rq s =
     (session_valid rq s,
      if g_session s = [] then s
      else if session_valid rq s then
        s\<lparr>tick := tick s + 2, g_sessionExpiryMs := clock s (tick s + 1) + kSessionTtlMs\<rparr>
      else s\<lparr>tick := tick s + 1\<rparr>)"
  by (auto simp: isAuthed_def session_valid_def presents_def not_less split: option.splits)

lemma isAuthed_denied:
  assumes "\<not> session_valid rq s"
  shows "\<exists>n. snd (isAuthed rq s) = s\<lparr>tick := n\<rparr>"
proof -
  have "snd (isAuthed rq s) = s\<lparr>tick := tick (snd (isAuthed rq s))\<rparr>"
    using assms by (simp add: isAuthed_eq)
  then show ?thesis ..
qed

lemma isAuthed_frames [simp, frames]:
  "cfg (snd (isAuthed rq s)) = cfg s" "nvs (snd (isAuthed rq s)) = nvs s"
  "g_session (snd (isAuthed rq s)) = g_session s" "clock (snd (isAuthed rq s)) = clock s"
  "sent (snd (isAuthed rq s)) = sent s" "out_headers (snd (isAuthed rq s)) = out_headers s"
  "g_rebootAtMs (snd (isAuthed rq s)) = g_rebootAtMs s" "calls (snd (isAuthed rq s)) = calls s"
  "fst (isAuthed rq s) = session_valid rq s"
  by (simp_all add: isAuthed_eq)

lemmas response_defs = send_def sendHeader_def noStore_def redirect_def sendLogin_def

lemma response_frames [simp, frames]:
  "cfg (send c ty b s) = cfg s" "cfg (noStore s) = cfg s" "cfg (redirect p s) = cfg s"
  "nvs (send c ty b s) = nvs s" "nvs (noStore s) = nvs s" "nvs (redirect p s) = nvs s"
  "g_session (send c ty b s) = g_session s" "g_session (noStore s) = g_session s"
  "g_session (redirect p s) = g_session s"
  "g_rebootAtMs (send c ty b s) = g_rebootAtMs s" "g_rebootAtMs (noStore s) = g_rebootAtMs s"
  "g_rebootAtMs (redirect p s) = g_rebootAtMs s"
  "clock (send c ty b s) = clock s" "clock (noStore s) = clock s" "clock (redirect p s) = clock s"
  "calls (send c ty b s) = calls s" "calls (noStore s) = calls s" "calls (redirect p s) = calls s"
  by (simp_all add: response_defs)

lemma portals_log_frames [simp, frames]:
  "g_session (log_at m s) = g_session s" "g_sessionExpiryMs (log_at m s) = g_sessionExpiryMs s"
  "g_rebootAtMs (log_at m s) = g_rebootAtMs s" "sent (log_at m s) = sent s"
  "out_headers (log_at m s) = out_headers s" "streamed (log_at m s) = streamed s"
  "g_speedBytes (log_at m s) = g_speedBytes s" "g_speedMs (log_at m s) = g_speedMs s"
  by (simp_all add: log_at_eq)

lemma speed_blocks_step:
  "speed_blocks e target start i cnt s =
     (if cnt < target then
        if clock s (tick s) - start < kSpeedMaxMs \<and> connected e i then
          speed_blocks e target start (Suc i) (cnt + kSpeedBlockBytes)
            (s\<lparr>tick := Suc (tick s), streamed := streamed s @ [kSpeedBlockBytes]\<rparr>)
        else (cnt, s\<lparr>tick := Suc (tick s)\<rparr>)
      else (cnt, s))"
  by (subst speed_blocks.simps) simp

lemma speed_blocks_state:
  "\<exists>n k. snd (speed_blocks e target start i cnt s)
      = s\<lparr>tick := n, streamed := streamed s @ replicate k kSpeedBlockBytes\<rparr> \<and>
     fst (speed_blocks e target start i cnt s) = cnt + k * kSpeedBlockBytes"
proof (induction "target - cnt" arbitrary: i cnt s rule: less_induct)
  case less
  show ?case
  proof (cases "cnt < target \<and> clock s (tick s) - start < kSpeedMaxMs \<and> connected e i")
    case True
    let ?s = "s\<lparr>tick := Suc (tick s), streamed := streamed s @ [kSpeedBlockBytes]\<rparr>"
    have "target - (cnt + kSpeedBlockBytes) < target - cnt"
      using True by (auto simp: kSpeedBlockBytes_def)
    from less [OF this, of "Suc i" ?s] obtain n k where
      "snd (speed_blocks e target start (Suc i) (cnt + kSpeedBlockBytes) ?s)
         = s\<lparr>tick := n, streamed := streamed s @ replicate (Suc k) kSpeedBlockBytes\<rparr>"
      "fst (speed_blocks e target start (Suc i) (cnt + kSpeedBlockBytes) ?s)
         = cnt + Suc k * kSpeedBlockBytes"
      by auto
    moreover have "speed_blocks e target start i cnt s
        = speed_blocks e target start (Suc i) (cnt + kSpeedBlockBytes) ?s"
      using True by (subst speed_blocks_step) simp
    ultimately show ?thesis by (intro exI [of _ n] exI [of _ "Suc k"]) simp
  next
    case False
    then have "fst (speed_blocks e target start i cnt s) = cnt + 0 * kSpeedBlockBytes"
      and "snd (speed_blocks e target start i cnt s)
        = s\<lparr>tick := tick (snd (speed_blocks e target start i cnt s)),
             streamed := streamed s @ replicate 0 kSpeedBlockBytes\<rparr>"
      by (subst speed_blocks_step; auto)+
    then show ?thesis by blast
  qed
qed

lemma speed_blocks_frames [simp, frames]:
  fixes s :: "'a portals_scheme"
  shows "cfg (snd (speed_blocks e target start i cnt s)) = cfg s"
    and "nvs (snd (speed_blocks e target start i cnt s)) = nvs s"
    and "g_session (snd (speed_blocks e target start i cnt s)) = g_session s"
    and "g_rebootAtMs (snd (speed_blocks e target start i cnt s)) = g_rebootAtMs s"
    and "sent (snd (speed_blocks e target start i cnt s)) = sent s"
    and "out_headers (snd (speed_blocks e target start i cnt s)) = out_headers s"
    and "calls (snd (speed_blocks e target start i cnt s)) = calls s"
    and "clock (snd (speed_blocks e target start i cnt s)) = clock s"
  using speed_blocks_state [of e target start i cnt s] by auto

section \<open>The contracts of a handler\<close>

locale lan_only =
  fixes h :: "request \<Rightarrow> 'a portals_scheme \<Rightarrow> 'a portals_scheme"
  assumes off_lan: "\<not> fromLan rq s \<Longrightarrow> \<exists>b. h rq s = send 403 ''text/plain'' b s"
begin

lemma refused:
  "\<not> fromLan rq s \<Longrightarrow>
     \<exists>b. h rq s = s\<lparr>sent := sent s @ [\<lparr>r_status = 403, r_type = ''text/plain'',
       r_headers = out_headers s, r_body = b\<rparr>], out_headers := []\<rparr>"
  using off_lan [of rq s] by (auto simp: send_def)

end

locale behind_login = lan_only h for h :: "request \<Rightarrow> 'a portals_scheme \<Rightarrow> 'a portals_scheme" +
  assumes no_session: "fromLan rq s \<Longrightarrow> \<not> session_valid rq s \<Longrightarrow>
      h rq s = redirect ''/login'' (snd (isAuthed rq s))"
begin

lemma sent_to_login:
  "fromLan rq s \<Longrightarrow> \<not> session_valid rq s \<Longrightarrow> \<exists>n. h rq s = redirect ''/login'' (s\<lparr>tick := n\<rparr>)"
  using no_session [of rq s] isAuthed_denied [of rq s] by auto

text \<open>Whatever such a handler does to the state beyond time, the answer and the session's
  expiry, it does for a session from the private network.\<close>

lemma keeps:
  assumes "f (h rq s) \<noteq> f s"
    and send: "\<And>s c ty b. f (send c ty b s) = f s"
    and redirect: "\<And>s p n. f (redirect p (s\<lparr>tick := n\<rparr>)) = f s"
  shows "fromLan rq s \<and> session_valid rq s"
proof (rule ccontr)
  assume "\<not> ?thesis"
  then have "f (h rq s) = f s"
    using off_lan [of rq s] sent_to_login [of rq s]
    by (cases "fromLan rq s") (auto simp: send redirect)
  with assms(1) show False by contradiction
qed

end

text \<open>Exactly one answer, which forbids caching when it is a page or a redirect.\<close>

definition no_store :: "response \<Rightarrow> bool" where
  "no_store r \<longleftrightarrow>
     (''Cache-Control'', ''no-store, no-cache, must-revalidate, max-age=0'') \<in> set (r_headers r)"

definition answered :: "'a portals_scheme \<Rightarrow> 'a portals_scheme \<Rightarrow> bool" where
  "answered s t \<longleftrightarrow> (\<exists>r. sent t = sent s @ [r] \<and> out_headers t = [] \<and>
     (r_status r \<in> {200, 302} \<longrightarrow> no_store r))"

locale answering =
  fixes h :: "request \<Rightarrow> 'a portals_scheme \<Rightarrow> 'a portals_scheme"
  assumes answers: "answered s (h rq s)"
begin

lemma one_more: "length (sent (h rq s)) = Suc (length (sent s))"
  using answers [of s rq] by (auto simp: answered_def)

end

section \<open>Every handler meets them\<close>

lemma guarded_lan: "lan_only (guarded r body)"
  by unfold_locales (auto simp: guarded_def guard_def Let_def)

lemma guarded_login: "behind_login (guarded True body)"
  by (rule behind_login.intro [OF guarded_lan], unfold_locales)
    (simp add: guarded_def guard_def Let_def case_prod_beta)

lemma answered_noStore_send:
  "sent s' = sent s \<Longrightarrow> answered s (send c ty b (noStore s'))"
  by (simp add: answered_def no_store_def response_defs)

lemma answered_redirect:
  "sent s' = sent s \<Longrightarrow> answered s (redirect p s')"
  by (simp add: answered_def no_store_def response_defs)

lemma guarded_answers:
  assumes "\<And>rq s. answered s (body rq s)"
  shows "answering (guarded r body)"
proof
  fix s rq
  have body: "answered s (body rq s')" if "sent s' = sent s" for s'
    using assms [of s' rq] by (simp add: answered_def that)
  consider "\<not> fromLan rq s" | "fromLan rq s" "r" "\<not> session_valid rq s"
    | "fromLan rq s" "r \<longrightarrow> session_valid rq s" by blast
  then show "answered s (guarded r body rq s)"
  proof cases
    case 1
    then show ?thesis by (simp add: guarded_def guard_def answered_def send_def)
  next
    case 2
    then show ?thesis
      by (simp add: guarded_def guard_def Let_def case_prod_beta answered_redirect)
  next
    case 3
    then show ?thesis
      by (cases r) (simp_all add: guarded_def guard_def Let_def case_prod_beta body)
  qed
qed

lemmas handler_defs = handleRoot_def handleLoginGet_def handleLoginPost_def handleLogout_def
  handleSave_def handleLogText_def handleLog_def handleStatJson_def handleSpeedDown_def
  handleSpeedPage_def

interpretation root: behind_login "handleRoot P e" for P e
  unfolding handleRoot_def by (rule guarded_login)

interpretation save: behind_login "handleSave P e" for P e
  unfolding handleSave_def by (rule guarded_login)

interpretation log_page: behind_login handleLog
  unfolding handleLog_def by (rule guarded_login)

interpretation log_text: behind_login "handleLogText ls" for ls
  unfolding handleLogText_def by (rule guarded_login)

interpretation speed_page: behind_login handleSpeedPage
  unfolding handleSpeedPage_def by (rule guarded_login)

interpretation speed_down: behind_login "handleSpeedDown P e" for P e
  unfolding handleSpeedDown_def by (rule guarded_login)

interpretation login_get: lan_only handleLoginGet
  unfolding handleLoginGet_def by (rule guarded_lan)

interpretation login_post: lan_only "handleLoginPost e" for e
  unfolding handleLoginPost_def by (rule guarded_lan)

interpretation logout: lan_only handleLogout
  unfolding handleLogout_def by (rule guarded_lan)

interpretation stat: lan_only "handleStatJson e" for e
  unfolding handleStatJson_def by (rule guarded_lan)

interpretation not_found: lan_only handleNotFound
  by unfold_locales (auto simp: handleNotFound_def)

interpretation any: lan_only "handle P e ls r" for P e ls r
  by (cases r) (simp_all add: root.lan_only_axioms save.lan_only_axioms log_page.lan_only_axioms
    log_text.lan_only_axioms speed_page.lan_only_axioms speed_down.lan_only_axioms
    login_get.lan_only_axioms login_post.lan_only_axioms logout.lan_only_axioms stat.lan_only_axioms
    not_found.lan_only_axioms)

definition protected :: "endpoint \<Rightarrow> bool" where
  "protected r \<longleftrightarrow> r \<in> {Root, Save, Log, LogText, SpeedPage, SpeedDown}"

lemma protected_login: "protected r \<Longrightarrow> behind_login (handle P e ls r)"
  by (auto simp: protected_def root.behind_login_axioms save.behind_login_axioms
    log_page.behind_login_axioms log_text.behind_login_axioms speed_page.behind_login_axioms
    speed_down.behind_login_axioms)

lemma sendConfig_answered: "answered s (sendConfig P e m s)"
  by (simp add: sendConfig_def answered_noStore_send)

lemma answers_all: "answering (handle P e ls r)"
proof (cases r)
  case LoginGet
  show ?thesis
    unfolding LoginGet handle.simps handleLoginGet_def
    by (rule guarded_answers)
      (simp add: case_prod_beta answered_redirect sendLogin_def answered_noStore_send)
next
  case LoginPost
  show ?thesis
    unfolding LoginPost handle.simps handleLoginPost_def
    by (rule guarded_answers)
      (simp add: case_prod_beta Let_def answered_redirect sendLogin_def answered_noStore_send sendHeader_def)
next
  case Save
  show ?thesis
    unfolding Save handle.simps handleSave_def
  proof (rule guarded_answers)
    fix rq and s :: "'a portals_scheme"
    show "answered s (case save_check P rq (cfg s) of
          Inl err \<Rightarrow> sendConfig P e (Some (err_html err)) s
        | Inr (a, d) \<Rightarrow>
            let s = s\<lparr>cfg := save_overlay P rq a d (cfg s)\<rparr>;
                s = s\<lparr>nvs := config_save flash_ops (codec P) (cfg s) (nvs s)\<rparr>;
                s = send 200 ''text/html'' saved_html (noStore s);
                (now, s) = millis s
            in s\<lparr>g_rebootAtMs := now + 1500\<rparr>)"
      by (simp add: sendConfig_answered Let_def split: sum.split prod.split)
        (simp add: answered_def no_store_def response_defs)
  qed
next
  case SpeedDown
  show ?thesis
    unfolding SpeedDown handle.simps handleSpeedDown_def
    by (rule guarded_answers)
      (simp add: case_prod_beta Let_def, simp add: answered_def no_store_def response_defs)
next
  case NotFound
  show ?thesis
    unfolding NotFound
    by unfold_locales
      (simp add: handleNotFound_def case_prod_beta answered_redirect,
       simp add: answered_def response_defs)
next
  case Logout
  show ?thesis
    unfolding Logout handle.simps handleLogout_def
    by (rule guarded_answers) (simp add: answered_redirect sendHeader_def)
qed (simp_all add: handler_defs guarded_answers sendConfig_answered answered_noStore_send)

interpretation every: answering "handle P e ls r" for P e ls r
  by (rule answers_all)

section \<open>Effects on configuration and session\<close>

lemma sendConfig_frames [simp, frames]:
  "cfg (sendConfig P e m s) = cfg s" "nvs (sendConfig P e m s) = nvs s"
  "g_session (sendConfig P e m s) = g_session s" "g_rebootAtMs (sendConfig P e m s) = g_rebootAtMs s"
  "calls (sendConfig P e m s) = calls s"
  by (simp_all add: sendConfig_def)

lemma guarded_frame:
  assumes "\<And>s c ty b. f (send c ty b s) = f s" and "\<And>p s. f (redirect p s) = f s"
    and "\<And>rq s. f (snd (isAuthed rq s)) = f s" and "\<And>rq s. f (body rq s) = f s"
  shows "f (guarded r body rq s) = f s"
  using assms by (auto simp: guarded_def guard_def Let_def case_prod_beta)

text \<open>Every handler but the settings form leaves the configuration and the flash alone;
  every handler but login and logout leaves the session token alone.\<close>

lemma config_frame:
  assumes "r \<noteq> Save"
  shows "cfg (handle P e ls r rq s) = cfg s" and "nvs (handle P e ls r rq s) = nvs s"
    and "g_rebootAtMs (handle P e ls r rq s) = g_rebootAtMs s"
  using assms
  by (cases r; simp add: handler_defs handleNotFound_def sendLogin_def sendHeader_def
      guarded_frame case_prod_beta Let_def)+

lemma session_frame:
  assumes "r \<notin> {LoginPost, Logout}"
  shows "g_session (handle P e ls r rq s) = g_session s"
  using assms
  by (cases r; simp add: handler_defs handleNotFound_def sendLogin_def sendHeader_def
      guarded_frame case_prod_beta Let_def split: sum.split prod.split)

lemma clock_frame: "clock (handle P e ls r rq s) = clock s"
  by (cases r; simp add: handler_defs handleNotFound_def sendLogin_def sendHeader_def sendConfig_def
      guarded_frame case_prod_beta Let_def split: sum.split prod.split)

lemma guarded_authed:
  "fromLan rq s \<Longrightarrow> session_valid rq s \<Longrightarrow> guarded True body rq s = body rq (snd (isAuthed rq s))"
  by (simp add: guarded_def guard_def case_prod_beta)

lemma guarded_open:
  "fromLan rq s \<Longrightarrow> guarded False body rq s = body rq s"
  by (simp add: guarded_def guard_def)

lemma handleSave_accepted:
  assumes "fromLan rq s" and "session_valid rq s" and "save_check P rq (cfg s) = Inr (a, d)"
  shows "cfg (handleSave P e rq s) = save_overlay P rq a d (cfg s)"
    and "nvs (handleSave P e rq s)
      = config_save flash_ops (codec P) (save_overlay P rq a d (cfg s)) (nvs s)"
    and "g_rebootAtMs (handleSave P e rq s) = clock s (tick s + 2) + 1500"
    and "tick (handleSave P e rq s) = tick s + 3"
  using assms
  by (simp_all add: handleSave_def guarded_authed Let_def)
    (simp_all add: response_defs isAuthed_eq session_valid_def)

lemma handleSave_rejected:
  assumes "fromLan rq s" and "session_valid rq s" and "save_check P rq (cfg s) = Inl err"
  shows "handleSave P e rq s = sendConfig P e (Some (err_html err)) (snd (isAuthed rq s))"
  using assms by (simp add: handleSave_def guarded_authed)

lemma handleSave_refused:
  assumes "\<not> fromLan rq s \<or> \<not> session_valid rq s"
  shows "cfg (handleSave P e rq s) = cfg s" and "nvs (handleSave P e rq s) = nvs s"
    and "g_rebootAtMs (handleSave P e rq s) = g_rebootAtMs s"
  using assms by (auto simp: handleSave_def guarded_def guard_def Let_def case_prod_beta)

lemma handleSave_effect:
  "(cfg (handleSave P e rq s) = cfg s \<and> nvs (handleSave P e rq s) = nvs s \<and>
    g_rebootAtMs (handleSave P e rq s) = g_rebootAtMs s) \<or>
   (fromLan rq s \<and> session_valid rq s \<and> (\<exists>a d k. save_check P rq (cfg s) = Inr (a, d) \<and>
      cfg (handleSave P e rq s) = save_overlay P rq a d (cfg s) \<and>
      nvs (handleSave P e rq s) = config_save flash_ops (codec P) (save_overlay P rq a d (cfg s)) (nvs s) \<and>
      g_rebootAtMs (handleSave P e rq s) = clock s k + 1500))"
proof (cases "fromLan rq s \<and> session_valid rq s")
  case False
  then show ?thesis using handleSave_refused [of rq s P e] by blast
next
  case True
  then show ?thesis
    by (cases "save_check P rq (cfg s)") (auto simp: handleSave_accepted handleSave_rejected)
qed

lemma route_save: "route m u = Save \<longleftrightarrow> m = HTTP_POST \<and> u = ''/save''"
  by (auto simp: route_def route_table_def)

lemma route_session:
  "route m u = LoginPost \<longleftrightarrow> m = HTTP_POST \<and> u = ''/login''"
  "route m u = Logout \<longleftrightarrow> m = HTTP_POST \<and> u = ''/logout''"
  by (auto simp: route_def route_table_def)

lemma login_session:
  "g_session (handleLoginPost e rq s) =
     (if fromLan rq s \<and> arg rq ''u'' = adminUser (cfg s) \<and> arg rq ''p'' = adminPass (cfg s)
      then makeToken (randoms e) else g_session s)"
  by (simp add: handleLoginPost_def guarded_def guard_def sendLogin_def Let_def sendHeader_def)

lemma logout_session:
  "g_session (handleLogout rq s) = (if fromLan rq s then [] else g_session s)"
  by (simp add: handleLogout_def guarded_def guard_def sendHeader_def)

lemma save_overlay_fields [simp]:
  "uplinkSsid (save_overlay P rq a d st) = trim (arg rq ''uSsid'')"
  "uplinkEnterprise (save_overlay P rq a d st)
     = (if hasArg rq ''uAuth'' then arg rq ''uAuth'' = ''ent'' else uplinkEnterprise st)"
  "uplinkPass (save_overlay P rq a d st) = keep_if_empty (arg rq ''uPass'') (uplinkPass st)"
  "eapIdentity (save_overlay P rq a d st) = keep_if_empty (arg rq ''eapId'') (eapIdentity st)"
  "eapUsername (save_overlay P rq a d st) = keep_if_empty (arg rq ''eapUser'') (eapUsername st)"
  "eapPassword (save_overlay P rq a d st) = keep_if_empty (arg rq ''eapPass'') (eapPassword st)"
  "apSsid (save_overlay P rq a d st) = trim (arg rq ''apSsid'')"
  "apPass (save_overlay P rq a d st)
     = (if length (arg rq ''apPass'') \<ge> 8 then arg rq ''apPass'' else apPass st)"
  "apIp (save_overlay P rq a d st) = a"
  "dns (save_overlay P rq a d st) = d"
  "adminUser (save_overlay P rq a d st) = trim (arg rq ''admUser'')"
  "adminPass (save_overlay P rq a d st) = keep_if_empty (arg rq ''admPass'') (adminPass st)"
  by (simp_all add: save_overlay_def Let_def)

lemma save_overlay_brightness:
  "unat (ledBrightness (save_overlay P rq a d st))
     = nat (max 0 (min 255 (toInt P (arg rq ''ledBri''))))"
proof -
  have "unat (word_of_int (if z < 0 then 0 else if z > 255 then 255 else z) :: u8)
      = nat (max 0 (min 255 z))" for z :: int
    by (auto simp: unsigned_of_int take_bit_int_eq_self min_def max_def)
  moreover have "ledBrightness (save_overlay P rq a d st) = word_of_int
      (if toInt P (arg rq ''ledBri'') < 0 then 0
       else if toInt P (arg rq ''ledBri'') > 255 then 255 else toInt P (arg rq ''ledBri''))"
    by (simp add: save_overlay_def Let_def)
  ultimately show ?thesis by (simp only:)
qed

section \<open>Examples\<close>

definition portal_demo :: portals where
  "portal_demo = \<lparr>clock = (\<lambda>k. of_nat (1000 * k)), tick = 1, log_ring = init_logbuf,
     serial = [], calls = [], g_brightness = 64, lastWrittenPacked = - 1, g_lastLoopMs = 0,
     g_uplinkDownSinceMs = 0, g_armed = True, g_resetReason = [], sup = SupDelay,
     cfg = loadFromDefaults demo_secrets, nvs = Map.empty, s_enabled = False,
     g_up = init_probe [], g_down = init_probe [], g_lastRoundMs = 0,
     g_session = ''abc'', g_sessionExpiryMs = 900000, g_rebootAtMs = 0, g_speedBytes = 0,
     g_speedMs = 0, out_headers = [], sent = [], streamed = [], rebooted = False\<rparr>"

definition demo_request :: "http_method \<Rightarrow> string \<Rightarrow> (string \<times> string) list \<Rightarrow> request" where
  "demo_request m u args = \<lparr>rq_method = m, rq_uri = u, rq_remote = IP 192 168 5 2,
     rq_cookie = Some ''lang=en; SESSION=abc; theme=1'', rq_arg = map_of args\<rparr>"

definition demo_plat :: plat where
  "demo_plat = \<lparr>codec = dotted, toInt = (\<lambda>v. if v \<noteq> [] \<and> list_all is_digit v then int (undec v) else 0)\<rparr>"

lemma demo_lan [simp]: "fromLan (demo_request m u args) (portal_demo\<lparr>tick := n, g_session := x\<rparr>)"
  by (simp add: fromLan_def same_net_def demo_request_def portal_demo_def loadFromDefaults_def)

lemma demo_lan' [simp]: "fromLan (demo_request m u args) portal_demo"
  by (simp add: fromLan_def same_net_def demo_request_def portal_demo_def loadFromDefaults_def)

lemma demo_cookie: "cookie_token ''lang=en; SESSION=abc; theme=1'' = Some ''abc''"
  by (simp add: cookie_token_def trim_def is_space_def)

lemma demo_session [simp]: "session_valid (demo_request m u args) portal_demo"
  by (simp add: session_valid_def presents_def demo_request_def portal_demo_def demo_cookie)

definition demo_form :: "(string \<times> string) list" where
  "demo_form = [(''uSsid'', ''lab''), (''apSsid'', '' PrinterNet ''), (''admUser'', ''root''),
     (''apIp'', ''10.1.2.1''), (''dns'', ''9.9.9.9''), (''ledBri'', ''300'')]"

lemma demo_save_check:
  "save_check demo_plat (demo_request HTTP_POST ''/save'' demo_form) (cfg portal_demo)
     = Inr (IP 10 1 2 1, IP 9 9 9 9)"
  by code_simp

section \<open>Properties: who may do what\<close>

text \<open>C16. A request from outside the access point's /24 gets one answer, a 403, on every
  route, and changes nothing else: not the configuration, not the session, not the clock of
  a pending reboot, and it is not logged.\<close>

theorem portal_lan_only:
  assumes "\<not> fromLan rq s"
  shows "\<exists>b. dispatch P e ls rq s = s\<lparr>sent := sent s @ [\<lparr>r_status = 403, r_type = ''text/plain'',
      r_headers = out_headers s, r_body = b\<rparr>], out_headers := []\<rparr>"
  unfolding dispatch_def using assms by (rule any.refused)

theorem portal_lan_only_witness:
  "sent (dispatch demo_plat web_demo (\<lambda>k. init_logbuf)
     ((demo_request HTTP_GET ''/stat.json'' [])\<lparr>rq_remote := IP 10 0 0 9\<rparr>) portal_demo) \<noteq> []"
proof -
  have "\<not> fromLan ((demo_request HTTP_GET ''/stat.json'' [])\<lparr>rq_remote := IP 10 0 0 9\<rparr>) portal_demo"
    by (simp add: fromLan_def same_net_def demo_request_def portal_demo_def loadFromDefaults_def)
  from portal_lan_only [OF this, of demo_plat web_demo "\<lambda>k. init_logbuf"] show ?thesis by auto
qed

text \<open>C17. The settings page, the settings form, both log routes and both throughput routes do
  nothing without a session: the request is sent to the login page, and apart from that
  answer only time has passed.\<close>

theorem portal_needs_session:
  assumes "protected (route (rq_method rq) (rq_uri rq))"
    and "fromLan rq s" and "\<not> session_valid rq s"
  shows "\<exists>n. dispatch P e ls rq s = redirect ''/login'' (s\<lparr>tick := n\<rparr>)"
  unfolding dispatch_def
  by (rule behind_login.sent_to_login [OF protected_login]) (use assms in auto)

theorem portal_needs_session_witness:
  "\<exists>n. dispatch demo_plat web_demo (\<lambda>k. init_logbuf) (demo_request HTTP_GET ''/log'' [])
     (portal_demo\<lparr>g_session := []\<rparr>) = redirect ''/login'' (portal_demo\<lparr>g_session := [], tick := n\<rparr>)"
  using portal_needs_session [of "demo_request HTTP_GET ''/log'' []" "portal_demo\<lparr>g_session := []\<rparr>"]
  by (simp add: protected_def route_def route_table_def demo_request_def session_valid_def
    fromLan_def same_net_def portal_demo_def loadFromDefaults_def)

text \<open>C18. The configuration, its copy in flash and the reboot timer change only through
  \<^verbatim>\<open>POST /save\<close> from the private network with a valid session and a form that passes every
  check; then the new configuration is the form laid over the old one, and exactly that is
  written to flash.\<close>

theorem config_changes_only_by_save:
  fixes s :: "'a portals_scheme"
  assumes "cfg (dispatch P e ls rq s) \<noteq> cfg s \<or> nvs (dispatch P e ls rq s) \<noteq> nvs s \<or>
     g_rebootAtMs (dispatch P e ls rq s) \<noteq> g_rebootAtMs s"
  shows "rq_method rq = HTTP_POST \<and> rq_uri rq = ''/save'' \<and> fromLan rq s \<and> session_valid rq s \<and>
    (\<exists>a d. save_check P rq (cfg s) = Inr (a, d) \<and>
       cfg (dispatch P e ls rq s) = save_overlay P rq a d (cfg s) \<and>
       nvs (dispatch P e ls rq s)
         = config_save flash_ops (codec P) (save_overlay P rq a d (cfg s)) (nvs s))"
proof (cases "route (rq_method rq) (rq_uri rq) = Save")
  case True
  then have eq: "dispatch P e ls rq s = handleSave P e rq s"
    by (simp only: dispatch_def handle.simps)
  show ?thesis
    using assms handleSave_effect [of P e rq s] True unfolding eq route_save by auto
next
  case False
  then show ?thesis using assms by (simp add: dispatch_def config_frame)
qed

theorem config_changes_only_by_save_witness:
  "let rq = demo_request HTTP_POST ''/save'' demo_form
   in uplinkSsid (cfg (dispatch demo_plat web_demo (\<lambda>k. init_logbuf) rq portal_demo)) = ''lab'' \<and>
      (\<exists>a d. save_check demo_plat rq (cfg portal_demo) = Inr (a, d))"
proof -
  let ?rq = "demo_request HTTP_POST ''/save'' demo_form"
  have "dispatch demo_plat web_demo (\<lambda>k. init_logbuf) ?rq portal_demo
      = handleSave demo_plat web_demo ?rq portal_demo"
    by (simp add: dispatch_def route_def route_table_def demo_request_def)
  moreover have "uplinkSsid (save_overlay demo_plat ?rq (IP 10 1 2 1) (IP 9 9 9 9) (cfg portal_demo)) = ''lab''"
    by (simp add: demo_request_def demo_form_def arg_def trim_def is_space_def)
  moreover have "uplinkSsid (cfg portal_demo) = ''campus''"
    by (simp add: portal_demo_def loadFromDefaults_def demo_secrets_def)
  ultimately have ssid: "uplinkSsid (cfg (dispatch demo_plat web_demo (\<lambda>k. init_logbuf) ?rq portal_demo)) = ''lab''"
    and old: "uplinkSsid (cfg portal_demo) = ''campus''"
    by (simp_all add: handleSave_accepted [OF demo_lan' demo_session demo_save_check])
  have "cfg (dispatch demo_plat web_demo (\<lambda>k. init_logbuf) ?rq portal_demo) \<noteq> cfg portal_demo"
  proof
    assume "cfg (dispatch demo_plat web_demo (\<lambda>k. init_logbuf) ?rq portal_demo) = cfg portal_demo"
    with ssid old show False by simp
  qed
  with ssid show ?thesis
    using config_changes_only_by_save [of demo_plat web_demo "\<lambda>k. init_logbuf" ?rq portal_demo]
    unfolding Let_def by blast
qed

text \<open>C19. The session token changes only by a login from the private network with the
  configured user name and password, which sets a fresh token, or by a logout from there,
  which clears it.\<close>

theorem session_changes_only_by_login:
  fixes s :: "'a portals_scheme"
  assumes "g_session (dispatch P e ls rq s) \<noteq> g_session s"
  shows "fromLan rq s \<and> rq_method rq = HTTP_POST \<and>
    (rq_uri rq = ''/login'' \<and> arg rq ''u'' = adminUser (cfg s) \<and> arg rq ''p'' = adminPass (cfg s) \<and>
       g_session (dispatch P e ls rq s) = makeToken (randoms e) \<or>
     rq_uri rq = ''/logout'' \<and> g_session (dispatch P e ls rq s) = [])"
proof -
  have "route (rq_method rq) (rq_uri rq) \<in> {LoginPost, Logout}"
    using assms session_frame [of "route (rq_method rq) (rq_uri rq)" P e ls rq s]
    unfolding dispatch_def by blast
  then consider "route (rq_method rq) (rq_uri rq) = LoginPost" | "route (rq_method rq) (rq_uri rq) = Logout"
    by blast
  then show ?thesis
  proof cases
    case 1
    with assms show ?thesis
      by (simp add: dispatch_def login_session split: if_splits) (simp add: route_session)
  next
    case 2
    with assms show ?thesis
      by (simp add: dispatch_def logout_session split: if_splits) (simp add: route_session)
  qed
qed

theorem session_changes_only_by_login_witness:
  "arg (demo_request HTTP_POST ''/login'' [(''u'', ''admin''), (''p'', ''change-me'')]) ''u''
     = adminUser (cfg portal_demo)"
proof -
  let ?rq = "demo_request HTTP_POST ''/login'' [(''u'', ''admin''), (''p'', ''change-me'')]"
  let ?s = "portal_demo\<lparr>g_session := []\<rparr>"
  have "adminUser (cfg ?s) = ''admin''" "adminPass (cfg ?s) = ''change-me''"
    by (simp_all add: portal_demo_def loadFromDefaults_def demo_secrets_def)
  moreover have "arg ?rq ''u'' = ''admin''" "arg ?rq ''p'' = ''change-me''"
    by (simp_all add: arg_def demo_request_def)
  moreover have "fromLan ?rq ?s"
    by (simp add: fromLan_def same_net_def demo_request_def portal_demo_def loadFromDefaults_def)
  moreover have "route (rq_method ?rq) (rq_uri ?rq) = LoginPost"
    by (simp add: demo_request_def route_session)
  ultimately have "g_session (dispatch demo_plat web_demo (\<lambda>k. init_logbuf) ?rq ?s)
      = makeToken (randoms web_demo)"
    by (simp add: dispatch_def login_session)
  moreover have "makeToken (randoms web_demo) \<noteq> []" "rq_uri ?rq \<noteq> ''/logout''"
    by (simp_all add: makeToken_def demo_request_def)
  ultimately show ?thesis
    using session_changes_only_by_login [of demo_plat web_demo "\<lambda>k. init_logbuf" ?rq ?s] by simp
qed

text \<open>C37. Every request gets exactly one answer, and a page or a redirect forbids caching it,
  so that a stale settings form cannot be posted back from a cache.\<close>

theorem every_request_answered_once:
  "\<exists>r. sent (dispatch P e ls rq s) = sent s @ [r] \<and> out_headers (dispatch P e ls rq s) = [] \<and>
     (r_status r \<in> {200, 302} \<longrightarrow>
       (''Cache-Control'', ''no-store, no-cache, must-revalidate, max-age=0'') \<in> set (r_headers r))"
  using every.answers by (simp add: answered_def dispatch_def no_store_def)

theorem every_request_answered_once_witness:
  "\<exists>r. sent (dispatch demo_plat web_demo (\<lambda>k. init_logbuf) (demo_request HTTP_GET ''/nothing'' []) portal_demo)
      = sent portal_demo @ [r]"
  using every_request_answered_once [of demo_plat web_demo "\<lambda>k. init_logbuf"
      "demo_request HTTP_GET ''/nothing'' []" portal_demo] by blast

end
