(* ===== verification/Sessions.thy ===== *)
theory Sessions
  imports Access
begin

text \<open>
  The portal over time: which cookie a login hands out and how long the requests that present
  it are served, when the reboot after a saved form happens, what no sequence of requests can
  do to the configuration, and the bounds of a throughput run. The portal compares absolute
  deadlines on the 32-bit clock; the statements in plain time need a deadline and its test to
  lie in the same turn of it, and others show what happens when they do not.
\<close>

section \<open>Tokens and cookies\<close>

definition token_ok :: "string \<Rightarrow> bool" where
  "token_ok t \<longleftrightarrow> length t = 32 \<and> set t \<subseteq> set ''0123456789abcdef''"

lemma hex_char: "''0123456789abcdef'' ! unat (and (x :: u32) 15) \<in> set ''0123456789abcdef''"
proof (rule nth_mem)
  have "and x 15 \<le> (15 :: u32)" by (rule word_and_le1)
  then have "unat (and x 15) \<le> unat (15 :: u32)" by (simp only: word_le_nat_alt)
  then have "unat (and x 15) < 16" by simp
  moreover have "length ''0123456789abcdef'' = 16" by simp
  ultimately show "unat (and x 15) < length ''0123456789abcdef''" by (simp only:)
qed

lemma makeToken_ok: "token_ok (makeToken rnd)"
  unfolding token_ok_def makeToken_def set_map using hex_char by (auto simp del: list.set)






section \<open>Login\<close>

lemma dispatch_route:
  "route (rq_method rq) (rq_uri rq) = r \<Longrightarrow> dispatch P e ls rq s = handle P e ls r rq s"
  by (simp add: dispatch_def)

definition login_ok :: "request \<Rightarrow> 'a portals_scheme \<Rightarrow> bool" where
  "login_ok rq s \<longleftrightarrow> fromLan rq s \<and> rq_method rq = HTTP_POST \<and> rq_uri rq = ''/login'' \<and>
     arg rq ''u'' = adminUser (cfg s) \<and> arg rq ''p'' = adminPass (cfg s)"

definition session_cookie :: "web_env \<Rightarrow> string" where
  "session_cookie e = ''SESSION='' @ makeToken (randoms e)"

lemma login_result:
  assumes "login_ok rq s"
  shows "dispatch P e ls rq s = redirect ''/''
    (sendHeader ''Set-Cookie'' (session_cookie e @ ''; Path=/; HttpOnly; SameSite=Strict'')
      (s\<lparr>g_session := makeToken (randoms e), tick := Suc (tick s),
         g_sessionExpiryMs := clock s (tick s) + kSessionTtlMs\<rparr>))"
proof -
  have "route (rq_method rq) (rq_uri rq) = LoginPost"
    using assms by (simp add: login_ok_def route_session)
  then show ?thesis
    using assms
    by (simp add: dispatch_route login_ok_def session_cookie_def handleLoginPost_def guarded_open Let_def)
qed

lemma word_of_nat_le:
  "(of_nat m :: u32) \<le> of_nat n \<longleftrightarrow> m mod 2 ^ 32 \<le> n mod 2 ^ 32"
  by (simp add: word_le_nat_alt unat_of_nat take_bit_eq_mod)

lemma word_of_nat_less:
  "(of_nat m :: u32) < of_nat n \<longleftrightarrow> m mod 2 ^ 32 < n mod 2 ^ 32"
  by (simp add: word_less_nat_alt unat_of_nat take_bit_eq_mod)

text \<open>Within one turn of the counter its values are ordered like the times.\<close>

lemma same_turn_less:
  fixes t d N :: nat
  assumes "t div N = d div N"
  shows "d mod N < t mod N \<longleftrightarrow> d < t"
proof -
  have "t = t div N * N + t mod N" by simp
  moreover have "d = t div N * N + d mod N" unfolding assms by simp
  ultimately show ?thesis by (metis nat_add_left_cancel_less)
qed

lemma token_nonempty: "makeToken rnd \<noteq> []"
  using makeToken_ok [of rnd] by (auto simp: token_ok_def)
















section \<open>Properties: sessions\<close>


definition login_request :: request where
  "login_request = demo_request HTTP_POST ''/login'' [(''u'', ''admin''), (''p'', ''change-me'')]"

lemma login_demo: "login_ok login_request portal_demo"
proof -
  have "adminUser (cfg portal_demo) = ''admin''" "adminPass (cfg portal_demo) = ''change-me''"
    by (simp_all add: portal_demo_def loadFromDefaults_def demo_secrets_def)
  moreover have "arg login_request ''u'' = ''admin''" "arg login_request ''p'' = ''change-me''"
    by (simp_all add: login_request_def arg_def demo_request_def)
  ultimately show ?thesis
    using demo_lan' by (simp add: login_ok_def login_request_def) (simp add: demo_request_def)
qed

lemma portal_demo_time: "real_time (\<lambda>k. 1000 * k) portal_demo"
  by (simp add: real_time_def portal_demo_def monoI)



text \<open>The expiry is an absolute time on a counter that rolls over every 49.7 days: a login
  in the last 15 minutes before the rollover, with the right password, is refused on every
  request until the counter has rolled over.\<close>

theorem login_before_rollover_locked_out:
  assumes "real_time T s" and "login_ok rq s"
    and "2 ^ 32 \<le> T (tick s) + 900000" and "tick s < k" and "T k < 2 ^ 32"
  shows "\<not> session_valid rq' ((dispatch P e ls rq s)\<lparr>tick := k\<rparr>)"
proof -
  have le: "T (tick s) \<le> T k" using assms(1,4) by (simp add: real_time_mono)
  then have "(T (tick s) + 900000) mod 2 ^ 32 = T (tick s) + 900000 - 2 ^ 32"
    using assms(3,5) by (simp add: mod_if)
  then have "\<not> T k mod 2 ^ 32 \<le> (T (tick s) + 900000) mod 2 ^ 32"
    using le assms(3,5) by simp
  then have "\<not> clock s k \<le> clock s (tick s) + kSessionTtlMs"
    using real_time_clock [OF assms(1)] word_of_nat_le [of "T k" "T (tick s) + 900000"]
    by (simp add: kSessionTtlMs_def)
  then show ?thesis
    by (simp add: session_valid_def login_result [OF assms(2)] response_defs)
qed

theorem login_before_rollover_locked_out_witness:
  "\<not> session_valid (login_request\<lparr>rq_cookie := Some (session_cookie web_demo)\<rparr>)
     ((dispatch demo_plat web_demo (\<lambda>k. init_logbuf) login_request
        (portal_demo\<lparr>clock := (\<lambda>k. of_nat (4294900000 + k))\<rparr>))\<lparr>tick := 2\<rparr>)"
proof -
  have "login_ok login_request (portal_demo\<lparr>clock := (\<lambda>k. of_nat (4294900000 + k))\<rparr>)"
    using login_demo by (simp add: login_ok_def fromLan_def)
  moreover have "real_time (\<lambda>k. 4294900000 + k) (portal_demo\<lparr>clock := (\<lambda>k. of_nat (4294900000 + k))\<rparr>)"
    by (simp add: real_time_def monoI)
  moreover have "tick portal_demo = 1" by (simp add: portal_demo_def)
  ultimately show ?thesis
    using login_before_rollover_locked_out [of "\<lambda>k. 4294900000 + k"
      "portal_demo\<lparr>clock := (\<lambda>k. of_nat (4294900000 + k))\<rparr>" login_request 2] by simp
qed

text \<open>A token is 32 hexadecimal digits and carries 128 of the random bits: two tokens are
  equal exactly when the low four bits of all 32 random words agree.\<close>

theorem token_strength:
  "length (makeToken r) = 32 \<and> set (makeToken r) \<subseteq> set ''0123456789abcdef'' \<and>
   (makeToken r = makeToken r' \<longleftrightarrow> list_all (\<lambda>i. and (r i) 15 = and (r' i) 15) [0..<32])"
proof -
  have bound: "unat (and x 15) < 16" for x :: u32
  proof -
    have "and x 15 \<le> (15 :: u32)" by (rule word_and_le1)
    then have "unat (and x 15) \<le> unat (15 :: u32)" by (simp only: word_le_nat_alt)
    then show ?thesis by simp
  qed
  have "distinct ''0123456789abcdef''" "length ''0123456789abcdef'' = 16" by simp_all
  then have "''0123456789abcdef'' ! unat (and x 15) = ''0123456789abcdef'' ! unat (and y 15)
      \<longleftrightarrow> and x 15 = and y 15" for x y :: u32
    using bound [of x] bound [of y] nth_eq_iff_index_eq word_unat_eq_iff by metis
  then have "makeToken r = makeToken r' \<longleftrightarrow> list_all (\<lambda>i. and (r i) 15 = and (r' i) 15) [0..<32]"
    unfolding makeToken_def map_eq_conv list_all_iff by simp
  then show ?thesis using makeToken_ok [of r] by (simp add: token_ok_def)
qed

section \<open>The saved form\<close>

definition save_accepted :: "plat \<Rightarrow> request \<Rightarrow> 'a portals_scheme \<Rightarrow> ipaddr \<Rightarrow> ipaddr \<Rightarrow> bool" where
  "save_accepted P rq s a d \<longleftrightarrow> rq_method rq = HTTP_POST \<and> rq_uri rq = ''/save'' \<and> fromLan rq s \<and>
     session_valid rq s \<and> save_check P rq (cfg s) = Inr (a, d)"

lemma save_result:
  assumes "save_accepted P rq s a d"
  shows "cfg (dispatch P e ls rq s) = save_overlay P rq a d (cfg s)"
    and "nvs (dispatch P e ls rq s)
      = config_save flash_ops (codec P) (save_overlay P rq a d (cfg s)) (nvs s)"
    and "g_rebootAtMs (dispatch P e ls rq s) = clock s (tick s + 2) + 1500"
    and "clock (dispatch P e ls rq s) = clock s"
proof -
  have "dispatch P e ls rq s = handleSave P e rq s"
    using assms by (subst dispatch_route [where r = Save]) (simp_all add: save_accepted_def route_save)
  moreover have "clock (handleSave P e rq s) = clock s"
    using clock_frame [of P e undefined Save rq s] by simp
  ultimately show "cfg (dispatch P e ls rq s) = save_overlay P rq a d (cfg s)"
    and "nvs (dispatch P e ls rq s)
      = config_save flash_ops (codec P) (save_overlay P rq a d (cfg s)) (nvs s)"
    and "g_rebootAtMs (dispatch P e ls rq s) = clock s (tick s + 2) + 1500"
    and "clock (dispatch P e ls rq s) = clock s"
    using assms by (simp_all add: save_accepted_def handleSave_accepted)
qed

lemma reboot_turn:
  "calls (portal_loop P e ls None s) =
     (if g_rebootAtMs s \<noteq> 0 \<and> g_rebootAtMs s < clock s (tick s) then calls s @ [Restart] else calls s)"
  "nvs (portal_loop P e ls None s) = nvs s"
  by (simp_all add: portal_loop_def Let_def)

section \<open>Properties: saving\<close>

text \<open>C21. A form that is saved reboots the board at the first turn of the loop that comes more
  than 1.5 seconds later, and not before; the boot then loads the form laid over the old
  configuration, each text cut at its first NUL character, whatever secrets that firmware was
  built with. This holds as long as the counter does not roll over between the deadline and
  that turn, and the deadline is not the value 0; see \<open>saved_form_near_rollover\<close>.\<close>

theorem saved_form_takes_effect:
  fixes s :: "'a portals_scheme" and P :: plat and e :: web_env and ls :: "nat \<Rightarrow> logbuf" and rq :: request
  assumes "real_time T s" and "save_accepted P rq s a d" and "ip_codec (codec P)"
  defines "D \<equiv> T (tick s + 2) + 1500"
  assumes "D mod 2 ^ 32 \<noteq> 0" and "T k div 2 ^ 32 = D div 2 ^ 32"
  defines "s1 \<equiv> dispatch P e ls rq s"
  shows "(let s2 = portal_loop P e ls None (s1\<lparr>tick := k\<rparr>)
    in calls s2 = calls s1 @ (if D < T k then [Restart] else []) \<and>
       fst (config_begin flash_ops (codec P) sec (nvs s2)) = stored (save_overlay P rq a d (cfg s)))"
proof -
  have "g_rebootAtMs s1 = of_nat D" "clock s1 k = of_nat (T k)"
    using real_time_clock [OF assms(1)] save_result [OF assms(2)] by (simp_all add: s1_def D_def)
  moreover have "(of_nat D :: u32) \<noteq> 0"
    using assms(5) word_of_nat_le [of D 0] by auto
  moreover have "(of_nat D :: u32) < of_nat (T k) \<longleftrightarrow> D < T k"
    unfolding word_of_nat_less by (rule same_turn_less [OF assms(6)])
  moreover have "config_begin flash_ops (codec P) sec (nvs s1)
      = (stored (save_overlay P rq a d (cfg s)), nvs s1)"
    using assms(3) save_result [OF assms(2), of e ls]
    by (simp add: s1_def config_store_begin_save [OF flash.nvs_store_axioms])
  ultimately show ?thesis
    by (simp add: reboot_turn Let_def del: of_nat_add)
qed

lemma demo_save_accepted:
  "save_accepted demo_plat (demo_request HTTP_POST ''/save'' demo_form) portal_demo
     (IP 10 1 2 1) (IP 9 9 9 9)"
  using demo_save_check by (simp add: save_accepted_def) (simp add: demo_request_def)

theorem saved_form_takes_effect_witness:
  "let s1 = dispatch demo_plat web_demo (\<lambda>k. init_logbuf)
        (demo_request HTTP_POST ''/save'' demo_form) portal_demo;
       s2 = portal_loop demo_plat web_demo (\<lambda>k. init_logbuf) None (s1\<lparr>tick := 5\<rparr>)
   in calls s2 = calls s1 @ [Restart] \<and>
      apSsid (fst (config_begin flash_ops dotted demo_secrets (nvs s2))) = ''PrinterNet''"
proof -
  have "tick portal_demo = 1" "ip_codec (codec demo_plat)" "codec demo_plat = dotted"
    by (simp_all add: portal_demo_def demo_plat_def dotted.ip_codec_axioms)
  moreover have "c_str (trim (arg (demo_request HTTP_POST ''/save'' demo_form) ''apSsid'')) = ''PrinterNet''"
    by (simp add: arg_def demo_request_def demo_form_def trim_def is_space_def)
  ultimately show ?thesis
    using saved_form_takes_effect [OF portal_demo_time demo_save_accepted, of 5 web_demo "\<lambda>k. init_logbuf"
        demo_secrets]
    by (simp add: Let_def stored_def)
qed

text \<open>The reboot deadline is an absolute time too: a form saved in the last 1.5 seconds
  before the counter rolls over reboots at the very next turn, before the answer has had
  time to leave, or, when the deadline falls on the rollover itself, never: the value 0
  means that no reboot is pending.\<close>

theorem saved_form_near_rollover:
  fixes s :: "'a portals_scheme" and P :: plat and e :: web_env and ls :: "nat \<Rightarrow> logbuf" and rq :: request
  assumes "real_time T s" and "save_accepted P rq s a d"
    and "2 ^ 32 \<le> T (tick s + 2) + 1500" and "tick s + 2 \<le> k" and "T k < 2 ^ 32"
  defines "s1 \<equiv> dispatch P e ls rq s"
  shows "calls (portal_loop P e ls None (s1\<lparr>tick := k\<rparr>))
      = (if T (tick s + 2) + 1500 = 2 ^ 32 then calls s1 else calls s1 @ [Restart]) \<and>
    (T (tick s + 2) + 1500 = 2 ^ 32 \<longrightarrow> calls (portal_loop P e ls None (s1\<lparr>tick := n\<rparr>)) = calls s1)"
proof -
  let ?X = "T (tick s + 2) + 1500"
  have le: "T (tick s + 2) \<le> T k" using assms(1,4) by (simp add: real_time_mono)
  have r: "g_rebootAtMs s1 = of_nat ?X" "clock s1 k = of_nat (T k)"
    using real_time_clock [OF assms(1)] save_result [OF assms(2)] by (simp_all add: s1_def)
  have X: "?X mod 2 ^ 32 = ?X - 2 ^ 32" using le assms(3,5) by (simp add: mod_if)
  have "(of_nat ?X :: u32) = 0 \<longleftrightarrow> ?X = 2 ^ 32"
    using word_of_nat_le [of ?X 0] X assms(3) by (auto simp: word_le_nat_alt)
  moreover have "(of_nat ?X :: u32) < of_nat (T k)"
    unfolding word_of_nat_less X using le assms(3,5) by simp
  ultimately show ?thesis
    using r by (auto simp: reboot_turn simp del: of_nat_add)
qed

theorem saved_form_near_rollover_witness:
  "let s = portal_demo\<lparr>clock := (\<lambda>k. of_nat (4294965793 + k)), g_sessionExpiryMs := 4294967000\<rparr>;
       s1 = dispatch demo_plat web_demo (\<lambda>k. init_logbuf)
        (demo_request HTTP_POST ''/save'' demo_form) s
   in calls (portal_loop demo_plat web_demo (\<lambda>k. init_logbuf) None (s1\<lparr>tick := 99999\<rparr>)) = calls s1"
proof -
  let ?s = "portal_demo\<lparr>clock := (\<lambda>k. of_nat (4294965793 + k)), g_sessionExpiryMs := 4294967000\<rparr>"
  let ?rq = "demo_request HTTP_POST ''/save'' demo_form"
  have "save_accepted demo_plat ?rq ?s (IP 10 1 2 1) (IP 9 9 9 9)"
    using demo_save_accepted
    by (simp add: save_accepted_def session_valid_def fromLan_def) (simp add: portal_demo_def)
  moreover have "real_time (\<lambda>k. 4294965793 + k) ?s" by (simp add: real_time_def monoI)
  moreover have "tick portal_demo = 1" by (simp add: portal_demo_def)
  ultimately show ?thesis
    using saved_form_near_rollover [of "\<lambda>k. 4294965793 + k" ?s demo_plat ?rq "IP 10 1 2 1" "IP 9 9 9 9" 3]
    by (simp add: Let_def)
qed

text \<open>What the code itself sees to in a configuration: nothing that the next boot cannot do
  without is blank, and the access point's password is not too short. (That names and
  passwords are not too long for the radio is not checked anywhere; see theory Life.)\<close>

definition cfg_usable :: "settings \<Rightarrow> bool" where
  "cfg_usable st \<longleftrightarrow> uplinkSsid st \<noteq> [] \<and> apSsid st \<noteq> [] \<and> adminUser st \<noteq> [] \<and>
     8 \<le> length (apPass st) \<and> adminPass st \<noteq> [] \<and> (uplinkEnterprise st \<longrightarrow> eapUsername st \<noteq> [])"

text \<open>The part of it that a boot relies on to let the operator in again.\<close>

definition cfg_safe :: "settings \<Rightarrow> bool" where
  "cfg_safe st \<longleftrightarrow> uplinkSsid st \<noteq> [] \<and> apSsid st \<noteq> [] \<and> adminUser st \<noteq> [] \<and>
     8 \<le> length (apPass st) \<and> adminPass st \<noteq> []"

lemma cfg_usable_safe: "cfg_usable st \<longleftrightarrow> cfg_safe st \<and> (uplinkEnterprise st \<longrightarrow> eapUsername st \<noteq> [])"
  by (auto simp: cfg_usable_def cfg_safe_def)

lemma keep_nonempty: "v \<noteq> [] \<or> old \<noteq> [] \<Longrightarrow> keep_if_empty v old \<noteq> []"
  by (auto simp: keep_if_empty_def)

lemma save_check_ok:
  assumes "save_check P rq st = Inr (a, d)"
  shows "trim (arg rq ''uSsid'') \<noteq> []" and "trim (arg rq ''apSsid'') \<noteq> []"
    and "trim (arg rq ''admUser'') \<noteq> []"
    and "arg rq ''apPass'' = [] \<or> 8 \<le> length (arg rq ''apPass'')"
    and "arg rq ''uAuth'' = ''ent'' \<Longrightarrow> arg rq ''eapUser'' \<noteq> [] \<or> eapUsername st \<noteq> []"
    and "ip_fromString (codec P) (arg rq ''apIp'') = Some a"
    and "ip_fromString (codec P) (arg rq ''dns'') = Some d"
  using assms by (auto simp: save_check_def split: if_splits option.splits)

lemma cfg_safe_overlay:
  assumes "cfg_safe st" and "save_check P rq st = Inr (a, d)"
  shows "cfg_safe (save_overlay P rq a d st)"
  using save_check_ok(1-3) [OF assms(2)] assms(1) by (simp add: cfg_safe_def keep_nonempty)

lemma cfg_usable_overlay:
  assumes "cfg_usable st" and "save_check P rq st = Inr (a, d)"
  shows "cfg_usable (save_overlay P rq a d st)"
  using assms save_check_ok(5) [OF assms(2)] cfg_safe_overlay [OF _ assms(2)]
  by (auto simp: cfg_usable_safe keep_nonempty split: if_splits)

text \<open>Any sequence of requests, and time passing between them. No form puts a NUL character into
  the configuration; theory Life shows what happens to one that does.\<close>

inductive portal_step :: "plat \<Rightarrow> 'a portals_scheme \<Rightarrow> 'a portals_scheme \<Rightarrow> bool" for P where
  ps_request: "no_nul (cfg (dispatch P e ls rq s)) \<Longrightarrow> portal_step P s (dispatch P e ls rq s)"
| ps_turn: "no_nul (cfg (portal_loop P e ls rqo s)) \<Longrightarrow> portal_step P s (portal_loop P e ls rqo s)"
| ps_time: "portal_step P s (s\<lparr>tick := tick s + n\<rparr>)"

definition portal_init :: "plat \<Rightarrow> secrets \<Rightarrow> 'a portals_scheme \<Rightarrow> bool" where
  "portal_init P sec s \<longleftrightarrow> g_session s = [] \<and> cfg_usable (cfg s) \<and>
     config_begin flash_ops (codec P) sec (nvs s) = (cfg s, nvs s)"

definition portal_inv :: "plat \<Rightarrow> secrets \<Rightarrow> 'a portals_scheme \<Rightarrow> bool" where
  "portal_inv P sec s \<longleftrightarrow> (ip_codec (codec P) \<longrightarrow>
     (g_session s = [] \<or> token_ok (g_session s)) \<and> cfg_usable (cfg s) \<and>
     config_begin flash_ops (codec P) sec (nvs s) = (cfg s, nvs s))"

text \<open>What a request may do to the configuration: nothing, or a save of its form.\<close>

definition saved_or_same :: "plat \<Rightarrow> 'a portals_scheme \<Rightarrow> 'a portals_scheme \<Rightarrow> bool" where
  "saved_or_same P s t \<longleftrightarrow> cfg t = cfg s \<and> nvs t = nvs s \<or>
     (\<exists>rq a d. save_check P rq (cfg s) = Inr (a, d) \<and> cfg t = save_overlay P rq a d (cfg s) \<and>
        nvs t = config_save flash_ops (codec P) (cfg t) (nvs s))"

lemma dispatch_config:
  fixes s :: "'a portals_scheme"
  shows "saved_or_same P s (dispatch P e ls rq s)"
proof (cases "route (rq_method rq) (rq_uri rq) = Save")
  case True
  then have "dispatch P e ls rq s = handleSave P e rq s" by (simp add: dispatch_route)
  then show ?thesis using handleSave_effect [of P e rq s] unfolding saved_or_same_def by metis
next
  case False
  then show ?thesis by (simp add: saved_or_same_def dispatch_def config_frame)
qed

lemma dispatch_token:
  fixes s :: "'a portals_scheme"
  assumes "g_session s = [] \<or> token_ok (g_session s)"
  shows "g_session (dispatch P e ls rq s) = [] \<or> token_ok (g_session (dispatch P e ls rq s))"
proof -
  have "g_session (dispatch P e ls rq s) \<in> {g_session s, [], makeToken (randoms e)}"
    by (cases "route (rq_method rq) (rq_uri rq) \<in> {LoginPost, Logout}")
      (auto simp: dispatch_route login_session logout_session session_frame dispatch_def)
  then show ?thesis using assms makeToken_ok [of "randoms e"] by auto
qed

lemma portal_inv_saved:
  fixes s t :: "'a portals_scheme"
  assumes "portal_inv P sec s" and "saved_or_same P s t" and "no_nul (cfg t)"
    and "g_session t = [] \<or> token_ok (g_session t)"
  shows "portal_inv P sec t"
  using assms config_store_begin_save [OF flash.nvs_store_axioms, of "codec P" sec "cfg t" "nvs s"]
  by (auto simp: portal_inv_def saved_or_same_def cfg_usable_overlay stored_id [symmetric])

lemma portal_inv_token: "portal_inv P sec s \<Longrightarrow> ip_codec (codec P) \<Longrightarrow> g_session s = [] \<or> token_ok (g_session s)"
  by (simp add: portal_inv_def)

lemma portal_loop_config:
  fixes s :: "'a portals_scheme"
  shows "saved_or_same P s (portal_loop P e ls rqo s)"
  using dispatch_config [of P s e ls]
  by (cases rqo) (simp_all add: saved_or_same_def portal_loop_def Let_def call_def)

lemma portal_loop_token:
  fixes s :: "'a portals_scheme"
  shows "g_session s = [] \<or> token_ok (g_session s) \<Longrightarrow>
    g_session (portal_loop P e ls rqo s) = [] \<or> token_ok (g_session (portal_loop P e ls rqo s))"
  using dispatch_token [of s P e ls]
  by (cases rqo) (simp_all add: portal_loop_def Let_def call_def)

lemma portal_inv_frame:
  "g_session t = g_session s \<Longrightarrow> cfg t = cfg s \<Longrightarrow> nvs t = nvs s \<Longrightarrow> portal_inv P sec t = portal_inv P sec s"
  by (simp add: portal_inv_def)

lemma portal_inv_step: "portal_step P s t \<Longrightarrow> portal_inv P sec s \<Longrightarrow> portal_inv P sec t"
proof (cases "ip_codec (codec P)")
  case True
  assume step: "portal_step P s t" and inv: "portal_inv P sec s"
  note tok = portal_inv_token [OF inv True]
  from step show ?thesis
  proof cases
    case (ps_request e ls rq)
    then show ?thesis using portal_inv_saved [OF inv dispatch_config [of P s e ls rq]] dispatch_token [OF tok] by simp
  next
    case (ps_turn e ls rqo)
    then show ?thesis using portal_inv_saved [OF inv portal_loop_config [of P s e ls rqo]] portal_loop_token [OF tok] by simp
  next
    case (ps_time n)
    then show ?thesis using inv by (simp add: portal_inv_def)
  qed
qed (simp add: portal_inv_def)

interpretation portal: invariant_of "portal_init P sec" "portal_step P" "portal_inv P sec" for P sec
proof unfold_locales
  show "portal_init P sec s \<Longrightarrow> portal_inv P sec s" for s :: "'a portals_scheme"
    by (simp add: portal_init_def portal_inv_def)
  show "portal_inv P sec s \<Longrightarrow> portal_step P s t \<Longrightarrow> portal_inv P sec t" for s t :: "'a portals_scheme"
    by (rule portal_inv_step)
qed

text \<open>No sequence of requests, valid or not, can take the configuration away from the
  operator (as long as no form carries a NUL character): network names, administrator and passwords are never blank, enterprise mode
  never lacks a user name, and the flash always holds what is in force, so that the next
  boot loads the same. The session is closed or held by a 32-digit token.\<close>

theorem config_stays_usable:
  assumes "ip_codec (codec P)" and "reach (portal_init P sec) (portal_step P) s"
  shows "cfg_usable (cfg s) \<and> config_begin flash_ops (codec P) sec (nvs s) = (cfg s, nvs s) \<and>
    (g_session s = [] \<or> token_ok (g_session s))"
  using portal.always [OF assms(2)] assms(1) by (simp add: portal_inv_def)

lemma portal_demo_init:
  "portal_init demo_plat demo_secrets
     (portal_demo\<lparr>g_session := [], nvs := config_save flash_ops dotted (cfg portal_demo) Map.empty\<rparr>)"
proof -
  have "codec demo_plat = dotted" by (simp add: demo_plat_def)
  moreover have "cfg_usable (cfg portal_demo)"
    by (simp add: cfg_usable_def portal_demo_def loadFromDefaults_def demo_secrets_def)
  moreover have "stored (cfg portal_demo) = cfg portal_demo" by (simp add: portal_demo_def)
  ultimately show ?thesis
    by (simp add: portal_init_def config_store_begin_save [OF flash.nvs_store_axioms dotted.ip_codec_axioms])
qed

lemma demo_form_no_nul:
  "no_nul (cfg (dispatch demo_plat web_demo (\<lambda>k. init_logbuf) (demo_request HTTP_POST ''/save'' demo_form)
     (portal_demo\<lparr>g_session := [], nvs := n\<rparr>)))"
proof -
  let ?s = "portal_demo\<lparr>g_session := [], nvs := n\<rparr>"
  have "\<not> session_valid rq ?s" for rq by (simp add: session_valid_def)
  then have "cfg (dispatch demo_plat web_demo (\<lambda>k. init_logbuf) (demo_request HTTP_POST ''/save'' demo_form) ?s)
      = cfg portal_demo"
    using handleSave_refused(1) [of "demo_request HTTP_POST ''/save'' demo_form" ?s]
    by (simp add: dispatch_def route_def route_table_def demo_request_def)
  then show ?thesis by (simp add: no_nul_def portal_demo_def loadFromDefaults_def demo_secrets_def)
qed

theorem config_stays_usable_witness:
  "cfg_usable (cfg (dispatch demo_plat web_demo (\<lambda>k. init_logbuf)
     (demo_request HTTP_POST ''/save'' demo_form)
     (portal_demo\<lparr>g_session := [], nvs := config_save flash_ops dotted (cfg portal_demo) Map.empty\<rparr>)))"
proof -
  have "ip_codec (codec demo_plat)" by (simp add: demo_plat_def dotted.ip_codec_axioms)
  moreover have "reach (portal_init demo_plat demo_secrets) (portal_step demo_plat)
    (portal_demo\<lparr>g_session := [], nvs := config_save flash_ops dotted (cfg portal_demo) Map.empty\<rparr>)"
    by (rule reach_init) (rule portal_demo_init)
  then have "reach (portal_init demo_plat demo_secrets) (portal_step demo_plat)
    (dispatch demo_plat web_demo (\<lambda>k. init_logbuf) (demo_request HTTP_POST ''/save'' demo_form)
      (portal_demo\<lparr>g_session := [], nvs := config_save flash_ops dotted (cfg portal_demo) Map.empty\<rparr>))"
    using ps_request [OF demo_form_no_nul] by (rule reach_step)
  ultimately show ?thesis
    using config_stays_usable [of demo_plat demo_secrets] by blast
qed

text \<open>A form can replace a stored credential but never clear one, and a password field
  left empty keeps the password. The brightness is the exception: a form without it, for
  example one cut short, switches the status LED off.\<close>

theorem form_keeps_credentials:
  fixes s :: "'a portals_scheme"
  assumes "save_accepted P rq s a d"
  shows "(let c = cfg (dispatch P e ls rq s); v = arg rq in
    uplinkPass c = (if v ''uPass'' = [] then uplinkPass (cfg s) else v ''uPass'') \<and>
    eapIdentity c = (if v ''eapId'' = [] then eapIdentity (cfg s) else v ''eapId'') \<and>
    eapUsername c = (if v ''eapUser'' = [] then eapUsername (cfg s) else v ''eapUser'') \<and>
    eapPassword c = (if v ''eapPass'' = [] then eapPassword (cfg s) else v ''eapPass'') \<and>
    apPass c = (if v ''apPass'' = [] then apPass (cfg s) else v ''apPass'') \<and>
    adminPass c = (if v ''admPass'' = [] then adminPass (cfg s) else v ''admPass'') \<and>
    unat (ledBrightness c) = nat (max 0 (min 255 (toInt P (v ''ledBri'')))))"
  using assms save_check_ok(4) [of P rq "cfg s" a d]
  by (auto simp: Let_def save_result [OF assms] keep_if_empty_def save_overlay_brightness
      save_accepted_def)

theorem form_keeps_credentials_witness:
  "let c = cfg (dispatch demo_plat web_demo (\<lambda>k. init_logbuf)
      (demo_request HTTP_POST ''/save'' demo_form) portal_demo)
   in apPass c = ''change-me'' \<and> eapPassword c = ''secret'' \<and> ledBrightness c = 255"
proof -
  have "arg (demo_request HTTP_POST ''/save'' demo_form) ''apPass'' = []"
    "arg (demo_request HTTP_POST ''/save'' demo_form) ''eapPass'' = []"
    "toInt demo_plat (arg (demo_request HTTP_POST ''/save'' demo_form) ''ledBri'') = 300"
    "apPass (cfg portal_demo) = ''change-me''" "eapPassword (cfg portal_demo) = ''secret''"
    by (simp_all add: arg_def demo_request_def demo_form_def demo_plat_def undec_def char_digit_def
        is_digit_def portal_demo_def loadFromDefaults_def demo_secrets_def)
  then show ?thesis
    using form_keeps_credentials [OF demo_save_accepted, of web_demo "\<lambda>k. init_logbuf"]
    by (simp add: Let_def) (simp add: word_unat_eq_iff)
qed

section \<open>Throughput runs\<close>

lemma speed_target_bounds:
  "speed_target mb \<le> 67108864" "kSpeedBlockBytes dvd speed_target mb" "0 < speed_target mb"
proof -
  have "1 \<le> speed_mib mb \<and> speed_mib mb \<le> 64"
    by (simp add: speed_mib_def kSpeedDefaultMiB_def kSpeedMaxMiB_def)
  then have "1 \<le> nat (speed_mib mb) \<and> nat (speed_mib mb) \<le> 64" by linarith
  then show "speed_target mb \<le> 67108864" "0 < speed_target mb"
    unfolding speed_target_def by linarith+
  show "kSpeedBlockBytes dvd speed_target mb"
    by (simp add: speed_target_def kSpeedBlockBytes_def)
qed

lemma speed_run:
  "\<exists>k. fst (speed_blocks e target start i cnt s) = cnt + k * kSpeedBlockBytes \<and>
     streamed (snd (speed_blocks e target start i cnt s)) = streamed s @ replicate k kSpeedBlockBytes \<and>
     (\<forall>j<k. clock s (tick s + j) - start < kSpeedMaxMs \<and> connected e (i + j)) \<and>
     (\<forall>j<k. cnt + j * kSpeedBlockBytes < target) \<and>
     (target \<le> cnt + k * kSpeedBlockBytes \<or>
      \<not> (clock s (tick s + k) - start < kSpeedMaxMs \<and> connected e (i + k)))"
proof (induction "target - cnt" arbitrary: i cnt s rule: less_induct)
  case less
  show ?case
  proof (cases "cnt < target \<and> clock s (tick s) - start < kSpeedMaxMs \<and> connected e i")
    case True
    let ?s = "s\<lparr>tick := Suc (tick s), streamed := streamed s @ [kSpeedBlockBytes]\<rparr>"
    have "target - (cnt + kSpeedBlockBytes) < target - cnt"
      using True by (auto simp: kSpeedBlockBytes_def)
    from less [OF this, of "Suc i" ?s] obtain k where k:
      "fst (speed_blocks e target start (Suc i) (cnt + kSpeedBlockBytes) ?s)
         = cnt + kSpeedBlockBytes + k * kSpeedBlockBytes"
      "streamed (snd (speed_blocks e target start (Suc i) (cnt + kSpeedBlockBytes) ?s))
         = streamed s @ replicate (Suc k) kSpeedBlockBytes"
      "\<forall>j<k. clock s (Suc (tick s + j)) - start < kSpeedMaxMs \<and> connected e (Suc (i + j))"
      "\<forall>j<k. cnt + kSpeedBlockBytes + j * kSpeedBlockBytes < target"
      "target \<le> cnt + kSpeedBlockBytes + k * kSpeedBlockBytes \<or>
       \<not> (clock s (Suc (tick s + k)) - start < kSpeedMaxMs \<and> connected e (Suc (i + k)))"
      by auto
    have "speed_blocks e target start i cnt s
        = speed_blocks e target start (Suc i) (cnt + kSpeedBlockBytes) ?s"
      using True by (subst speed_blocks_step) simp
    with k True show ?thesis
      by (intro exI [of _ "Suc k"]) (auto simp: less_Suc_eq_0_disj algebra_simps)
  next
    case False
    then have "fst (speed_blocks e target start i cnt s) = cnt"
      and "streamed (snd (speed_blocks e target start i cnt s)) = streamed s"
      by (subst speed_blocks_step; auto)+
    with False show ?thesis by (intro exI [of _ 0]) auto
  qed
qed

text \<open>C36. A throughput run sends whole blocks, at most the size asked for and never more than
  64 MiB, starts no block 20 seconds or more after its own start nor after the client has
  gone, and stops short of the size asked for only for one of these two reasons; the number
  recorded is the number sent. No block is sent when there is no memory for the buffer.\<close>

theorem speed_run_bounds:
  fixes s :: "'a portals_scheme"
  assumes "fromLan rq s" and "session_valid rq s"
    and "route (rq_method rq) (rq_uri rq) = SpeedDown" and "malloc_ok e"
  shows "\<exists>k. streamed (dispatch P e ls rq s) = streamed s @ replicate k 4096 @ [0] \<and>
    unat (g_speedBytes (dispatch P e ls rq s)) = k * 4096 \<and>
    k * 4096 \<le> speed_target (toInt P (arg rq ''mb'')) \<and> speed_target (toInt P (arg rq ''mb'')) \<le> 67108864 \<and>
    (\<forall>j<k. clock s (tick s + 3 + j) - clock s (tick s + 2) < 20000 \<and> connected e j) \<and>
    (k * 4096 = speed_target (toInt P (arg rq ''mb'')) \<or>
     20000 \<le> clock s (tick s + 3 + k) - clock s (tick s + 2) \<or> \<not> connected e k)"
proof -
  let ?t = "speed_target (toInt P (arg rq ''mb''))"
  let ?s1 = "send 200 ''application/octet-stream'' [] (noStore (snd (isAuthed rq s)))"
  define s2 where "s2 = ?s1\<lparr>tick := Suc (tick ?s1)\<rparr>"
  let ?r = "speed_blocks e ?t (clock s (tick s + 2)) 0 0 s2"
  have s2: "tick s2 = tick s + 3" "clock s2 = clock s" "streamed s2 = streamed s"
    and s1: "tick ?s1 = tick s + 2"
    using assms(2) by (simp_all add: s2_def response_defs isAuthed_eq session_valid_def)
  have "dispatch P e ls rq s = handleSpeedDown P e rq s"
    using assms(3) by (simp add: dispatch_route)
  then have d: "streamed (dispatch P e ls rq s) = streamed (snd ?r) @ [0]"
    "g_speedBytes (dispatch P e ls rq s) = of_nat (fst ?r)"
    using assms(1,2,4) s1
    by (simp_all add: handleSpeedDown_def guarded_authed Let_def case_prod_beta s2_def)
  obtain k where k: "fst ?r = k * kSpeedBlockBytes" "streamed (snd ?r) = streamed s @ replicate k kSpeedBlockBytes"
    "\<forall>j<k. clock s (tick s + 3 + j) - clock s (tick s + 2) < kSpeedMaxMs \<and> connected e j"
    "\<forall>j<k. j * kSpeedBlockBytes < ?t"
    "?t \<le> k * kSpeedBlockBytes \<or>
       \<not> (clock s (tick s + 3 + k) - clock s (tick s + 2) < kSpeedMaxMs \<and> connected e k)"
    using speed_run [of e ?t "clock s (tick s + 2)" 0 0 s2] unfolding s2 add_0 by blast
  obtain n where n: "?t = kSpeedBlockBytes * n" using speed_target_bounds(2) by blast
  have "k \<le> n"
  proof (cases k)
    case (Suc j)
    then have "j < k" by simp
    with k(4) have "j * kSpeedBlockBytes < kSpeedBlockBytes * n" unfolding n by blast
    then have "j < n" by (simp add: kSpeedBlockBytes_def)
    then show ?thesis using Suc by simp
  qed simp
  then have le: "k * 4096 \<le> ?t" by (simp add: n kSpeedBlockBytes_def)
  then have "unat (of_nat (k * 4096) :: u32) = k * 4096"
    using speed_target_bounds(1) [of "toInt P (arg rq ''mb'')"]
    by (simp add: unat_of_nat take_bit_nat_eq_self del: of_nat_mult)
  then show ?thesis
    using k le d speed_target_bounds(1) [of "toInt P (arg rq ''mb'')"]
    by (intro exI [of _ k]) (auto simp: kSpeedBlockBytes_def kSpeedMaxMs_def not_less simp del: of_nat_mult)
qed

theorem speed_run_bounds_witness:
  "\<exists>k. streamed (dispatch demo_plat web_demo (\<lambda>k. init_logbuf)
     (demo_request HTTP_GET ''/speed/down'' [(''mb'', ''4'')]) portal_demo) = replicate k 4096 @ [0]"
proof -
  have "route (rq_method (demo_request HTTP_GET ''/speed/down'' [(''mb'', ''4'')]))
      (rq_uri (demo_request HTTP_GET ''/speed/down'' [(''mb'', ''4'')])) = SpeedDown"
    by (simp add: demo_request_def route_def route_table_def)
  moreover have "malloc_ok web_demo" "streamed portal_demo = []"
    by (simp_all add: web_demo_def portal_demo_def)
  ultimately show ?thesis
    using speed_run_bounds [OF demo_lan' demo_session, of HTTP_GET "''/speed/down''" "[(''mb'', ''4'')]"
        web_demo demo_plat "\<lambda>k. init_logbuf"] by auto
qed

end
