(* ===== verification/Router.thy ===== *)
theory Router
  imports Sessions
begin

text \<open>
  The main program of \<^verbatim>\<open>src/main.cpp\<close>: the connection state machine, the reconciliation of
  NAPT, recovery from links that carry nothing, the status line and the status LED. The
  WiFi event callback and each stage of \<open>loop()\<close> are operations on the firmware state; one
  iteration composes the stages in the order of the source. What the framework answers
  during an iteration is an argument (\<open>loop_env\<close>).
\<close>

section \<open>State\<close>

text \<open>
  The variables of the anonymous namespace, the statics of \<open>loop()\<close>, and its one local that
  lives across calls, \<open>clientProbeable\<close>.
\<close>

record router = portals +
  backoffMs :: u32
  reconnectAtMs :: u32
  reconnectPending :: bool
  uplinkReady :: bool
  attemptActive :: bool
  attemptStartedMs :: u32
  attemptAssociated :: bool
  lastDisconnectMs :: u32
  radioStations :: u8
  radioChannel :: int
  lastRadioPollMs :: u32
  clientIp :: ipaddr
  lastApAssocMs :: u32
  leaseSeen :: bool
  softApFailed :: bool
  lastChannel :: int
  lastBeatMs :: u32
  lastBeat :: string
  clientProbeable :: bool

definition kBackoffInitialMs :: u32 where "kBackoffInitialMs = 2000"
definition kBackoffMaxMs :: u32 where "kBackoffMaxMs = 15000"
definition kAttemptTimeoutMs :: u32 where "kAttemptTimeoutMs = 20000"
definition kAttemptQuietMs :: u32 where "kAttemptQuietMs = 2000"
definition kNaptLeaseGraceMs :: u32 where "kNaptLeaseGraceMs = 8000"
definition kUplinkFailStreak :: u8 where "kUplinkFailStreak = 3"
definition kClientFailStreak :: u8 where "kClientFailStreak = 3"
definition kIdleBeatMs :: u32 where "kIdleBeatMs = 600000"
definition kRadioPollMs :: u32 where "kRadioPollMs = 500"

text \<open>
  What the framework answers during one iteration of \<open>loop()\<close>: \<open>fw\<close> while a request is served,
  \<open>drv\<close> to the questions of the loop itself. They are asked at different moments, so the
  station count that a page shows need not be the one that the loop then caches.
\<close>

record loop_env =
  request_in :: "request option"
  fw :: web_env
  drv :: web_env
  log_snaps :: "nat \<Rightarrow> logbuf"
  napt_ok :: bool
  ping_up :: ping_ans
  ping_down :: ping_ans

section \<open>Connection attempts\<close>

definition startAttempt :: "'a router_scheme \<Rightarrow> 'a router_scheme" where
  "startAttempt s =
     (let s = s\<lparr>attemptActive := True\<rparr>;
          (now, s) = millis s;
          s = s\<lparr>attemptStartedMs := now\<rparr>;
          s = s\<lparr>attemptAssociated := False, lastDisconnectMs := 0\<rparr>
      in uplink_begin s)"

definition scheduleReconnect :: "'a router_scheme \<Rightarrow> 'a router_scheme" where
  "scheduleReconnect s =
     (let (now, s) = millis s;
          s = s\<lparr>reconnectAtMs := now + backoffMs s, reconnectPending := True\<rparr>;
          s = log_at (''STA reconnect scheduled in '' @ dec_word (backoffMs s) @ '' ms'') s
      in s\<lparr>backoffMs := min (backoffMs s * 2) kBackoffMaxMs\<rparr>)"

section \<open>Radio and NAPT\<close>

definition pollRadio :: "web_env \<Rightarrow> 'a router_scheme \<Rightarrow> 'a router_scheme" where
  "pollRadio e s =
     (let sample = (\<lambda>s. let (now, s) = millis s
                        in s\<lparr>lastRadioPollMs := now, radioStations := stationNum e,
                             radioChannel := wifi_channel e\<rparr>)
      in if lastRadioPollMs s \<noteq> 0 then
           (let (now, s) = millis s
            in if now - lastRadioPollMs s < kRadioPollMs then s else sample s)
         else sample s)"

definition leaseSettled :: "'a router_scheme \<Rightarrow> bool \<times> 'a router_scheme" where
  "leaseSettled s =
     (if leaseSeen s then (True, s)
      else if lastApAssocMs s \<noteq> 0 then
        (let (now, s) = millis s in (now - lastApAssocMs s \<ge> kNaptLeaseGraceMs, s))
      else (False, s))"

definition reconcileNapt :: "bool \<Rightarrow> 'a router_scheme \<Rightarrow> 'a router_scheme" where
  "reconcileNapt ok s =
     (let haveClient = radioStations s > 0;
          (settled, s) = leaseSettled s;
          want = uplinkReady s \<and> haveClient \<and> settled
      in if want = napt_isEnabled s then s
         else if want then log_at ''NAPT ON'' (napt_enable ok s)
         else log_at ''NAPT OFF'' (napt_disable s))"

section \<open>Events\<close>

text \<open>The WiFi events the callback handles, with what it reads of the event or the driver.\<close>

datatype wifi_event =
    STA_CONNECTED
  | STA_GOT_IP ipaddr ipaddr ipaddr int
  | STA_DISCONNECTED
  | STA_LOST_IP
  | AP_STACONNECTED
  | AP_STAIPASSIGNED ipaddr
  | AP_STADISCONNECTED u8
  | EVENT_OTHER

definition link_lost :: "'a router_scheme \<Rightarrow> 'a router_scheme" where
  "link_lost s =
     (let s = s\<lparr>uplinkReady := False\<rparr>;
          s = (if napt_isEnabled s then log_at ''NAPT OFF (uplink lost)'' (napt_disable s) else s);
          s = s\<lparr>attemptAssociated := False\<rparr>;
          (now, s) = millis s;
          s = s\<lparr>lastDisconnectMs := now\<rparr>
      in if \<not> attemptActive s then scheduleReconnect s else s)"

fun onWiFiEvent :: "ipcodec \<Rightarrow> wifi_event \<Rightarrow> 'a router_scheme \<Rightarrow> 'a router_scheme" where
  "onWiFiEvent C STA_CONNECTED s =
     (log_at ''STA associated with uplink AP'' s)\<lparr>attemptAssociated := True\<rparr>"
| "onWiFiEvent C (STA_GOT_IP ip gw d ch) s =
     (let s = s\<lparr>uplinkReady := True\<rparr>;
          s = log_at ''STA got IP'' s;
          s = log_printf (''  IP: '' @ ip_toString C ip @ ''  Gateway: '' @ ip_toString C gw
                @ ''  DNS: '' @ ip_toString C d @ ''  channel: '' @ dec_int ch @ [LF]) s
      in s\<lparr>backoffMs := kBackoffInitialMs, reconnectPending := False, attemptActive := False\<rparr>)"
| "onWiFiEvent C STA_DISCONNECTED s = link_lost s"
| "onWiFiEvent C STA_LOST_IP s = link_lost s"
| "onWiFiEvent C AP_STACONNECTED s =
     (let s = log_at ''Printer associated with SoftAP'' s;
          (now, s) = millis s
      in s\<lparr>lastApAssocMs := now, leaseSeen := False\<rparr>)"
| "onWiFiEvent C (AP_STAIPASSIGNED ip) s =
     (log_at (''DHCP lease issued: '' @ ip_toString C ip) (s\<lparr>clientIp := ip\<rparr>))\<lparr>leaseSeen := True\<rparr>"
| "onWiFiEvent C (AP_STADISCONNECTED stations) s =
     (let s = log_at ''Printer left SoftAP'' s
      in if stations = 0 then s\<lparr>leaseSeen := False, lastApAssocMs := 0, clientIp := ip_unset\<rparr> else s)"
| "onWiFiEvent C EVENT_OTHER s = s"

section \<open>The stages of the loop\<close>

definition probe_stage :: "ipaddr \<Rightarrow> ping_ans \<Rightarrow> ping_ans \<Rightarrow> 'a router_scheme \<Rightarrow> 'a router_scheme" where
  "probe_stage gw au ad s =
     (let s = s\<lparr>clientProbeable := (radioStations s > 0 \<and> leaseSeen s)\<rparr>
      in health_update (uplinkReady s) gw (if clientProbeable s then clientIp s else ip_unset) au ad s)"

definition uplink_recovery :: "'a router_scheme \<Rightarrow> 'a router_scheme" where
  "uplink_recovery s =
     (if uplinkReady s \<and> upstreamEverOk s \<and> upstreamFailStreak s \<ge> kUplinkFailStreak then
        let s = log_at (''RECOVERY: uplink holds an IP but is unreachable '' @ em_dash @ '' reconnecting'') s;
            s = resetStreaks s;
            s = s\<lparr>uplinkReady := False, attemptActive := False\<rparr>;
            s = call (StaDisconnect False False 0) s
        in scheduleReconnect s
      else s)"

definition client_recovery :: "'a router_scheme \<Rightarrow> 'a router_scheme" where
  "client_recovery s =
     (if clientProbeable s \<and> downstreamEverOk s \<and> downstreamFailStreak s \<ge> kClientFailStreak then
        let s = log_at (''RECOVERY: client unreachable '' @ em_dash @ '' deauthing to force re-association'') s;
            s = resetStreaks s
        in call (DeauthSta 0) s
      else s)"

definition channel_watch :: "'a router_scheme \<Rightarrow> 'a router_scheme" where
  "channel_watch s =
     (let channel = radioChannel s
      in if channel \<noteq> lastChannel s then
           (if lastChannel s \<noteq> - 1 then
              log_at (''SoftAP channel moved '' @ dec_int (lastChannel s) @ '' -> '' @ dec_int channel
                @ '' (clients must re-associate)'') s
            else s)\<lparr>lastChannel := channel\<rparr>
         else s)"

fun healthName :: "result \<Rightarrow> string" where
  "healthName Ok = ''ok''"
| "healthName Failed = ''FAIL''"
| "healthName Unknown = ''?''"

text \<open>\<open>snprintf\<close> into a buffer of 96 bytes keeps 95 characters.\<close>

definition beat_line :: "'a router_scheme \<Rightarrow> string" where
  "beat_line s = take 95
     (''uplink='' @ (if uplinkReady s then ''up'' else ''down'') @ '' ch='' @ dec_int (radioChannel s)
      @ '' clients='' @ dec_word (radioStations s) @ '' napt='' @ dec_bool (napt_isEnabled s)
      @ '' health up='' @ healthName (upstream s) @ '' down='' @ healthName (downstream s))"

definition heartbeat :: "int \<Rightarrow> 'a router_scheme \<Rightarrow> 'a router_scheme" where
  "heartbeat rssi s =
     (let beat = beat_line s;
          emit = (\<lambda>s. let (now, s) = millis s; s = s\<lparr>lastBeatMs := now, lastBeat := beat\<rparr>
                      in log_at (beat @ '' rssi='' @ dec_int rssi) s)
      in if lastBeatMs s = 0 \<or> beat \<noteq> lastBeat s then emit s
         else (let (now, s) = millis s
               in if now - lastBeatMs s \<ge> kIdleBeatMs then emit s else s))"

definition ledState :: "'a router_scheme \<Rightarrow> led_state" where
  "ledState s =
     (if softApFailed s then Fault
      else if \<not> uplinkReady s then UpstreamDown
      else if radioStations s = 0 then NoClients
      else Connected)"

definition status_led :: "'a router_scheme \<Rightarrow> 'a router_scheme" where
  "status_led s = led_update (ledState s) s"

text \<open>
  The reading of the clock for the quiet rule happens only when the driver has reported a
  disconnect and no association.
\<close>

definition check_attempt :: "'a router_scheme \<Rightarrow> 'a router_scheme" where
  "check_attempt s =
     (if \<not> attemptActive s then s
      else
        let (now, s) = millis s;
            hardTimeout = (now - attemptStartedMs s \<ge> kAttemptTimeoutMs);
            (gaveUp, s) =
              (if \<not> attemptAssociated s \<and> lastDisconnectMs s \<noteq> 0 then
                 let (now, s) = millis s in (now - lastDisconnectMs s \<ge> kAttemptQuietMs, s)
               else (False, s))
        in if hardTimeout \<or> gaveUp then
             let s = s\<lparr>attemptActive := False\<rparr>;
                 s = log_at (if hardTimeout then ''STA attempt timed out''
                             else ''STA attempt failed (driver out of candidates)'') s
             in scheduleReconnect s
           else s)"

definition try_reconnect :: "'a router_scheme \<Rightarrow> 'a router_scheme" where
  "try_reconnect s =
     (if reconnectPending s then
        (let (now, s) = millis s
         in if now \<ge> reconnectAtMs s then
              let s = s\<lparr>reconnectPending := False\<rparr>;
                  s = log_at ''STA reconnecting'' s
              in startAttempt s
            else s)
      else s)"

text \<open>
  One iteration. On a halted board nothing runs, and when the portal restarts the board the
  iteration ends there, since \<open>ESP.restart()\<close> does not return.
\<close>

definition router_loop :: "plat \<Rightarrow> loop_env \<Rightarrow> 'a router_scheme \<Rightarrow> 'a router_scheme" where
  "router_loop P E s =
     (if halted s then s
      else
        let s = watchdog_update (uplinkReady s) s;
            s = portal_loop P (fw E) (log_snaps E) (request_in E) s
        in if rebooted s then s
           else
             let s = pollRadio (drv E) s;
                 s = reconcileNapt (napt_ok E) s;
                 s = probe_stage (gatewayIP (drv E)) (ping_up E) (ping_down E) s;
                 s = uplink_recovery s;
                 s = client_recovery s;
                 s = channel_watch s;
                 s = heartbeat (sta_rssi (drv E)) s;
                 s = status_led s;
                 s = check_attempt s
             in try_reconnect s)"

lemma turn_halted [simp]: "halted s \<Longrightarrow> router_loop P E s = s"
  by (simp add: router_loop_def)

text \<open>A turn that ends with the board still running went through every stage.\<close>

lemma turn_full:
  assumes "\<not> halted (router_loop P E s)"
  shows "router_loop P E s = try_reconnect (check_attempt (status_led (heartbeat (sta_rssi (drv E))
    (channel_watch (client_recovery (uplink_recovery (probe_stage (gatewayIP (drv E)) (ping_up E) (ping_down E)
      (reconcileNapt (napt_ok E) (pollRadio (drv E)
        (portal_loop P (fw E) (log_snaps E) (request_in E) (watchdog_update (uplinkReady s) s)))))))))))"
    and "\<not> halted s"
proof -
  show "\<not> halted s" using assms by auto
  then show "router_loop P E s = try_reconnect (check_attempt (status_led (heartbeat (sta_rssi (drv E))
    (channel_watch (client_recovery (uplink_recovery (probe_stage (gatewayIP (drv E)) (ping_up E) (ping_down E)
      (reconcileNapt (napt_ok E) (pollRadio (drv E)
        (portal_loop P (fw E) (log_snaps E) (request_in E) (watchdog_update (uplinkReady s) s)))))))))))"
    using assms by (auto simp: router_loop_def Let_def halted_def split: if_splits)
qed

lemma turn_restarts:
  "\<not> halted s \<Longrightarrow> rebooted (portal_loop P (fw E) (log_snaps E) (request_in E) (watchdog_update (uplinkReady s) s)) \<Longrightarrow>
     router_loop P E s = portal_loop P (fw E) (log_snaps E) (request_in E) (watchdog_update (uplinkReady s) s)"
  by (simp add: router_loop_def Let_def)

section \<open>Boot\<close>

definition portal_begin :: "'a portals_scheme \<Rightarrow> 'a portals_scheme" where
  "portal_begin s = call PortalListen s"

text \<open>What the hardware and the framework answer while the board boots.\<close>

record boot_env =
  reset_reason :: esp_reset_reason
  task_ok :: bool
  core_version :: string
  ap_answers :: ap_ans

definition setup_router :: "plat \<Rightarrow> secrets \<Rightarrow> boot_env \<Rightarrow> 'a router_scheme \<Rightarrow> 'a router_scheme" where
  "setup_router P sec B s =
     (let s = call (SerialBegin 115200) s;
          s = call (Delay 200) s;
          s = logbuf_begin s;
          s = log_printf ([LF] @ ''SpoolGate '' @ em_dash @ '' ESP32 NAT router '' @ em_dash
                @ '' arduino-esp32 core '' @ core_version B @ [LF]) s;
          s = watchdog_begin (reset_reason B) (task_ok B) s;
          (st, n) = config_begin flash_ops (codec P) sec (nvs s);
          s = s\<lparr>cfg := st, nvs := n\<rparr>;
          s = setBrightness (ledBrightness (cfg s)) s;
          s = led_begin s;
          s = call WifiModeApSta s;
          s = call OnWifiEvent s;
          (up, s) = softap_begin (codec P) (ap_answers B) s;
          s = (if \<not> up then log_at ''FATAL: SoftAP bring-up failed'' (s\<lparr>softApFailed := True\<rparr>)
               else let s = log_at ''AP UP'' s; s = portal_begin s
                    in log_at (''Admin portal at http://'' @ ip_toString (codec P) (apIp (cfg s)) @ ''/'') s);
          s = health_begin s;
          s = startAttempt s
      in log_at ''STA connecting'' s)"

section \<open>Frames\<close>

text \<open>The components below do not touch the variables of the main program.\<close>

lemma router_same:
  fixes s t :: "'a router_scheme"
  assumes "portals.more t = portals.more s"
  shows "backoffMs t = backoffMs s \<and> reconnectAtMs t = reconnectAtMs s \<and>
    reconnectPending t = reconnectPending s \<and> uplinkReady t = uplinkReady s \<and>
    attemptActive t = attemptActive s \<and> attemptStartedMs t = attemptStartedMs s \<and>
    attemptAssociated t = attemptAssociated s \<and> lastDisconnectMs t = lastDisconnectMs s \<and>
    radioStations t = radioStations s \<and> radioChannel t = radioChannel s \<and>
    lastRadioPollMs t = lastRadioPollMs s \<and> clientIp t = clientIp s \<and>
    lastApAssocMs t = lastApAssocMs s \<and> leaseSeen t = leaseSeen s \<and>
    softApFailed t = softApFailed s \<and> lastChannel t = lastChannel s \<and>
    lastBeatMs t = lastBeatMs s \<and> lastBeat t = lastBeat s \<and> clientProbeable t = clientProbeable s"
  using assms by (cases s; cases t) simp

lemma more_io:
  fixes s :: "'a portals_scheme"
  shows "portals.more (log_at m s) = portals.more s"
    and "portals.more (log_printf m s) = portals.more s"
    and "portals.more (call c s) = portals.more s"
  by (simp_all add: log_at_eq log_printf_def call_def Let_def)

lemma more_napt:
  fixes s :: "'a portals_scheme"
  shows "portals.more (napt_enable ok s) = portals.more s"
    and "portals.more (napt_disable s) = portals.more s"
  by (simp_all add: napt_enable_def napt_disable_def more_io Let_def)

lemma more_watchdog:
  fixes s :: "'a portals_scheme"
  shows "portals.more (watchdog_update u s) = portals.more s"
  by (simp add: watchdog_update_def markUplinkDown_def Let_def)

lemma more_supervisor:
  fixes s :: "'a portals_scheme"
  shows "portals.more (supervisor_step s) = portals.more s"
    and "portals.more (hookVprintf n txt s) = portals.more s"
    and "portals.more (watchdog_begin r ok s) = portals.more s"
  by (simp_all add: supervisor_step_def sup_wake_def sup_check_loop_def sup_check_uplink_def reboot_def
      hookVprintf_def watchdog_begin_def markUplinkDown_def more_io Let_def split: sup_pc.split)

lemma more_led:
  fixes s :: "'a portals_scheme"
  shows "portals.more (led_update st s) = portals.more s"
    and "portals.more (led_begin s) = portals.more s"
    and "portals.more (setBrightness b s) = portals.more s"
  by (simp_all add: led_update_eq led_begin_def setBrightness_def led_write_def more_io Let_def)

lemma more_softap:
  fixes s :: "'a portals_scheme"
  shows "portals.more (snd (softap_begin C a s)) = portals.more s"
    and "portals.more (portal_begin s) = portals.more s"
    and "portals.more (health_begin s) = portals.more s"
  by (simp_all add: softap_begin_def applyDnsOffer_def portal_begin_def health_begin_def more_io Let_def
      split: option.split)

lemma more_health:
  fixes s :: "'a portals_scheme"
  shows "portals.more (health_update u gw cl au ad s) = portals.more s"
    and "portals.more (resetStreaks s) = portals.more s"
    and "portals.more (onPingSuccess slot_up s) = portals.more s"
    and "portals.more (onPingSuccess slot_down s) = portals.more s"
    and "portals.more (onPingEnd slot_up s) = portals.more s"
    and "portals.more (onPingEnd slot_down s) = portals.more s"
proof -
  have h: "portals.more (harvest slot_up s) = portals.more s" "portals.more (harvest slot_down s) = portals.more s"
    for s :: "'a portals_scheme"
    by (simp_all add: harvest_def more_io Let_def)
  have p: "portals.more (startProbe slot_up t a s) = portals.more s"
    "portals.more (startProbe slot_down t a s) = portals.more s" for t a and s :: "'a portals_scheme"
    by (simp_all add: startProbe_def more_io Let_def split: option.splits)
  show "portals.more (health_update u gw cl au ad s) = portals.more s"
    by (simp add: health_update_def health_round_def h p Let_def)
qed (simp_all add: resetStreaks_def onPingSuccess_def onPingEnd_def Let_def)

lemma more_uplink:
  fixes s :: "'a portals_scheme"
  shows "portals.more (uplink_begin s) = portals.more s"
  by (simp add: uplink_begin_def more_io Let_def)

lemma more_isAuthed: "portals.more (snd (isAuthed rq s)) = portals.more s"
  by (simp add: isAuthed_eq)

lemma more_response:
  "portals.more (send c ty b s) = portals.more s" "portals.more (noStore s) = portals.more s"
  "portals.more (redirect p s) = portals.more s" "portals.more (sendConfig P e m s) = portals.more s"
  by (simp_all add: response_defs sendConfig_def)

lemma more_speed: "portals.more (snd (speed_blocks e target start i cnt s)) = portals.more s"
  using speed_blocks_state [of e target start i cnt s] by auto

lemma more_handle: "portals.more (handle P e ls r rq s) = portals.more s"
  by (cases r; simp add: handler_defs handleNotFound_def sendLogin_def sendHeader_def guarded_frame
      more_response more_isAuthed more_speed more_io case_prod_beta Let_def split: sum.split prod.split)

lemma more_portal: "portals.more (portal_loop P e ls rqo s) = portals.more s"
  by (simp add: portal_loop_def dispatch_def more_handle more_io Let_def split: option.split)

lemmas router_frames [simp, frames] =
  more_io [THEN router_same] more_napt [THEN router_same] more_watchdog [THEN router_same]
  more_led [THEN router_same] more_health [THEN router_same] more_uplink [THEN router_same]
  more_portal [THEN router_same] more_supervisor [THEN router_same] more_softap [THEN router_same]

end
