(* ===== verification/Connection.thy ===== *)
theory Connection
  imports Router
begin

text \<open>
  The whole firmware as a transition system, and the connection state machine inside it.
  Between any two stages of the loop the WiFi callback, the ping task, the supervisor and
  the log hook may run; the steps allow the stages in any order, which includes the order
  of the loop. Under this interleaving the connection is always in exactly one of three
  modes and refines a three-state machine with a bounded backoff.
\<close>

section \<open>Steps\<close>

inductive router_step :: "plat \<Rightarrow> 'a router_scheme \<Rightarrow> 'a router_scheme \<Rightarrow> bool" for P where
  rs_watchdog: "router_step P s (watchdog_update (uplinkReady s) s)"
| rs_portal: "router_step P s (portal_loop P e ls rqo s)"
| rs_radio: "router_step P s (pollRadio e s)"
| rs_napt: "router_step P s (reconcileNapt ok s)"
| rs_probe: "router_step P s (probe_stage gw au ad s)"
| rs_uplink_recovery: "router_step P s (uplink_recovery s)"
| rs_client_recovery: "router_step P s (client_recovery s)"
| rs_channel: "router_step P s (channel_watch s)"
| rs_heartbeat: "router_step P s (heartbeat rssi s)"
| rs_led: "router_step P s (status_led s)"
| rs_attempt: "router_step P s (check_attempt s)"
| rs_reconnect: "router_step P s (try_reconnect s)"
| rs_event: "router_step P s (onWiFiEvent (codec P) ev s)"
| rs_ping_up: "router_step P s (onPingSuccess slot_up s)"
| rs_ping_down: "router_step P s (onPingSuccess slot_down s)"
| rs_end_up: "router_step P s (onPingEnd slot_up s)"
| rs_end_down: "router_step P s (onPingEnd slot_down s)"
| rs_supervisor: "router_step P s (supervisor_step s)"
| rs_hook: "router_step P s (hookVprintf n txt s)"
| rs_time: "router_step P s (s\<lparr>tick := tick s + n\<rparr>)"

text \<open>The static initial values, with an arbitrary flash content.\<close>

definition power_on :: "'a router_scheme \<Rightarrow> bool" where
  "power_on s \<longleftrightarrow> calls s = [] \<and> log_ring s = init_logbuf \<and> lastWrittenPacked s = - 1 \<and>
     \<not> s_enabled s \<and> g_up s = init_probe [] \<and> g_down s = init_probe [] \<and> g_lastRoundMs s = 0 \<and>
     g_session s = [] \<and> g_rebootAtMs s = 0 \<and> sent s = [] \<and> out_headers s = [] \<and> sup s = SupNone \<and>
     \<not> rebooted s \<and>
     backoffMs s = kBackoffInitialMs \<and> \<not> reconnectPending s \<and> \<not> uplinkReady s \<and>
     \<not> attemptActive s \<and> radioStations s = 0 \<and> lastRadioPollMs s = 0 \<and> clientIp s = ip_unset \<and>
     lastApAssocMs s = 0 \<and> \<not> leaseSeen s \<and> \<not> softApFailed s \<and> lastChannel s = - 1 \<and>
     lastBeatMs s = 0 \<and> lastBeat s = [] \<and> \<not> clientProbeable s"

definition router_init :: "plat \<Rightarrow> secrets \<Rightarrow> 'a router_scheme \<Rightarrow> bool" where
  "router_init P sec s \<longleftrightarrow> (\<exists>s0 B. power_on s0 \<and> s = setup_router P sec B s0)"

lemma then_step: "step t u \<Longrightarrow> step\<^sup>*\<^sup>* s t \<Longrightarrow> step\<^sup>*\<^sup>* s u"
  by (rule rtranclp.rtrancl_into_rtrancl)

text \<open>One iteration of the loop is a sequence of such steps. (The steps also allow more: they go
  on after the board has been restarted.)\<close>

lemma first_stages:
  "(router_step P)\<^sup>*\<^sup>* s (portal_loop P e ls rqo (watchdog_update (uplinkReady s) s))"
  by (rule then_step, rule rs_portal, rule then_step, rule rs_watchdog, rule rtranclp.rtrancl_refl)

lemma later_stages_steps:
  assumes "(router_step P)\<^sup>*\<^sup>* s u"
  shows "(router_step P)\<^sup>*\<^sup>* s (try_reconnect (check_attempt (status_led (heartbeat rssi (channel_watch
    (client_recovery (uplink_recovery (probe_stage gw au ad (reconcileNapt ok (pollRadio e u))))))))))"
  by (rule then_step, rule rs_reconnect,
      rule then_step, rule rs_attempt,
      rule then_step, rule rs_led,
      rule then_step, rule rs_heartbeat,
      rule then_step, rule rs_channel,
      rule then_step, rule rs_client_recovery,
      rule then_step, rule rs_uplink_recovery,
      rule then_step, rule rs_probe,
      rule then_step, rule rs_napt,
      rule then_step, rule rs_radio,
      rule assms)

lemma router_loop_steps: "(router_step P)\<^sup>*\<^sup>* s (router_loop P E s)"
  by (simp add: router_loop_def Let_def first_stages later_stages_steps [OF first_stages])

lemma reach_rtranclp: "(step)\<^sup>*\<^sup>* s t \<Longrightarrow> reach init step s \<Longrightarrow> reach init step t"
  by (induction rule: rtranclp_induct) (auto intro: reach_step)

lemma reach_loop: "reach init (router_step P) s \<Longrightarrow> reach init (router_step P) (router_loop P E s)"
  by (rule reach_rtranclp [OF router_loop_steps])

section \<open>The abstract machine\<close>

datatype link = Online | Attempting | Waiting

definition next_backoff :: "u32 \<Rightarrow> u32" where
  "next_backoff b = min (b * 2) kBackoffMaxMs"

inductive link_step :: "link \<times> u32 \<Rightarrow> link \<times> u32 \<Rightarrow> bool" where
  ls_up: "link_step (m, b) (Online, kBackoffInitialMs)"
| ls_wait: "link_step (m, b) (Waiting, next_backoff b)"
| ls_retry: "link_step (Waiting, b) (Attempting, b)"

definition link_init :: "link \<times> u32 \<Rightarrow> bool" where
  "link_init a \<longleftrightarrow> a = (Attempting, kBackoffInitialMs)"

definition link_of :: "'a router_scheme \<Rightarrow> link \<times> u32" where
  "link_of s = (if uplinkReady s then Online else if attemptActive s then Attempting else Waiting, backoffMs s)"

text \<open>Exactly one of the three flags is set.\<close>

definition link_wf :: "'a router_scheme \<Rightarrow> bool" where
  "link_wf s \<longleftrightarrow>
     (uplinkReady s \<and> \<not> attemptActive s \<and> \<not> reconnectPending s) \<or>
     (\<not> uplinkReady s \<and> attemptActive s \<and> \<not> reconnectPending s) \<or>
     (\<not> uplinkReady s \<and> \<not> attemptActive s \<and> reconnectPending s)"

section \<open>Time\<close>

text \<open>No operation sets the clock back.\<close>

definition later :: "'a io_scheme \<Rightarrow> 'a io_scheme \<Rightarrow> bool" where
  "later s t \<longleftrightarrow> clock t = clock s \<and> tick s \<le> tick t"

lemma later_refl [simp]: "later s s"
  by (simp add: later_def)

lemma later_trans: "later s t \<Longrightarrow> later t u \<Longrightarrow> later s u"
  by (simp add: later_def)

lemma later_napt:
  fixes s :: "'a napts_scheme"
  shows "later s (napt_enable ok s)" and "later s (napt_disable s)"
  by (simp_all add: later_def napt_enable_def napt_disable_def Let_def)

lemma later_led:
  fixes s :: "'a leds_scheme"
  shows "later s (led_update st s)"
  by (simp add: later_def led_update_eq led_write_def Let_def)

lemma later_watchdog:
  fixes s :: "'a wdog_scheme"
  shows "later s (watchdog_update u s)" and "later s (supervisor_step s)"
  by (simp_all add: later_def watchdog_update_def markUplinkDown_def supervisor_step_def sup_wake_def
      sup_check_loop_def sup_check_uplink_def reboot_def Let_def split: sup_pc.split)

lemma later_health:
  fixes s :: "'a healths_scheme"
  shows "later s (health_update u gw cl au ad s)"
proof -
  have h: "later s (harvest slot_down (harvest slot_up s))"
    using harvest_tick(2) [of s] harvest_tick(4) [of "harvest slot_up s"] by (simp add: later_def)
  have r: "later s' (health_round gw cl au ad s')" for s' :: "'a healths_scheme"
    by (simp add: later_def health_round_def Let_def)
  have i: "later s' (if not_yet then s'\<lparr>tick := Suc (tick s')\<rparr>
      else health_round gw cl au ad (s'\<lparr>tick := Suc (tick s')\<rparr>))" for s' :: "'a healths_scheme" and not_yet
    using r [of "s'\<lparr>tick := Suc (tick s')\<rparr>"] by (simp add: later_def)
  show ?thesis
    unfolding health_update_def Let_def case_millis
    by (rule later_trans [OF h]) (use r i in \<open>simp add: later_def\<close>)
qed

lemma later_uplink:
  fixes s :: "'a healths_scheme"
  shows "later s (uplink_begin s)"
  by (simp add: later_def uplink_begin_def Let_def)

lemma later_speed: "later s (snd (speed_blocks e target start i cnt s))"
proof (induction "target - cnt" arbitrary: i cnt s rule: less_induct)
  case less
  show ?case
  proof (cases "cnt < target \<and> clock s (tick s) - start < kSpeedMaxMs \<and> connected e i")
    case True
    have "target - (cnt + kSpeedBlockBytes) < target - cnt"
      using True by (auto simp: kSpeedBlockBytes_def)
    from less [OF this] have "later (s\<lparr>tick := Suc (tick s), streamed := streamed s @ [kSpeedBlockBytes]\<rparr>)
      (snd (speed_blocks e target start (Suc i) (cnt + kSpeedBlockBytes)
        (s\<lparr>tick := Suc (tick s), streamed := streamed s @ [kSpeedBlockBytes]\<rparr>)))" .
    with True show ?thesis by (subst speed_blocks_step) (simp add: later_def)
  next
    case False
    then show ?thesis by (subst speed_blocks_step) (auto simp: later_def)
  qed
qed

lemma later_response:
  "later s (send c ty b s)" "later s (noStore s)" "later s (redirect p s)" "later s (sendConfig P e m s)"
  "later s (snd (isAuthed rq s))"
  by (simp_all add: later_def response_defs sendConfig_def isAuthed_eq)

lemma later_authed:
  "later s (redirect p (snd (isAuthed rq s)))" "later s (sendLogin m (snd (isAuthed rq s)))"
  by (simp_all add: later_def sendLogin_def response_defs isAuthed_eq)

lemma later_guarded:
  assumes "\<And>rq s. later s (body rq s)"
  shows "later s (guarded r body rq s)"
proof -
  have "later s (body rq (snd (isAuthed rq s)))" and "later s (redirect ''/login'' (snd (isAuthed rq s)))"
    by (rule later_trans [OF later_response(5)], rule assms later_response(3))+
  then show ?thesis
    using assms [of s rq] later_response(1) [of s]
    by (simp add: guarded_def guard_def Let_def case_prod_beta)
qed

lemma later_handle: "later s (handle P e ls r rq s)"
proof (cases r)
  case NotFound
  show ?thesis
    by (simp add: NotFound handleNotFound_def case_prod_beta later_response later_authed)
next
  case LoginGet
  show ?thesis
    unfolding LoginGet handle.simps handleLoginGet_def
    by (intro later_guarded) (simp add: case_prod_beta later_authed)
next
  case LoginPost
  show ?thesis
    unfolding LoginPost handle.simps handleLoginPost_def
    by (intro later_guarded) (simp add: Let_def later_def sendLogin_def response_defs)
next
  case Save
  show ?thesis
    unfolding Save handle.simps handleSave_def
    by (intro later_guarded)
      (auto simp: Let_def later_response split: sum.split, auto simp: later_def response_defs)
next
  case SpeedDown
  have st: "tick s \<le> Suc (Suc (tick (snd (speed_blocks e target start 0 0
      ((send 200 ty [] (noStore s))\<lparr>tick := Suc (tick (send 200 ty [] (noStore s)))\<rparr>)))))"
    for s :: "'a portals_scheme" and target start ty
  proof -
    let ?s = "(send 200 ty [] (noStore s))\<lparr>tick := Suc (tick (send 200 ty [] (noStore s)))\<rparr>"
    have "later s ?s" by (simp add: later_def response_defs)
    from later_trans [OF this later_speed [of ?s e target start 0 0]] show ?thesis
      by (simp add: later_def le_SucI)
  qed
  have t: "tick (send 503 ty b s) = tick s" for ty b and s :: "'a portals_scheme"
    by (simp add: send_def)
  show ?thesis
    unfolding SpeedDown handle.simps handleSpeedDown_def
    by (intro later_guarded) (auto simp: Let_def case_prod_beta later_def st t)
qed (auto simp: handler_defs later_response intro!: later_guarded,
     auto simp: later_def response_defs Let_def)

lemma later_portal: "later s (portal_loop P e ls rqo s)"
proof -
  have "later s (case rqo of None \<Rightarrow> s | Some rq \<Rightarrow> dispatch P e ls rq s)"
    by (simp add: dispatch_def later_handle split: option.split)
  then show ?thesis
    unfolding portal_loop_def Let_def by (rule later_trans) (simp add: later_def)
qed

section \<open>What each stage does to the connection\<close>

lemma scheduleReconnect_link [simp]:
  "uplinkReady (scheduleReconnect s) = uplinkReady s"
  "attemptActive (scheduleReconnect s) = attemptActive s"
  "reconnectPending (scheduleReconnect s)"
  "backoffMs (scheduleReconnect s) = next_backoff (backoffMs s)"
  "reconnectAtMs (scheduleReconnect s) = clock s (tick s) + backoffMs s"
  "clock (scheduleReconnect s) = clock s"
  "calls (scheduleReconnect s) = calls s"
  "tick (scheduleReconnect s) = tick s + 2"
  by (simp_all add: scheduleReconnect_def next_backoff_def Let_def)

lemma startAttempt_link [simp]:
  "uplinkReady (startAttempt s) = uplinkReady s"
  "attemptActive (startAttempt s)"
  "reconnectPending (startAttempt s) = reconnectPending s"
  "backoffMs (startAttempt s) = backoffMs s"
  "attemptStartedMs (startAttempt s) = clock s (tick s)"
  "\<not> attemptAssociated (startAttempt s)"
  "lastDisconnectMs (startAttempt s) = 0"
  by (simp_all add: startAttempt_def Let_def)

lemma startAttempt_time [simp]:
  "clock (startAttempt s) = clock s" "tick s < tick (startAttempt s)"
  by (simp_all add: startAttempt_def uplink_begin_def Let_def)

definition same_link :: "'a router_scheme \<Rightarrow> 'a router_scheme \<Rightarrow> bool" where
  "same_link s t \<longleftrightarrow> uplinkReady t = uplinkReady s \<and> attemptActive t = attemptActive s \<and>
     reconnectPending t = reconnectPending s \<and> backoffMs t = backoffMs s \<and>
     reconnectAtMs t = reconnectAtMs s \<and> attemptStartedMs t = attemptStartedMs s"

lemma quiet_stages:
  "same_link s (pollRadio e s)" "same_link s (reconcileNapt ok s)" "same_link s (probe_stage gw au ad s)"
  "same_link s (client_recovery s)" "same_link s (channel_watch s)" "same_link s (heartbeat rssi s)"
  "same_link s (status_led s)" "same_link s (watchdog_update u s)" "same_link s (portal_loop P e ls rqo s)"
  "same_link s (onPingSuccess slot_up s)" "same_link s (onPingSuccess slot_down s)"
  "same_link s (onPingEnd slot_up s)" "same_link s (onPingEnd slot_down s)"
  "same_link s (supervisor_step s)" "same_link s (hookVprintf n txt s)" "same_link s (s\<lparr>tick := m\<rparr>)"
  by (simp_all add: same_link_def pollRadio_def reconcileNapt_def leaseSettled_def probe_stage_def
      client_recovery_def channel_watch_def heartbeat_def status_led_def Let_def)

section \<open>Moves\<close>

text \<open>What an operation does to the connection: nothing, or it comes up, or it waits for a
  reconnect, or it starts the attempt that was due.\<close>

definition conn_move :: "'a router_scheme \<Rightarrow> 'a router_scheme \<Rightarrow> bool" where
  "conn_move s t \<longleftrightarrow> later s t \<and>
     (same_link s t \<or>
      (uplinkReady t \<and> \<not> attemptActive t \<and> \<not> reconnectPending t \<and> backoffMs t = kBackoffInitialMs) \<or>
      (\<exists>u. later s u \<and> \<not> uplinkReady u \<and> \<not> attemptActive u \<and> backoffMs u = backoffMs s \<and>
         t = scheduleReconnect u) \<or>
      (\<exists>u. reconnectPending s \<and> later s u \<and> \<not> reconnectPending u \<and> uplinkReady u = uplinkReady s \<and>
         backoffMs u = backoffMs s \<and> t = startAttempt u))"

lemma move_same: "same_link s t \<Longrightarrow> later s t \<Longrightarrow> conn_move s t"
  by (simp add: conn_move_def)

lemma move_wait:
  "later s u \<Longrightarrow> \<not> uplinkReady u \<Longrightarrow> \<not> attemptActive u \<Longrightarrow> backoffMs u = backoffMs s \<Longrightarrow>
     conn_move s (scheduleReconnect u)"
  by (auto simp: conn_move_def later_def)

lemma move_start:
  assumes "reconnectPending s" and "later s u" and "\<not> reconnectPending u"
    and "uplinkReady u = uplinkReady s" and "backoffMs u = backoffMs s"
  shows "conn_move s (startAttempt u)"
proof -
  have "later u (startAttempt u)"
    using startAttempt_time [of u] by (simp add: later_def less_imp_le)
  with assms(2) have "later s (startAttempt u)" by (rule later_trans)
  then show ?thesis using assms by (auto simp: conn_move_def)
qed

lemma same_link_refl: "same_link s s"
  by (simp add: same_link_def)

lemma move_refl: "conn_move s s"
  by (simp add: move_same same_link_refl)

lemma later_stages:
  "later s (pollRadio e s)" "later s (reconcileNapt ok s)" "later s (probe_stage gw au ad s)"
  "later s (client_recovery s)" "later s (channel_watch s)" "later s (heartbeat rssi s)"
  "later s (status_led s)"
proof -
  show "later s (reconcileNapt ok s)"
    by (simp add: reconcileNapt_def leaseSettled_def later_def napt_enable_def napt_disable_def Let_def)
  have "later (s\<lparr>clientProbeable := b\<rparr>)
      (health_update u gw cl au ad (s\<lparr>clientProbeable := b\<rparr>))" for b u cl
    by (rule later_health)
  then show "later s (probe_stage gw au ad s)"
    by (simp add: probe_stage_def Let_def later_def)
  show "later s (status_led s)" unfolding status_led_def by (rule later_led)
qed (simp_all add: later_def pollRadio_def client_recovery_def resetStreaks_def channel_watch_def
      heartbeat_def Let_def)

lemma later_callbacks:
  "later s (onPingSuccess slot_up s)" "later s (onPingSuccess slot_down s)"
  "later s (onPingEnd slot_up s)" "later s (onPingEnd slot_down s)"
  "later s (hookVprintf n txt s)" "later s (s\<lparr>tick := tick s + k\<rparr>)"
  by (simp_all add: later_def onPingSuccess_def onPingEnd_def hookVprintf_def Let_def)

lemmas quiet_moves =
  quiet_stages(1) [THEN move_same, OF later_stages(1)] quiet_stages(2) [THEN move_same, OF later_stages(2)]
  quiet_stages(3) [THEN move_same, OF later_stages(3)] quiet_stages(4) [THEN move_same, OF later_stages(4)]
  quiet_stages(5) [THEN move_same, OF later_stages(5)] quiet_stages(6) [THEN move_same, OF later_stages(6)]
  quiet_stages(7) [THEN move_same, OF later_stages(7)] quiet_stages(8) [THEN move_same, OF later_watchdog(1)]
  quiet_stages(9) [THEN move_same, OF later_portal]
  quiet_stages(10) [THEN move_same, OF later_callbacks(1)] quiet_stages(11) [THEN move_same, OF later_callbacks(2)]
  quiet_stages(12) [THEN move_same, OF later_callbacks(3)] quiet_stages(13) [THEN move_same, OF later_callbacks(4)]
  quiet_stages(14) [THEN move_same, OF later_watchdog(2)] quiet_stages(15) [THEN move_same, OF later_callbacks(5)]
  quiet_stages(16) [THEN move_same, OF later_callbacks(6)]

lemma move_uplink_recovery: "conn_move s (uplink_recovery s)"
proof (cases "uplinkReady s \<and> upstreamEverOk s \<and> upstreamFailStreak s \<ge> kUplinkFailStreak")
  case True
  then show ?thesis
    by (simp add: uplink_recovery_def Let_def)
      (intro move_wait; simp add: later_def resetStreaks_def)
next
  case False
  then show ?thesis by (auto simp: uplink_recovery_def move_refl)
qed

lemma check_attempt_cases:
  obtains (idle) "same_link s (check_attempt s)" "later s (check_attempt s)"
  | (ended) m n where "attemptActive s" "tick s \<le> n"
      "check_attempt s = scheduleReconnect (log_at m (s\<lparr>tick := n, attemptActive := False\<rparr>))"
proof (cases "attemptActive s")
  case False
  then show ?thesis using idle by (simp add: check_attempt_def same_link_refl)
next
  case True
  let ?late = "kAttemptTimeoutMs \<le> clock s (tick s) - attemptStartedMs s"
  let ?read = "\<not> attemptAssociated s \<and> lastDisconnectMs s \<noteq> 0"
  let ?gone = "?read \<and> kAttemptQuietMs \<le> clock s (Suc (tick s)) - lastDisconnectMs s"
  let ?n = "if ?read then Suc (Suc (tick s)) else Suc (tick s)"
  show ?thesis
  proof (cases "?late \<or> ?gone")
    case over: True
    let ?m = "if ?late then ''STA attempt timed out'' else ''STA attempt failed (driver out of candidates)''"
    have "check_attempt s = scheduleReconnect (log_at ?m (s\<lparr>tick := ?n, attemptActive := False\<rparr>))"
      using True over by (auto simp: check_attempt_def Let_def)
    with True show ?thesis by (intro ended) auto
  next
    case False
    then have "check_attempt s = s\<lparr>tick := ?n\<rparr>"
      using True by (auto simp: check_attempt_def Let_def)
    then show ?thesis using idle by (simp add: same_link_def later_def)
  qed
qed

lemma move_check_attempt: "\<not> uplinkReady s \<or> \<not> attemptActive s \<Longrightarrow> conn_move s (check_attempt s)"
proof (cases rule: check_attempt_cases [of s])
  case idle
  then show ?thesis by (rule move_same)
next
  case (ended m n)
  assume "\<not> uplinkReady s \<or> \<not> attemptActive s"
  with ended(1,2) show ?thesis unfolding ended(3) by (intro move_wait) (auto simp: later_def)
qed

lemma try_reconnect_due:
  "reconnectPending s \<Longrightarrow> reconnectAtMs s \<le> clock s (tick s) \<Longrightarrow>
   try_reconnect s = startAttempt (log_at ''STA reconnecting'' (s\<lparr>tick := Suc (tick s), reconnectPending := False\<rparr>))"
  by (simp add: try_reconnect_def Let_def)

lemma later_recovery: "later s (uplink_recovery s)"
  using move_uplink_recovery [of s] by (simp add: conn_move_def)

lemma later_attempt: "later s (check_attempt s)" "later s (try_reconnect s)"
proof -
  show "later s (check_attempt s)"
    by (rule check_attempt_cases [of s]) (auto simp: later_def)
  have "tick s \<le> tick (startAttempt (log_at m (s\<lparr>tick := Suc (tick s), reconnectPending := False\<rparr>)))" for m
    using startAttempt_time(2) [of "log_at m (s\<lparr>tick := Suc (tick s), reconnectPending := False\<rparr>)"]
    by simp
  then show "later s (try_reconnect s)"
    by (simp add: try_reconnect_def later_def Let_def)
qed

lemma move_try_reconnect: "conn_move s (try_reconnect s)"
proof (cases "reconnectPending s \<and> reconnectAtMs s \<le> clock s (tick s)")
  case True
  then show ?thesis
    by (simp add: try_reconnect_due) (intro move_start; simp add: later_def)
next
  case False
  then show ?thesis
    by (intro move_same) (auto simp: try_reconnect_def Let_def same_link_def later_def)
qed

lemma move_link_lost:
  assumes "\<not> uplinkReady s \<or> \<not> attemptActive s"
  shows "conn_move s (link_lost s)"
proof (cases "attemptActive s")
  case True
  with assms show ?thesis
    by (intro move_same)
      (auto simp: link_lost_def Let_def same_link_def later_def napt_disable_def)
next
  case False
  let ?u = "(if napt_isEnabled s then log_at ''NAPT OFF (uplink lost)'' (napt_disable (s\<lparr>uplinkReady := False\<rparr>))
    else s\<lparr>uplinkReady := False\<rparr>)"
  let ?v = "?u\<lparr>attemptAssociated := False, tick := Suc (tick ?u), lastDisconnectMs := clock s (tick ?u)\<rparr>"
  have "link_lost s = scheduleReconnect ?v"
    using False by (simp add: link_lost_def Let_def napt_isEnabled_def)
  moreover have "conn_move s (scheduleReconnect ?v)"
    using False by (intro move_wait) (auto simp: later_def napt_disable_def Let_def)
  ultimately show ?thesis by simp
qed

lemma move_event:
  assumes "\<not> uplinkReady s \<or> \<not> attemptActive s"
  shows "conn_move s (onWiFiEvent C ev s)"
proof (cases ev)
  case (STA_GOT_IP ip gw d ch)
  then show ?thesis by (simp add: conn_move_def later_def log_printf_def Let_def)
qed (use assms in \<open>simp_all add: move_link_lost move_same same_link_def later_def Let_def\<close>)

lemma move_step:
  assumes "router_step P s t" and "\<not> uplinkReady s \<or> \<not> attemptActive s"
  shows "conn_move s t"
  using assms(1)
proof (cases rule: router_step.cases)
  case rs_uplink_recovery
  then show ?thesis using move_uplink_recovery by simp
next
  case rs_attempt
  then show ?thesis using assms(2) move_check_attempt by simp
next
  case rs_reconnect
  then show ?thesis using move_try_reconnect by simp
next
  case (rs_event ev)
  then show ?thesis using assms(2) move_event by simp
qed (simp_all add: quiet_moves)

section \<open>The invariant\<close>

definition backoffs :: "u32 set" where
  "backoffs = {2000, 4000, 8000, 15000}"

text \<open>
  A pending reconnect is due one backoff after some earlier reading of the clock, and an
  attempt in progress started at an earlier reading.
\<close>

definition conn_inv :: "'a router_scheme \<Rightarrow> bool" where
  "conn_inv s \<longleftrightarrow> link_wf s \<and> backoffMs s \<in> backoffs \<and>
     (reconnectPending s \<longrightarrow> (\<exists>j<tick s. \<exists>b\<in>backoffs. reconnectAtMs s = clock s j + b)) \<and>
     (attemptActive s \<longrightarrow> (\<exists>j<tick s. attemptStartedMs s = clock s j))"

lemma next_backoff_backoffs: "b \<in> backoffs \<Longrightarrow> next_backoff b \<in> backoffs"
  by (auto simp: backoffs_def next_backoff_def kBackoffMaxMs_def)

lemma conn_move_cases:
  assumes m: "conn_move s t"
  obtains (same) "same_link s t" "later s t"
    | (up) "uplinkReady t" "\<not> attemptActive t" "\<not> reconnectPending t" "backoffMs t = kBackoffInitialMs"
    | (wait) u where "\<not> uplinkReady u" "\<not> attemptActive u" "backoffMs u = backoffMs s"
        "t = scheduleReconnect u"
    | (start) u where "reconnectPending s" "\<not> reconnectPending u" "uplinkReady u = uplinkReady s"
        "backoffMs u = backoffMs s" "t = startAttempt u"
  using m unfolding conn_move_def
  by (elim conjE disjE exE) ((rule same; assumption) | (rule up; assumption) | (rule wait; assumption)
    | (rule start; assumption))+

lemma conn_inv_move:
  assumes "conn_inv s" and "conn_move s t"
  shows "conn_inv t"
proof -
  have wf: "link_wf s" and b: "backoffMs s \<in> backoffs" using assms(1) by (simp_all add: conn_inv_def)
  from assms(2) show ?thesis
  proof (cases rule: conn_move_cases)
    case same
    then show ?thesis
      using assms(1) by (auto simp: conn_inv_def same_link_def link_wf_def later_def intro: order.strict_trans2)
  next
    case up
    then show ?thesis by (simp add: conn_inv_def link_wf_def backoffs_def kBackoffInitialMs_def)
  next
    case (wait u)
    have "\<exists>j<tick t. \<exists>b\<in>backoffs. reconnectAtMs t = clock t j + b"
      using b by (intro exI [of _ "tick u"]) (auto simp: wait)
    with wait b show ?thesis by (simp add: conn_inv_def link_wf_def next_backoff_backoffs)
  next
    case (start u)
    have "\<exists>j<tick t. attemptStartedMs t = clock t j"
      by (intro exI [of _ "tick u"]) (simp add: start)
    with start b wf show ?thesis by (auto simp: conn_inv_def link_wf_def)
  qed
qed

lemma link_of_move:
  assumes "link_wf s" and "conn_move s t"
  shows "link_of t = link_of s \<or> link_step (link_of s) (link_of t)"
  using assms(2)
proof (cases rule: conn_move_cases)
  case same
  then show ?thesis by (simp add: same_link_def link_of_def)
next
  case up
  then show ?thesis by (simp add: link_of_def ls_up)
next
  case (wait u)
  then show ?thesis by (simp add: link_of_def ls_wait)
next
  case (start u)
  then show ?thesis using assms(1) by (auto simp: link_of_def link_wf_def ls_retry)
qed

lemma conn_inv_step:
  assumes "conn_inv s" and "router_step P s t"
  shows "conn_inv t" and "link_of t = link_of s \<or> link_step (link_of s) (link_of t)" and "later s t"
proof -
  have wf: "link_wf s" using assms(1) by (simp add: conn_inv_def)
  then have "\<not> uplinkReady s \<or> \<not> attemptActive s" by (auto simp: link_wf_def)
  with assms(2) have m: "conn_move s t" by (rule move_step)
  show "conn_inv t" using assms(1) m by (rule conn_inv_move)
  show "link_of t = link_of s \<or> link_step (link_of s) (link_of t)" using wf m by (rule link_of_move)
  show "later s t" using m by (simp add: conn_move_def)
qed

lemma setup_conn:
  fixes s0 :: "'a router_scheme"
  assumes "power_on s0"
  shows "conn_inv (setup_router P sec B s0)" and "link_of (setup_router P sec B s0) = (Attempting, kBackoffInitialMs)"
proof -
  let ?t = "setup_router P sec B s0"
  obtain u :: "'a router_scheme" where u: "?t = log_at ''STA connecting'' (startAttempt u)"
    "\<not> uplinkReady u" "\<not> reconnectPending u" "backoffMs u = kBackoffInitialMs"
    using assms by (simp add: setup_router_def power_on_def Let_def case_prod_beta)
  have "tick u < tick ?t" using startAttempt_time(2) [of u] by (simp add: u(1) less_SucI)
  then have "\<exists>j<tick ?t. attemptStartedMs ?t = clock ?t j"
    by (intro exI [of _ "tick u"]) (simp add: u(1))
  then show "conn_inv ?t"
    using u by (simp add: conn_inv_def link_wf_def backoffs_def kBackoffInitialMs_def)
  show "link_of ?t = (Attempting, kBackoffInitialMs)"
    using u by (simp add: link_of_def)
qed

interpretation conn: simulation "router_init P sec" "router_step P" conn_inv link_init link_step link_of
  for P sec
proof unfold_locales
  show "router_init P sec s \<Longrightarrow> conn_inv s" and "router_init P sec s \<Longrightarrow> link_init (link_of s)" for s
    by (auto simp: router_init_def link_init_def setup_conn)
  fix s t :: "'a router_scheme"
  assume "conn_inv s" and "router_step P s t"
  then show "conn_inv t" and "link_of t = link_of s \<or> link_step (link_of s) (link_of t)"
    by (rule conn_inv_step(1), rule conn_inv_step(2))
qed

inductive_simps link_step_to:
  "link_step a (Online, b)" "link_step a (Waiting, b)" "link_step a (Attempting, b)"

text \<open>What the machine says of single steps of the firmware: only a pending reconnect starts an
  attempt, and at its own backoff; an uplink or an attempt that ends leaves either an
  uplink or a pending reconnect, whose backoff has doubled up to its bound.\<close>

theorem link_transitions:
  fixes s t :: "'a router_scheme"
  assumes "reach (router_init P sec) (router_step P) s" and "router_step P s t"
  shows "(attemptActive t \<and> \<not> attemptActive s \<longrightarrow> reconnectPending s \<and> backoffMs t = backoffMs s) \<and>
    (reconnectPending t \<and> \<not> reconnectPending s \<longrightarrow> backoffMs t = min (2 * backoffMs s) 15000) \<and>
    (uplinkReady t \<and> \<not> uplinkReady s \<longrightarrow> backoffMs t = 2000)"
proof -
  have inv: "conn_inv s" using assms(1) by (rule conn.always)
  have wf: "link_wf s" "link_wf t"
    using inv conn_inv_step(1) [OF inv assms(2)] by (simp_all add: conn_inv_def)
  have "link_of t = link_of s \<or> link_step (link_of s) (link_of t)" using inv assms(2) by (rule conn_inv_step(2))
  with wf show ?thesis
    by (auto simp: link_step_to link_of_def link_wf_def next_backoff_def kBackoffMaxMs_def kBackoffInitialMs_def mult.commute
        split: if_splits)
qed

section \<open>Deadlines\<close>

lemma try_reconnect_exact:
  assumes "real_time T s" and "reconnectPending s" and "\<not> attemptActive s"
    and "reconnectAtMs s = of_nat d"
  shows "attemptActive (try_reconnect (s\<lparr>tick := k\<rparr>)) \<longleftrightarrow> d mod 2 ^ 32 \<le> T k mod 2 ^ 32"
proof -
  have "reconnectAtMs s \<le> clock s k \<longleftrightarrow> d mod 2 ^ 32 \<le> T k mod 2 ^ 32"
    using real_time_clock [OF assms(1), of k] assms(4) word_of_nat_le [of d "T k"] by simp
  then show ?thesis using assms(2,3) by (simp add: try_reconnect_def Let_def)
qed

lemma check_attempt_exact:
  assumes "real_time T s" and "attemptActive s"
    and "attemptStartedMs s = clock s i" and "i \<le> tick s" and "T (tick s) - T i < 2 ^ 32"
    and "lastDisconnectMs s = 0 \<or>
      lastDisconnectMs s = clock s j \<and> j \<le> tick s + 1 \<and> T (tick s + 1) - T j < 2 ^ 32"
  shows "attemptActive (check_attempt s) \<longleftrightarrow> T (tick s) - T i < 20000 \<and>
    (attemptAssociated s \<or> lastDisconnectMs s = 0 \<or> T (tick s + 1) - T j < 2000)"
    and "reconnectPending (check_attempt s) \<longleftrightarrow> reconnectPending s \<or> \<not> attemptActive (check_attempt s)"
proof -
  have "kAttemptTimeoutMs \<le> clock s (tick s) - attemptStartedMs s \<longleftrightarrow> 20000 \<le> T (tick s) - T i"
    using real_time_elapsed [OF assms(1,4,5), of kAttemptTimeoutMs] assms(3)
    by (simp add: kAttemptTimeoutMs_def)
  moreover have "lastDisconnectMs s = 0 \<or>
      (kAttemptQuietMs \<le> clock s (tick s + 1) - lastDisconnectMs s \<longleftrightarrow> 2000 \<le> T (tick s + 1) - T j)"
    using real_time_elapsed [OF assms(1), of j "tick s + 1" kAttemptQuietMs] assms(6)
    by (auto simp: kAttemptQuietMs_def)
  ultimately show "attemptActive (check_attempt s) \<longleftrightarrow> T (tick s) - T i < 20000 \<and>
      (attemptAssociated s \<or> lastDisconnectMs s = 0 \<or> T (tick s + 1) - T j < 2000)"
    and "reconnectPending (check_attempt s) \<longleftrightarrow> reconnectPending s \<or> \<not> attemptActive (check_attempt s)"
    using assms(2) by (auto simp: check_attempt_def Let_def not_less)
qed

lemma hard_timeout:
  assumes "real_time T s" and "attemptActive s" and "attemptStartedMs s = clock s i" and "i \<le> tick s"
    and "T i + 20000 \<le> T (tick s)" and "T (tick s) - T i < 2 ^ 32"
  shows "\<not> attemptActive (check_attempt s) \<and> reconnectPending (check_attempt s)"
proof -
  have "kAttemptTimeoutMs \<le> clock s (tick s) - attemptStartedMs s"
    using real_time_elapsed [OF assms(1,4,6), of kAttemptTimeoutMs] assms(3,5)
    by (simp add: kAttemptTimeoutMs_def)
  then show ?thesis using assms(2) by (auto simp: check_attempt_def Let_def)
qed

lemma backoffs_bound: "b \<in> backoffs \<Longrightarrow> 2000 \<le> unat b \<and> unat b \<le> 15000"
  by (auto simp: backoffs_def)

section \<open>Examples\<close>

definition router_demo :: router where
  "router_demo = portals.extend (portal_demo\<lparr>sup := SupNone, g_session := []\<rparr>)
     \<lparr>backoffMs = 2000, reconnectAtMs = 0, reconnectPending = False, uplinkReady = False,
      attemptActive = False, attemptStartedMs = 0, attemptAssociated = False, lastDisconnectMs = 0,
      radioStations = 0, radioChannel = 0, lastRadioPollMs = 0, clientIp = ip_unset, lastApAssocMs = 0,
      leaseSeen = False, softApFailed = False, lastChannel = - 1, lastBeatMs = 0, lastBeat = [],
      clientProbeable = False\<rparr>"

lemmas router_demo_fields = router_demo_def portals.defs portal_demo_def

lemma setup_clock_frames:
  "clock (log_printf m s) = clock s" "clock (portal_begin p) = clock p"
  "clock (watchdog_begin r ok w) = clock w" "clock (setBrightness b l) = clock l"
  "clock (led_begin l) = clock l" "clock (snd (softap_begin C a h)) = clock h" "clock (health_begin h) = clock h"
  by (simp_all add: log_printf_def portal_begin_def watchdog_begin_def markUplinkDown_def setBrightness_def
      led_begin_def led_write_def softap_begin_def applyDnsOffer_def health_begin_def Let_def split: option.split)

lemma setup_clock: "clock (setup_router P sec B s) = clock s"
  by (simp add: setup_router_def Let_def case_prod_beta setup_clock_frames)

lemma power_on_demo: "power_on router_demo"
  by (simp add: power_on_def router_demo_fields kBackoffInitialMs_def)

definition boot_demo :: boot_env where
  "boot_demo = \<lparr>reset_reason = ESP_RST_POWERON, task_ok = True, core_version = ''3.0'',
     ap_answers = \<lparr>begin_ok = True, config_ok = True, create_ok = True, started_ok = True, has_netif = True,
       nat_debug = None\<rparr>\<rparr>"

definition booted :: router where
  "booted = setup_router demo_plat demo_secrets boot_demo router_demo"

lemma reach_booted: "reach (router_init demo_plat demo_secrets) (router_step demo_plat) booted"
  unfolding booted_def by (rule reach_init) (use power_on_demo in \<open>auto simp: router_init_def\<close>)

section \<open>Properties\<close>

definition env_demo :: loop_env where
  "env_demo = \<lparr>request_in = None, fw = web_demo, drv = web_demo, log_snaps = (\<lambda>k. init_logbuf), napt_ok = True,
     ping_up = ping_good 7, ping_down = ping_good 8\<rparr>"

text \<open>C1. Under every interleaving of the loop's stages, the WiFi callback, the ping task, the
  supervisor and the log hook, exactly one of the three flags is set: the uplink is ready,
  an attempt is active, or a reconnect is pending. So the connection is never wedged without
  anything that would move it on. It moves as the three-state machine says: an address
  brings it up and resets the backoff, anything else makes it wait and doubles the backoff
  up to 15 seconds, and only a due reconnect starts an attempt.\<close>

theorem connection_refines:
  assumes "reach (router_init P sec) (router_step P) s"
  shows "link_wf s \<and> reach link_init link_step (link_of s) \<and>
    backoffMs s \<in> {2000, 4000, 8000, 15000}"
  using conn.always [OF assms] conn.simulated [OF assms] by (simp add: conn_inv_def backoffs_def)

theorem connection_refines_witness:
  "link_wf (router_loop demo_plat env_demo (onWiFiEvent dotted STA_LOST_IP booted))"
proof -
  have "codec demo_plat = dotted" by (simp add: demo_plat_def)
  then have "router_step demo_plat booted (onWiFiEvent dotted STA_LOST_IP booted)"
    using rs_event [of demo_plat booted STA_LOST_IP] by simp
  with reach_booted have "reach (router_init demo_plat demo_secrets) (router_step demo_plat)
      (onWiFiEvent dotted STA_LOST_IP booted)" by (rule reach_step)
  then have "reach (router_init demo_plat demo_secrets) (router_step demo_plat)
      (router_loop demo_plat env_demo (onWiFiEvent dotted STA_LOST_IP booted))" by (rule reach_loop)
  from connection_refines [OF this] show ?thesis by blast
qed

text \<open>The connection always makes progress: in every reachable state the uplink is ready,
  or the attempt in progress began at some earlier moment and the first check of it 20
  seconds or more later ends it and schedules a reconnect, or the pending reconnect was
  scheduled at some earlier moment and the first check 15 seconds or more later starts an
  attempt. (The reconnect as long as the counter has not rolled over.)\<close>

theorem connection_never_stalls:
  assumes "reach (router_init P sec) (router_step P) s" and "real_time T s"
  shows "uplinkReady s \<or>
    (attemptActive s \<and> (\<exists>j<tick s. \<forall>k\<ge>tick s. T j + 20000 \<le> T k \<and> T k - T j < 2 ^ 32 \<longrightarrow>
        \<not> attemptActive (check_attempt (s\<lparr>tick := k\<rparr>)) \<and> reconnectPending (check_attempt (s\<lparr>tick := k\<rparr>)))) \<or>
    (reconnectPending s \<and> (\<exists>j<tick s. \<forall>k\<ge>tick s. T j + 15000 \<le> T k \<and> T k < 2 ^ 32 \<longrightarrow>
        attemptActive (try_reconnect (s\<lparr>tick := k\<rparr>))))"
proof -
  have inv: "conn_inv s" using assms(1) by (rule conn.always)
  then consider "uplinkReady s" | "attemptActive s"
    | "reconnectPending s" "\<not> attemptActive s" by (auto simp: conn_inv_def link_wf_def)
  then show ?thesis
  proof cases
    case 2
    then obtain j where j: "j < tick s" "attemptStartedMs s = clock s j"
      using inv by (auto simp: conn_inv_def)
    have "\<not> attemptActive (check_attempt (s\<lparr>tick := k\<rparr>)) \<and> reconnectPending (check_attempt (s\<lparr>tick := k\<rparr>))"
      if "tick s \<le> k" "T j + 20000 \<le> T k" "T k - T j < 2 ^ 32" for k
      using hard_timeout [of T "s\<lparr>tick := k\<rparr>" j] assms(2) 2 j that by (simp add: real_time_def)
    with 2 j(1) show ?thesis by blast
  next
    case 3
    then obtain j b where j: "j < tick s" "b \<in> backoffs" "reconnectAtMs s = clock s j + b"
      using inv by (auto simp: conn_inv_def)
    then have d: "reconnectAtMs s = of_nat (T j + unat b)"
      using real_time_clock [OF assms(2)] by simp
    have "attemptActive (try_reconnect (s\<lparr>tick := k\<rparr>))" if "T j + 15000 \<le> T k" "T k < 2 ^ 32" for k
      using try_reconnect_exact [OF assms(2) 3 d, of k] backoffs_bound [OF j(2)] that by simp
    with 3 j(1) show ?thesis by blast
  qed simp
qed

theorem connection_never_stalls_witness:
  "real_time (\<lambda>k. 1000 * k) booted \<and> attemptActive booted \<and>
   (\<exists>j<tick booted. \<forall>k\<ge>tick booted. 1000 * j + 20000 \<le> 1000 * k \<and> 1000 * k - 1000 * j < 2 ^ 32 \<longrightarrow>
      \<not> attemptActive (check_attempt (booted\<lparr>tick := k\<rparr>)) \<and> reconnectPending (check_attempt (booted\<lparr>tick := k\<rparr>)))"
proof -
  have c: "clock booted = (\<lambda>k. of_nat (1000 * k))"
    by (simp add: booted_def setup_clock router_demo_fields)
  then have rt: "real_time (\<lambda>k. 1000 * k) booted" by (simp add: real_time_def monoI)
  have "\<not> uplinkReady booted" "attemptActive booted" "\<not> reconnectPending booted"
    using setup_conn [OF power_on_demo, of demo_plat demo_secrets boot_demo]
    by (auto simp: booted_def link_of_def conn_inv_def link_wf_def split: if_splits)
  then show ?thesis using connection_never_stalls [OF reach_booted rt] rt by simp
qed

text \<open>C10. An attempt is given up exactly when 20 seconds have passed since it began, or when
  the driver has reported a disconnect, has not associated since, and has been silent for
  two seconds; giving up schedules the next attempt.\<close>

theorem attempt_ends_exactly:
  assumes "real_time T s" and "attemptActive s"
    and "attemptStartedMs s = clock s i" and "i \<le> tick s" and "T (tick s) - T i < 2 ^ 32"
    and "lastDisconnectMs s = 0 \<or>
      lastDisconnectMs s = clock s j \<and> j \<le> tick s + 1 \<and> T (tick s + 1) - T j < 2 ^ 32"
  shows "(attemptActive (check_attempt s) \<longleftrightarrow> T (tick s) - T i < 20000 \<and>
      (attemptAssociated s \<or> lastDisconnectMs s = 0 \<or> T (tick s + 1) - T j < 2000)) \<and>
    (reconnectPending (check_attempt s) \<longleftrightarrow> reconnectPending s \<or> \<not> attemptActive (check_attempt s))"
  using check_attempt_exact [OF assms] by blast

theorem attempt_ends_exactly_witness:
  "let s = router_demo\<lparr>attemptActive := True, attemptStartedMs := 2000, lastDisconnectMs := 3000, tick := 4\<rparr>
   in \<not> attemptActive (check_attempt s) \<and> attemptActive (check_attempt (s\<lparr>attemptAssociated := True\<rparr>))"
proof -
  let ?s = "router_demo\<lparr>attemptActive := True, attemptStartedMs := 2000, lastDisconnectMs := 3000, tick := 4\<rparr>"
  have "real_time (\<lambda>k. 1000 * k) ?s" "real_time (\<lambda>k. 1000 * k) (?s\<lparr>attemptAssociated := True\<rparr>)"
    "clock router_demo = (\<lambda>k. of_nat (1000 * k))" "\<not> attemptAssociated router_demo"
    by (simp_all add: real_time_def monoI router_demo_fields)
  then show ?thesis
    using attempt_ends_exactly [of "\<lambda>k. 1000 * k" ?s 2 3]
      attempt_ends_exactly [of "\<lambda>k. 1000 * k" "?s\<lparr>attemptAssociated := True\<rparr>" 2 3] by simp
qed

lemma link_lost_time:
  assumes "attemptActive s"
  shows "\<exists>j<tick (link_lost s). tick s \<le> j \<and> j \<le> tick s + 1 \<and> tick (link_lost s) = Suc j \<and>
    lastDisconnectMs (link_lost s) = clock s j"
proof -
  define u where "u = (if napt_isEnabled s
    then log_at ''NAPT OFF (uplink lost)'' (napt_disable (s\<lparr>uplinkReady := False\<rparr>))
    else s\<lparr>uplinkReady := False\<rparr>)"
  have "link_lost s = u\<lparr>attemptAssociated := False, tick := Suc (tick u), lastDisconnectMs := clock s (tick u)\<rparr>"
    using assms by (simp add: link_lost_def Let_def napt_isEnabled_def u_def)
  moreover have "tick s \<le> tick u \<and> tick u \<le> tick s + 1"
    by (simp add: u_def napt_disable_def)
  ultimately show ?thesis by (intro exI [of _ "tick u"]) simp
qed

lemma startAttempt_tick: "tick (startAttempt s) \<le> tick s + 3"
  by (simp add: startAttempt_def uplink_begin_def Let_def)

text \<open>C40. Every attempt begins by tearing down whatever is in flight. If that raises a
  disconnect event, the event is recorded although the attempt ignores it otherwise, and the
  quiet rule counts from it: an attempt that has not associated two seconds after its own
  teardown is given up, long before its 20 seconds, and the backoff doubles.\<close>

theorem own_disconnect_ends_attempt:
  assumes "real_time T s" and "d = onWiFiEvent C STA_DISCONNECTED (startAttempt s)"
    and "lastDisconnectMs d \<noteq> 0" and "tick d \<le> k"
    and "T (tick d) + 2000 \<le> T (k + 1)" and "T (k + 1) - T 0 < 2 ^ 32"
  shows "\<not> attemptActive (check_attempt (d\<lparr>tick := k\<rparr>)) \<and>
    backoffMs (check_attempt (d\<lparr>tick := k\<rparr>)) = next_backoff (backoffMs s)"
proof -
  have c: "clock d = clock s"
    by (simp add: assms(2) link_lost_def napt_disable_def Let_def)
  have a: "attemptActive d" "\<not> attemptAssociated d" "backoffMs d = backoffMs s"
    by (simp_all add: assms(2) link_lost_def Let_def)
  obtain j where j: "lastDisconnectMs d = clock d j" "j < tick d"
    using link_lost_time [of "startAttempt s"] c by (auto simp: assms(2))
  have "T j \<le> T (tick d)" "T 0 \<le> T j"
    using j(2) real_time_mono [OF assms(1)] by simp_all
  moreover have "real_time T (d\<lparr>tick := k\<rparr>)" using assms(1) c by (simp add: real_time_def)
  ultimately have "kAttemptQuietMs \<le> clock d (Suc k) - lastDisconnectMs d"
    using real_time_elapsed [of T "d\<lparr>tick := k\<rparr>" j "Suc k" kAttemptQuietMs] assms(4-6) j
    by (simp add: kAttemptQuietMs_def)
  then show ?thesis
    using a assms(3) by (auto simp: check_attempt_def Let_def)
qed

theorem own_disconnect_ends_attempt_witness:
  "let d = onWiFiEvent dotted STA_DISCONNECTED (startAttempt router_demo)
   in \<not> attemptActive (check_attempt (d\<lparr>tick := 9\<rparr>)) \<and> attemptActive d"
proof -
  let ?d = "onWiFiEvent dotted STA_DISCONNECTED (startAttempt router_demo)"
  have rt: "real_time (\<lambda>k. 1000 * k) router_demo" and one: "tick router_demo = 1"
    by (simp_all add: real_time_def router_demo_fields monoI)
  obtain j where j: "1 \<le> j" "j \<le> 6" "tick ?d = Suc j" "lastDisconnectMs ?d = clock router_demo j"
    using link_lost_time [of "startAttempt router_demo"] startAttempt_tick [of router_demo]
      startAttempt_time(2) [of router_demo] one by auto
  have "clock router_demo j = of_nat (1000 * j)" using real_time_clock [OF rt] by simp
  moreover have "\<not> (of_nat (1000 * j) :: u32) \<le> of_nat 0"
    unfolding word_of_nat_le using j(1,2) by simp
  ultimately have "lastDisconnectMs ?d \<noteq> 0" using j(4) by auto
  moreover have "attemptActive ?d" by (simp add: link_lost_def Let_def)
  ultimately show ?thesis
    using own_disconnect_ends_attempt [OF rt refl, of dotted 9] j by (simp add: Let_def)
qed

text \<open>A recovery tears the uplink down and schedules the reconnect itself; the disconnect
  event of its own teardown then finds no attempt active and schedules once more, so the
  reconnect moves back and the backoff is doubled twice for one failure.\<close>

theorem recovery_schedules_twice:
  assumes "uplinkReady s" and "upstreamEverOk s" and "upstreamFailStreak s \<ge> kUplinkFailStreak"
  shows "reconnectPending (uplink_recovery s) \<and>
    backoffMs (uplink_recovery s) = next_backoff (backoffMs s) \<and>
    backoffMs (onWiFiEvent C STA_DISCONNECTED (uplink_recovery s)) = next_backoff (next_backoff (backoffMs s))"
proof -
  have "\<not> attemptActive (uplink_recovery s) \<and> backoffMs (uplink_recovery s) = next_backoff (backoffMs s)
      \<and> reconnectPending (uplink_recovery s)"
    using assms by (simp add: uplink_recovery_def Let_def)
  then show ?thesis by (simp add: link_lost_def Let_def)
qed

theorem recovery_schedules_twice_witness:
  "let s = router_demo\<lparr>uplinkReady := True, g_up := (init_probe [])\<lparr>everOk := True, failStreak := 3\<rparr>\<rparr>
   in backoffMs (uplink_recovery s) = 4000 \<and>
      backoffMs (onWiFiEvent dotted STA_DISCONNECTED (uplink_recovery s)) = 8000"
  using recovery_schedules_twice [of "router_demo\<lparr>uplinkReady := True,
      g_up := (init_probe [])\<lparr>everOk := True, failStreak := 3\<rparr>\<rparr>" dotted]
  by (simp add: upstreamEverOk_def upstreamFailStreak_def kUplinkFailStreak_def next_backoff_def
      kBackoffMaxMs_def router_demo_fields)

text \<open>The reconnect deadline is an absolute time on the 32-bit counter. If the counter
  rolls over before a check has seen the deadline, the reconnect is not due again until the
  counter comes round to it, up to 49.7 days later; only the supervisor, which reboots after
  five minutes without uplink, ends the wait.\<close>

theorem reconnect_lost_at_rollover:
  assumes "real_time T s" and "reconnectPending s" and "\<not> attemptActive s"
    and "reconnectAtMs s = of_nat d" and "d < 2 ^ 32" and "2 ^ 32 \<le> T k" and "T k < 2 ^ 32 + d"
  shows "\<not> attemptActive (try_reconnect (s\<lparr>tick := k\<rparr>))"
proof -
  have "T k mod 2 ^ 32 = T k - 2 ^ 32" using assms(5-7) by (simp add: mod_if)
  then show ?thesis using try_reconnect_exact [OF assms(1-4), of k] assms(5-7) by simp
qed

theorem reconnect_lost_at_rollover_witness:
  "\<not> attemptActive (try_reconnect (router_demo\<lparr>clock := (\<lambda>k. of_nat (1000000 * k)),
      reconnectPending := True, reconnectAtMs := 4294900000, tick := 8000\<rparr>))"
proof -
  let ?s = "router_demo\<lparr>clock := (\<lambda>k. of_nat (1000000 * k)), reconnectPending := True,
    reconnectAtMs := 4294900000\<rparr>"
  have "real_time (\<lambda>k. 1000000 * k) ?s" "\<not> attemptActive ?s"
    by (simp_all add: real_time_def monoI router_demo_fields)
  then show ?thesis
    using reconnect_lost_at_rollover [of "\<lambda>k. 1000000 * k" ?s 4294900000 8000] by simp
qed

end
