(* ===== verification/Policy.thy ===== *)
theory Policy
  imports Connection
begin

text \<open>
  What the loop does about the client side: when NAPT is on, the window it leaves to DHCP,
  which links recovery acts on and with what, and the status line.
\<close>

section \<open>NAPT\<close>

definition napt_wanted :: "bool \<Rightarrow> 'a router_scheme \<Rightarrow> bool" where
  "napt_wanted grace_over s \<longleftrightarrow> uplinkReady s \<and> radioStations s > 0 \<and>
     (leaseSeen s \<or> lastApAssocMs s \<noteq> 0 \<and> grace_over)"

definition grace_over :: "'a router_scheme \<Rightarrow> bool" where
  "grace_over s \<longleftrightarrow> kNaptLeaseGraceMs \<le> clock s (tick s) - lastApAssocMs s"

lemma leaseSettled_eq:
  "fst (leaseSettled s) \<longleftrightarrow> leaseSeen s \<or> lastApAssocMs s \<noteq> 0 \<and> grace_over s"
  "\<exists>n. snd (leaseSettled s) = s\<lparr>tick := n\<rparr>"
proof -
  show "fst (leaseSettled s) \<longleftrightarrow> leaseSeen s \<or> lastApAssocMs s \<noteq> 0 \<and> grace_over s"
    by (simp add: leaseSettled_def grace_over_def)
  have "snd (leaseSettled s) = s\<lparr>tick := tick (snd (leaseSettled s))\<rparr>"
    by (simp add: leaseSettled_def)
  then show "\<exists>n. snd (leaseSettled s) = s\<lparr>tick := n\<rparr>" ..
qed

text \<open>The code's test is the contract's \<open>drive\<close>, but for the line it logs.\<close>

lemma reconcile_eq:
  obtains n where
    "napt_isEnabled (reconcileNapt ok s) =
       napt_isEnabled (if napt_wanted (grace_over s) s = napt_isEnabled (s\<lparr>tick := n\<rparr>) then s\<lparr>tick := n\<rparr>
          else if napt_wanted (grace_over s) s then napt_enable ok (s\<lparr>tick := n\<rparr>)
          else napt_disable (s\<lparr>tick := n\<rparr>))"
proof -
  obtain n where n: "snd (leaseSettled s) = s\<lparr>tick := n\<rparr>" using leaseSettled_eq(2) by blast
  show ?thesis
    by (rule that [of n])
      (auto simp: reconcileNapt_def Let_def case_prod_beta n leaseSettled_eq(1) napt_wanted_def
        napt_isEnabled_def log_at_eq)
qed

lemma reconcile_result:
  "napt_isEnabled (reconcileNapt ok s) \<longleftrightarrow>
     napt_wanted (grace_over s) s \<and> (ok \<or> napt_isEnabled s)"
proof -
  obtain n where "napt_isEnabled (reconcileNapt ok s) =
       napt_isEnabled (if napt_wanted (grace_over s) s = napt_isEnabled (s\<lparr>tick := n\<rparr>) then s\<lparr>tick := n\<rparr>
          else if napt_wanted (grace_over s) s then napt_enable ok (s\<lparr>tick := n\<rparr>)
          else napt_disable (s\<lparr>tick := n\<rparr>))"
    using reconcile_eq [of ok s] .
  then show ?thesis unfolding napt.drive by (simp add: napt_isEnabled_def)
qed

section \<open>Properties\<close>

text \<open>C8. After each reconciliation NAPT is on exactly when it is wanted and the driver
  accepted it or it was on already; it is wanted when the uplink holds an address, a client
  is associated, and the client has a lease or has been associated for 8 seconds. No event
  has to arrive for this, and none that is missed can leave it wrong.\<close>

theorem napt_reconciled:
  assumes "real_time T s"
    and "lastApAssocMs s = 0 \<or> lastApAssocMs s = clock s j \<and> j \<le> tick s \<and> T (tick s) - T j < 2 ^ 32"
  shows "napt_isEnabled (reconcileNapt ok s) \<longleftrightarrow>
    uplinkReady s \<and> radioStations s > 0 \<and>
    (leaseSeen s \<or> lastApAssocMs s \<noteq> 0 \<and> 8000 \<le> T (tick s) - T j) \<and> (ok \<or> napt_isEnabled s)"
  using assms(2) real_time_elapsed [OF assms(1), of j "tick s" kNaptLeaseGraceMs]
  by (auto simp: reconcile_result napt_wanted_def grace_over_def kNaptLeaseGraceMs_def)

theorem napt_reconciled_witness:
  "napt_isEnabled (reconcileNapt True (router_demo\<lparr>uplinkReady := True, radioStations := 1,
     lastApAssocMs := 2000, tick := 10\<rparr>))"
proof -
  let ?s = "router_demo\<lparr>uplinkReady := True, radioStations := 1, lastApAssocMs := 2000, tick := 10\<rparr>"
  have "real_time (\<lambda>k. 1000 * k) ?s" "lastApAssocMs ?s = clock ?s 2"
    by (simp_all add: real_time_def monoI router_demo_fields)
  then show ?thesis using napt_reconciled [of "\<lambda>k. 1000 * k" ?s 2 True] by simp
qed

text \<open>A client that has just associated gets 8 seconds in which NAPT is off, so that the
  DHCP server can answer it, unless a lease is issued first; a lease lets NAPT on at once.\<close>

theorem dhcp_window:
  fixes s :: "'a router_scheme" and C :: ipcodec
  assumes "real_time T s" and "tick s + 2 \<le> k" and "T k - T (tick s + 1) < 8000"
  defines "s1 \<equiv> onWiFiEvent C AP_STACONNECTED s"
  shows "\<not> napt_isEnabled (reconcileNapt ok (s1\<lparr>tick := k\<rparr>)) \<and>
    (uplinkReady s \<and> radioStations s > 0 \<longrightarrow>
      napt_isEnabled (reconcileNapt True ((onWiFiEvent C (AP_STAIPASSIGNED ip) s1)\<lparr>tick := n\<rparr>)))"
proof -
  have s1: "lastApAssocMs s1 = clock s (tick s + 1)" "\<not> leaseSeen s1" "clock s1 = clock s"
    "uplinkReady s1 = uplinkReady s" "radioStations s1 = radioStations s"
    by (simp_all add: s1_def Let_def)
  have "\<not> grace_over (s1\<lparr>tick := k\<rparr>)"
    using real_time_elapsed [OF assms(1), of "tick s + 1" k kNaptLeaseGraceMs] assms(2,3) s1(1,3)
    by (simp add: grace_over_def kNaptLeaseGraceMs_def)
  then show ?thesis
    using s1 by (simp add: reconcile_result napt_wanted_def)
qed

theorem dhcp_window_witness:
  "let s = router_demo\<lparr>uplinkReady := True, radioStations := 1, s_enabled := True\<rparr>;
       s1 = onWiFiEvent dotted AP_STACONNECTED s
   in \<not> napt_isEnabled (reconcileNapt True (s1\<lparr>tick := 9\<rparr>))"
proof -
  let ?s = "router_demo\<lparr>uplinkReady := True, radioStations := 1, s_enabled := True\<rparr>"
  have "real_time (\<lambda>k. 1000 * k) ?s" "tick ?s = 1"
    by (simp_all add: real_time_def monoI router_demo_fields)
  then show ?thesis using dhcp_window [of "\<lambda>k. 1000 * k" ?s 9] by (simp add: Let_def)
qed

text \<open>Recovery acts on the uplink exactly when it holds an address, the gateway has
  answered a probe some time since the boot, and three or more rounds in a row have failed:
  it tears the connection down, forgets both streaks, so that the next recovery needs three
  more failed rounds, and schedules a reconnect. It deauthenticates the clients exactly
  when one is probed that has answered before and has failed three rounds. Otherwise
  neither does anything; in particular a gateway that drops ICMP by policy never
  triggers a reconnect.\<close>

theorem recovery_exact:
  "(if uplinkReady s \<and> everOk (g_up s) \<and> 3 \<le> failStreak (g_up s) then
      \<not> uplinkReady (uplink_recovery s) \<and> reconnectPending (uplink_recovery s) \<and>
      failStreak (g_up (uplink_recovery s)) = 0 \<and> failStreak (g_down (uplink_recovery s)) = 0 \<and>
      calls (uplink_recovery s) = calls s @ [StaDisconnect False False 0]
    else uplink_recovery s = s) \<and>
   (if clientProbeable s \<and> everOk (g_down s) \<and> 3 \<le> failStreak (g_down s) then
      failStreak (g_up (client_recovery s)) = 0 \<and> failStreak (g_down (client_recovery s)) = 0 \<and>
      calls (client_recovery s) = calls s @ [DeauthSta 0]
    else client_recovery s = s)"
proof -
  have g: "g_up (scheduleReconnect r) = g_up r" "g_down (scheduleReconnect r) = g_down r"
    "g_up (call c r) = g_up r" "g_down (call c r) = g_down r"
    "g_up (log_at m r) = g_up r" "g_down (log_at m r) = g_down r" for r :: "'a router_scheme" and c m
    by (simp_all add: scheduleReconnect_def call_def log_at_eq Let_def)
  show ?thesis
    by (simp add: uplink_recovery_def client_recovery_def upstreamEverOk_def upstreamFailStreak_def
        downstreamEverOk_def downstreamFailStreak_def kUplinkFailStreak_def kClientFailStreak_def
        resetStreaks_def Let_def g)
qed

text \<open>
  Rounds of the probe towards the gateway that get no reply, counted from a moment when the
  streak was zero. Between them anything may happen that leaves this probe alone.
\<close>

inductive silent_rounds :: "'a router_scheme \<Rightarrow> nat \<Rightarrow> 'a router_scheme \<Rightarrow> bool" for s where
  sr_start: "failStreak (g_up s) = 0 \<Longrightarrow> silent_rounds s 0 s"
| sr_other: "silent_rounds s n t \<Longrightarrow> g_up u = g_up t \<Longrightarrow> silent_rounds s n u"
| sr_round: "silent_rounds s n t \<Longrightarrow> round_due t \<Longrightarrow> uplinkReady t \<Longrightarrow> gw \<noteq> ip_unset \<Longrightarrow>
    new_handle au = Some h \<Longrightarrow> start_ok au \<Longrightarrow>
    silent_rounds s (Suc n) (probe_stage gw' au' ad' (onPingEnd slot_up (probe_stage gw au ad t)))"

lemma probe_stage_update:
  obtains b cl where "probe_stage gw au ad s = health_update (uplinkReady s) gw cl au ad (s\<lparr>clientProbeable := b\<rparr>)"
  by (rule that [of _ "radioStations s > 0 \<and> leaseSeen s"]) (simp add: probe_stage_def Let_def)

lemma silent_round:
  fixes t :: "'a router_scheme"
  assumes "round_due t" and "uplinkReady t" and "gw \<noteq> ip_unset" and "new_handle au = Some h" and "start_ok au"
  shows "unat (failStreak (g_up (probe_stage gw' au' ad' (onPingEnd slot_up (probe_stage gw au ad t)))))
      = min 255 (unat (failStreak (g_up t)) + 1)"
    and "everOk (g_up (probe_stage gw' au' ad' (onPingEnd slot_up (probe_stage gw au ad t)))) = everOk (g_up t)"
proof -
  obtain b cl where s1: "probe_stage gw au ad t = health_update True gw cl au ad (t\<lparr>clientProbeable := b\<rparr>)"
    using probe_stage_update [of gw au ad t] assms(2) by metis
  let ?s2 = "onPingEnd slot_up (probe_stage gw au ad t)"
  have "uplinkReady ?s2" using assms(2) by (simp add: s1)
  then obtain b' cl' where s3: "probe_stage gw' au' ad' ?s2
      = health_update True gw' cl' au' ad' (?s2\<lparr>clientProbeable := b'\<rparr>)"
    using probe_stage_update [of gw' au' ad' ?s2] by metis
  have due: "round_due (t\<lparr>clientProbeable := b\<rparr>)" using assms(1) by (simp add: round_due_def)
  note v = probe_round [OF due assms(3-5), of 0 "?s2\<lparr>clientProbeable := b'\<rparr>" cl ad gw' cl' au' ad']
  show "unat (failStreak (g_up (probe_stage gw' au' ad' ?s2))) = min 255 (unat (failStreak (g_up t)) + 1)"
    and "everOk (g_up (probe_stage gw' au' ad' ?s2)) = everOk (g_up t)"
    using v unfolding s3 unfolding s1 by (simp_all add: upstreamFailStreak_def upstreamEverOk_def)
qed

lemma silent_rounds_count:
  assumes "silent_rounds s n t"
  shows "unat (failStreak (g_up t)) = min 255 n \<and> everOk (g_up t) = everOk (g_up s)"
  using assms
proof induction
  case (sr_round n t gw au h gw' au' ad' ad)
  then show ?case using silent_round [OF sr_round(2-6), of gw' au' ad' ad] by simp
qed simp_all

text \<open>C9. Recovery tears the uplink down exactly after three silent rounds in a row, and only if
  the gateway has answered a probe before: then the connection is dropped, the streak starts
  again and a reconnect is scheduled. A gateway that drops ICMP by policy is never taken for
  a dead uplink, however many rounds it lets pass.\<close>

theorem dead_uplink_recovered:
  assumes "silent_rounds s n t" and "uplinkReady t"
  shows "(if everOk (g_up s) \<and> 3 \<le> n then
      calls (uplink_recovery t) = calls t @ [StaDisconnect False False 0] \<and>
      \<not> uplinkReady (uplink_recovery t) \<and> reconnectPending (uplink_recovery t) \<and>
      silent_rounds (uplink_recovery t) 0 (uplink_recovery t)
    else uplink_recovery t = t)"
proof -
  have "3 \<le> failStreak (g_up t) \<longleftrightarrow> 3 \<le> n" and "everOk (g_up t) = everOk (g_up s)"
    using silent_rounds_count [OF assms(1)] by (auto simp: word_le_nat_alt)
  then show ?thesis
    using recovery_exact [of t] assms(2) by (auto intro: sr_start)
qed

text \<open>An example of such a round, made from the probe of any state.\<close>

definition silent_demo :: "probe \<Rightarrow> router" where
  "silent_demo p = router_demo\<lparr>uplinkReady := True, g_up := p\<rparr>"

lemma silent_demo_round:
  fixes p :: probe
  assumes "\<not> running p" and "failStreak p < 255"
  defines "r \<equiv> probe_stage (IP 10 0 0 1) (ping_good 9) (ping_good 10)
    (onPingEnd slot_up (probe_stage (IP 10 0 0 1) (ping_good 7) (ping_good 8) (silent_demo p)))"
  shows "round_due (silent_demo p)" and "\<not> running (g_up r)"
    and "failStreak (g_up r) = failStreak p + 1"
  using assms(1,2)
  by (simp_all add: r_def silent_demo_def round_due_def probe_stage_def health_update_def health_round_def
      harvest_def startProbe_def onPingEnd_def ping_good_def init_probe_def call_def log_at_eq
      kRoundIntervalMs_def router_demo_fields Let_def)

lemma silent_demo_next:
  assumes "silent_rounds s n (silent_demo p)" and "\<not> running p" and "failStreak p < 255"
  shows "\<exists>q. silent_rounds s (Suc n) (silent_demo q) \<and> \<not> running q \<and> failStreak q = failStreak p + 1"
proof -
  let ?r = "probe_stage (IP 10 0 0 1) (ping_good 9) (ping_good 10)
    (onPingEnd slot_up (probe_stage (IP 10 0 0 1) (ping_good 7) (ping_good 8) (silent_demo p)))"
  note r = silent_demo_round [OF assms(2,3)]
  have "silent_rounds s (Suc n) ?r"
    by (rule sr_round [OF assms(1) r(1)]) (simp_all add: silent_demo_def ping_good_def)
  then have "silent_rounds s (Suc n) (silent_demo (g_up ?r))"
    by (rule sr_other) (simp add: silent_demo_def)
  then show ?thesis using r(2,3) by blast
qed

theorem dead_uplink_recovered_witness:
  "\<exists>t. calls (uplink_recovery t) = calls t @ [StaDisconnect False False 0] \<and>
     silent_rounds (silent_demo ((init_probe [])\<lparr>everOk := True\<rparr>)) 3 t"
proof -
  let ?p = "(init_probe [])\<lparr>everOk := True\<rparr>"
  have p: "\<not> running ?p" "failStreak ?p = 0" by (simp_all add: init_probe_def)
  have small: "(0::u8) < 255" "(1::u8) < 255" "(2::u8) < 255" by (simp_all add: word_less_nat_alt)
  have "silent_rounds (silent_demo ?p) 0 (silent_demo ?p)"
    by (rule sr_start) (simp add: silent_demo_def init_probe_def)
  then obtain q where q: "silent_rounds (silent_demo ?p) 1 (silent_demo q)" "\<not> running q" "failStreak q = 1"
    using silent_demo_next [of "silent_demo ?p" 0 ?p] p small by auto
  then obtain u where u: "silent_rounds (silent_demo ?p) 2 (silent_demo u)" "\<not> running u" "failStreak u = 2"
    using silent_demo_next [OF q(1,2)] q(3) small by (auto simp: numeral_2_eq_2)
  then obtain v where v: "silent_rounds (silent_demo ?p) 3 (silent_demo v)"
    using silent_demo_next [OF u(1,2)] u(3) small by (auto simp: numeral_3_eq_3 numeral_2_eq_2)
  have "uplinkReady (silent_demo v)" "everOk (g_up (silent_demo ?p))" by (simp_all add: silent_demo_def)
  with v show ?thesis using dead_uplink_recovered [OF v] by auto
qed

lemma event_probes:
  "g_up (onWiFiEvent C ev s) = g_up s" "g_down (onWiFiEvent C ev s) = g_down s"
proof -
  have g: "g_up (scheduleReconnect r) = g_up r" "g_down (scheduleReconnect r) = g_down r"
    "g_up (napt_disable r) = g_up r" "g_down (napt_disable r) = g_down r"
    "g_up (log_at m r) = g_up r" "g_down (log_at m r) = g_down r"
    "g_up (log_printf m r) = g_up r" "g_down (log_printf m r) = g_down r" for r :: "'a router_scheme" and m
    by (simp_all add: scheduleReconnect_def log_printf_def napt_disable_def call_def log_at_eq Let_def)
  show "g_up (onWiFiEvent C ev s) = g_up s" "g_down (onWiFiEvent C ev s) = g_down s"
    by (cases ev; simp add: link_lost_def g Let_def)+
qed

text \<open>The history of the downstream probe belongs to no client: it survives the last client
  leaving and the next one joining. So a client that has just taken its lease, and was never
  probed before, is deauthenticated by its first failed round when the client before it
  had failed two.\<close>

theorem new_client_inherits_history:
  fixes s v :: "'a router_scheme" and C :: ipcodec and ip :: ipaddr
  assumes "everOk (g_down s)" and "failStreak (g_down s) = 2"
  defines "t \<equiv> fold (onWiFiEvent C) [AP_STADISCONNECTED 0, AP_STACONNECTED, AP_STAIPASSIGNED ip] s"
  assumes "g_down v = (g_down t)\<lparr>p_handle := Some h, replies := 0, running := True, finished := True\<rparr>"
    and "radioStations v > 0" and "leaseSeen v"
  shows "clientIp t = ip \<and> leaseSeen t \<and> downstreamFailStreak t = 2 \<and> downstreamEverOk t \<and>
    DeauthSta 0 \<in> set (calls (client_recovery (probe_stage gw au ad v)))"
proof -
  have gt: "g_down t = g_down s" by (simp add: t_def event_probes del: onWiFiEvent.simps)
  have lt: "clientIp t = ip" "leaseSeen t" by (simp_all add: t_def)
  let ?v = "v\<lparr>clientProbeable := radioStations v > 0 \<and> leaseSeen v\<rparr>"
  let ?w = "probe_stage gw au ad v"
  have run: "g_down (harvest slot_up ?v) = (g_down s)\<lparr>p_handle := Some h, replies := 0, running := True, finished := True\<rparr>"
    using assms(4) gt by simp
  have "failStreak (g_down ?w) = 3" "everOk (g_down ?w)" "clientProbeable ?w"
    using run assms(1,2,5,6) down.harvest_verdict [of "harvest slot_up ?v"]
    by (simp_all add: probe_stage_def Let_def update_keeps)
  then show ?thesis
    using assms(1,2) gt lt
    by (simp add: client_recovery_def downstreamEverOk_def downstreamFailStreak_def kClientFailStreak_def Let_def)
qed

theorem new_client_inherits_history_witness:
  "let s = router_demo\<lparr>g_down := (init_probe [])\<lparr>everOk := True, failStreak := 2\<rparr>\<rparr>;
       v = router_demo\<lparr>radioStations := 1, leaseSeen := True,
         g_down := (init_probe [])\<lparr>everOk := True, failStreak := 2, p_handle := Some 7,
           replies := 0, running := True, finished := True\<rparr>\<rparr>
   in DeauthSta 0 \<in> set (calls (client_recovery (probe_stage (IP 10 0 0 1) (ping_good 8) (ping_good 9) v)))"
proof -
  let ?s = "router_demo\<lparr>g_down := (init_probe [])\<lparr>everOk := True, failStreak := 2\<rparr>\<rparr>"
  let ?v = "router_demo\<lparr>radioStations := 1, leaseSeen := True,
         g_down := (init_probe [])\<lparr>everOk := True, failStreak := 2, p_handle := Some 7,
           replies := 0, running := True, finished := True\<rparr>\<rparr>"
  have "g_down (fold (onWiFiEvent dotted) [AP_STADISCONNECTED 0, AP_STACONNECTED,
      AP_STAIPASSIGNED (IP 192 168 5 2)] ?s) = g_down ?s"
    by (simp add: event_probes del: onWiFiEvent.simps)
  then show ?thesis
    using new_client_inherits_history [where s = ?s and v = ?v and C = dotted and ip = "IP 192 168 5 2" and h = 7]
    by (simp add: init_probe_def Let_def)
qed

section \<open>The status line\<close>

text \<open>The status line is logged at the first check after boot that records a nonzero time,
  whenever it differs from the last one logged, and otherwise once ten minutes have passed;
  in between the log ring is left to other lines. The signal strength is not part of the
  comparison.\<close>

theorem heartbeat_exact:
  assumes "real_time T s"
    and "lastBeatMs s = 0 \<or> lastBeatMs s = clock s j \<and> j \<le> tick s \<and> T (tick s) - T j < 2 ^ 32"
  shows "(if lastBeatMs s = 0 \<or> beat_line s \<noteq> lastBeat s \<or> 600000 \<le> T (tick s) - T j
    then length (serial (heartbeat rssi s)) = Suc (length (serial s)) \<and> lastBeat (heartbeat rssi s) = beat_line s
    else serial (heartbeat rssi s) = serial s \<and> log_ring (heartbeat rssi s) = log_ring s)"
proof -
  have "lastBeatMs s = 0 \<or> (kIdleBeatMs \<le> clock s (tick s) - lastBeatMs s \<longleftrightarrow> 600000 \<le> T (tick s) - T j)"
    using assms(2) real_time_elapsed [OF assms(1), of j "tick s" kIdleBeatMs] by (auto simp: kIdleBeatMs_def)
  then show ?thesis by (auto simp: heartbeat_def Let_def log_at_eq)
qed

theorem heartbeat_exact_witness:
  "let s = router_demo\<lparr>lastBeatMs := 1000, lastBeat := beat_line router_demo, tick := 2\<rparr>
   in serial (heartbeat (- 60) s) = serial s"
proof -
  let ?s = "router_demo\<lparr>lastBeatMs := 1000, lastBeat := beat_line router_demo, tick := 2\<rparr>"
  have "real_time (\<lambda>k. 1000 * k) ?s" "lastBeatMs ?s = clock ?s 1"
    by (simp_all add: real_time_def monoI router_demo_fields)
  moreover have "beat_line ?s = lastBeat ?s"
    by (simp add: beat_line_def napt_isEnabled_def upstream_def downstream_def)
  ultimately show ?thesis using heartbeat_exact [of "\<lambda>k. 1000 * k" ?s 1 "- 60"] by (simp add: Let_def)
qed

end
