(* ===== verification/Firmware.thy ===== *)
theory Firmware
  imports Policy
begin

text \<open>
  The whole firmware and the hardware it drives: under every interleaving the ping API is
  used as it must be, the cache of the status LED is right, and the NAPT flag never claims
  what the driver was not told. Most operations concern none of the three; they are
  \<open>quiet\<close>, and one lemma covers them.
\<close>

section \<open>Calls that concern no tracked device\<close>

fun plain_call :: "dev_call \<Rightarrow> bool" where
  "plain_call (PingNew _ _) = False"
| "plain_call (PingStart _) = False"
| "plain_call (PingStop _) = False"
| "plain_call (PingDelete _) = False"
| "plain_call (RgbWrite _ _ _ _) = False"
| "plain_call (EnableNapt _) = False"
| "plain_call _ = True"

lemma plain_calls:
  assumes "list_all plain_call cs"
  shows "sess M (xs @ cs) = sess M xs" and "shown_after c (xs @ cs) = shown_after c xs"
    and "driver_napt b (xs @ cs) = driver_napt b xs"
proof -
  have "sess M cs = Some M" for M
    using assms by (induction M cs rule: sess.induct) auto
  then show "sess M (xs @ cs) = sess M xs" by (simp add: sess_append)
  have "shown_after c cs = c" for c
    using assms by (induction c cs rule: shown_after.induct) auto
  then show "shown_after c (xs @ cs) = shown_after c xs" by (simp add: shown_after_append)
  have "driver_napt b cs = b" for b
    using assms by (induction b cs rule: driver_napt.induct) auto
  then show "driver_napt b (xs @ cs) = driver_napt b xs" by (simp add: driver_napt_append)
qed

lemma ping_calls:
  assumes "list_all ping_call cs"
  shows "shown_after c (xs @ cs) = shown_after c xs" and "driver_napt b (xs @ cs) = driver_napt b xs"
proof -
  have "shown_after c cs = c" for c
    using assms by (induction c cs rule: shown_after.induct) auto
  then show "shown_after c (xs @ cs) = shown_after c xs" by (simp add: shown_after_append)
  have "driver_napt b cs = b" for b
    using assms by (induction b cs rule: driver_napt.induct) auto
  then show "driver_napt b (xs @ cs) = driver_napt b xs" by (simp add: driver_napt_append)
qed

section \<open>The devices\<close>

definition hw_ok :: "'a healths_scheme \<Rightarrow> bool" where
  "hw_ok s \<longleftrightarrow> health_ok s \<and> led_sync s \<and> (s_enabled s \<longrightarrow> driver_napt False (calls s))"

definition devices :: "'a healths_scheme \<Rightarrow> probe \<times> probe \<times> int \<times> bool" where
  "devices s = (g_up s, g_down s, lastWrittenPacked s, s_enabled s)"

definition quiet :: "'a healths_scheme \<Rightarrow> 'a healths_scheme \<Rightarrow> bool" where
  "quiet s t \<longleftrightarrow> devices t = devices s \<and> (\<exists>cs. calls t = calls s @ cs \<and> list_all plain_call cs)"

lemma hw_quiet: "quiet s t \<Longrightarrow> hw_ok s \<Longrightarrow> hw_ok t"
  unfolding quiet_def hw_ok_def health_ok_def led_sync_def shown_def devices_def
  by (elim conjE exE) (simp add: plain_calls)

lemma quiet_refl [simp]: "quiet s s"
  by (simp add: quiet_def)

lemma quiet_trans: "quiet s t \<Longrightarrow> quiet t u \<Longrightarrow> quiet s u"
  by (fastforce simp: quiet_def)

lemma quiet_same: "devices t = devices s \<Longrightarrow> calls t = calls s \<Longrightarrow> quiet s t"
  by (simp add: quiet_def)

lemma devices_io [simp]:
  "devices (log_at m s) = devices s" "devices (log_printf m s) = devices s" "devices (call c s) = devices s"
  "devices (s\<lparr>tick := n\<rparr>) = devices s"
  by (simp_all add: devices_def log_at_eq log_printf_def call_def Let_def)

lemma calls_printf [simp]: "calls (log_printf m s) = calls s"
  by (simp add: log_printf_def Let_def)

section \<open>Quiet operations\<close>

lemma quiet_watchdog:
  "quiet s (watchdog_update u s)" "quiet s (supervisor_step s)" "quiet s (hookVprintf n txt s)"
proof -
  have upd: "devices (s\<lparr>g_lastLoopMs := a\<rparr>) = devices s" "devices (s\<lparr>g_uplinkDownSinceMs := b\<rparr>) = devices s"
    "devices (s\<lparr>sup := p\<rparr>) = devices s" for s :: "'a healths_scheme" and a b p
    by (simp_all add: devices_def)
  show "quiet s (watchdog_update u s)"
    by (rule quiet_same) (simp_all add: watchdog_update_def markUplinkDown_def upd Let_def)
  show "quiet s (hookVprintf n txt s)"
    by (rule quiet_same) (simp_all add: hookVprintf_def devices_def Let_def)
  show "quiet s (supervisor_step s)"
    by (simp add: supervisor_step_def sup_wake_def sup_check_loop_def sup_check_uplink_def
        reboot_def quiet_def upd Let_def split: sup_pc.split)
qed

lemma quiet_response:
  fixes s :: "'a portals_scheme"
  shows "devices (send c ty b s) = devices s" and "devices (noStore s) = devices s"
    and "devices (redirect p s) = devices s" and "devices (sendConfig P e m s) = devices s"
    and "devices (snd (isAuthed rq s)) = devices s"
    and "devices (snd (speed_blocks e target start i cnt s)) = devices s"
  using speed_blocks_state [of e target start i cnt s]
  by (auto simp: devices_def response_defs sendConfig_def isAuthed_eq)

lemma devices_handle: "devices (handle P e ls r rq s) = devices s"
proof -
  have upd: "devices (s\<lparr>out_headers := h\<rparr>) = devices s" "devices (s\<lparr>g_session := x\<rparr>) = devices s"
    "devices (s\<lparr>g_sessionExpiryMs := a\<rparr>) = devices s" "devices (s\<lparr>cfg := c\<rparr>) = devices s"
    "devices (s\<lparr>nvs := n\<rparr>) = devices s" "devices (s\<lparr>g_rebootAtMs := a\<rparr>) = devices s"
    "devices (s\<lparr>streamed := l\<rparr>) = devices s" "devices (s\<lparr>g_speedBytes := a\<rparr>) = devices s"
    "devices (s\<lparr>g_speedMs := a\<rparr>) = devices s"
    for s :: "'a portals_scheme" and h x a c n l
    by (simp_all add: devices_def)
  show ?thesis
    by (cases r; simp add: handler_defs handleNotFound_def sendLogin_def sendHeader_def guarded_frame
        quiet_response upd case_prod_beta Let_def split: sum.split prod.split)
qed

lemma calls_handle: "calls (handle P e ls r rq s) = calls s"
  by (cases r; simp add: handler_defs handleNotFound_def sendLogin_def sendHeader_def guarded_frame
      case_prod_beta Let_def split: sum.split prod.split)

lemma quiet_portal: "quiet s (portal_loop P e ls rqo s)"
proof -
  have "devices (s\<lparr>rebooted := x\<rparr>) = devices s" for s :: "'a portals_scheme" and x
    by (simp add: devices_def)
  then show ?thesis
    by (simp add: quiet_def portal_loop_def dispatch_def devices_handle calls_handle Let_def
        split: option.split)
qed

lemma devices_router [simp]:
  fixes s :: "'a router_scheme"
  shows "devices (s\<lparr>reconnectAtMs := w\<rparr>) = devices s" and "devices (s\<lparr>reconnectPending := b\<rparr>) = devices s"
    and "devices (s\<lparr>backoffMs := w\<rparr>) = devices s" and "devices (s\<lparr>uplinkReady := b\<rparr>) = devices s"
    and "devices (s\<lparr>attemptActive := b\<rparr>) = devices s" and "devices (s\<lparr>attemptStartedMs := w\<rparr>) = devices s"
    and "devices (s\<lparr>attemptAssociated := b\<rparr>) = devices s" and "devices (s\<lparr>lastDisconnectMs := w\<rparr>) = devices s"
    and "devices (s\<lparr>radioStations := x\<rparr>) = devices s" and "devices (s\<lparr>radioChannel := i\<rparr>) = devices s"
    and "devices (s\<lparr>lastRadioPollMs := w\<rparr>) = devices s" and "devices (s\<lparr>clientIp := ip\<rparr>) = devices s"
    and "devices (s\<lparr>lastApAssocMs := w\<rparr>) = devices s" and "devices (s\<lparr>leaseSeen := b\<rparr>) = devices s"
    and "devices (s\<lparr>lastChannel := i\<rparr>) = devices s" and "devices (s\<lparr>lastBeatMs := w\<rparr>) = devices s"
    and "devices (s\<lparr>lastBeat := str\<rparr>) = devices s" and "devices (s\<lparr>clientProbeable := b\<rparr>) = devices s"
    and "devices (s\<lparr>softApFailed := b\<rparr>) = devices s"
  by (simp_all add: devices_def)

lemma quiet_uplink: "quiet s (uplink_begin s)"
  by (simp add: quiet_def uplink_begin_def Let_def)

lemma quiet_schedule: "quiet s (scheduleReconnect s)"
  by (simp add: quiet_def scheduleReconnect_def Let_def)

lemma quiet_start: "quiet s (startAttempt s)"
  unfolding startAttempt_def Let_def case_millis
  by (rule quiet_trans [OF _ quiet_uplink]) (simp add: quiet_def)

lemma quiet_stage:
  "quiet s (pollRadio e s)" "quiet s (channel_watch s)" "quiet s (heartbeat rssi s)"
  by (simp_all add: quiet_def pollRadio_def channel_watch_def heartbeat_def Let_def)

lemma devices_schedule [simp]:
  "devices (scheduleReconnect s) = devices s" "devices (startAttempt s) = devices s"
  using quiet_schedule [of s] quiet_start [of s] by (simp_all add: quiet_def)

lemma quiet_attempt: "quiet s (check_attempt s)" "quiet s (try_reconnect s)"
proof -
  show "quiet s (check_attempt s)"
    by (simp add: quiet_def check_attempt_def Let_def)
  show "quiet s (try_reconnect s)"
  proof (cases "reconnectPending s \<and> reconnectAtMs s \<le> clock s (tick s)")
    case True
    then show ?thesis
      by (simp add: try_reconnect_due) (rule quiet_trans [OF _ quiet_start], simp add: quiet_def)
  next
    case False
    then show ?thesis by (auto simp: try_reconnect_def quiet_def)
  qed
qed

section \<open>The operations that drive a device\<close>

lemma hw_record [simp]: "hw_ok (s\<lparr>tick := n\<rparr>) = hw_ok s"
  by (simp add: hw_ok_def)

lemma hw_log: "hw_ok s \<Longrightarrow> hw_ok (log_at m s)"
  by (rule hw_quiet [of s]) (simp_all add: quiet_def)

lemma hw_call: "plain_call c \<Longrightarrow> hw_ok s \<Longrightarrow> hw_ok (call c s)"
  by (rule hw_quiet [of s]) (simp_all add: quiet_def)

lemma hw_router:
  fixes s t :: "'a healths_scheme"
  shows "devices t = devices s \<Longrightarrow> calls t = calls s \<Longrightarrow> hw_ok s \<Longrightarrow> hw_ok t"
  using hw_quiet quiet_same by blast

lemma napt_devices:
  "g_up (napt_enable ok s) = g_up s" "g_down (napt_enable ok s) = g_down s"
  "g_up (napt_disable s) = g_up s" "g_down (napt_disable s) = g_down s"
  "lastWrittenPacked (napt_enable ok s) = lastWrittenPacked s"
  "lastWrittenPacked (napt_disable s) = lastWrittenPacked s"
  by (simp_all add: napt_enable_def napt_disable_def call_def log_at_eq Let_def)

lemma napt_calls:
  "calls (napt_enable ok s) = (if s_enabled s then calls s else calls s @ [EnableNapt True])"
  "calls (napt_disable s) = (if s_enabled s then calls s @ [EnableNapt False] else calls s)"
  by (simp_all add: napt_enable_def napt_disable_def Let_def)

lemma hw_napt:
  fixes s :: "'a healths_scheme"
  assumes "hw_ok s"
  shows "hw_ok (napt_enable ok s)" and "hw_ok (napt_disable s)"
proof -
  have e: "s_enabled (napt_enable ok s) \<longleftrightarrow> s_enabled s \<or> ok" "\<not> s_enabled (napt_disable s)"
    using napt.on_enable [of ok s] napt.off_disable [of s] by (simp_all add: napt_isEnabled_def)
  show "hw_ok (napt_enable ok s)" "hw_ok (napt_disable s)"
    using assms
    by (auto simp: hw_ok_def health_ok_def led_sync_def shown_def napt_devices napt_calls e
        sess_append shown_after_append driver_napt_append)
qed

lemma hw_reconcile:
  fixes s :: "'a router_scheme"
  assumes "hw_ok s"
  shows "hw_ok (reconcileNapt ok s)"
proof -
  obtain n where n: "snd (leaseSettled s) = s\<lparr>tick := n\<rparr>" using leaseSettled_eq(2) by blast
  have "hw_ok (s\<lparr>tick := n\<rparr>)" using assms by simp
  from hw_napt [OF this] this show ?thesis
    by (simp add: reconcileNapt_def case_prod_beta n hw_log Let_def)
qed

lemma hw_link_lost:
  fixes s :: "'a router_scheme"
  assumes "hw_ok s"
  shows "hw_ok (link_lost s)"
proof -
  have "hw_ok (s\<lparr>uplinkReady := False\<rparr>)" by (rule hw_router [OF _ _ assms]) simp_all
  note lost = hw_napt(2) [OF this] this
  define u where "u = (if napt_isEnabled s
    then log_at ''NAPT OFF (uplink lost)'' (napt_disable (s\<lparr>uplinkReady := False\<rparr>))
    else s\<lparr>uplinkReady := False\<rparr>)"
  define v where "v = u\<lparr>attemptAssociated := False, tick := Suc (tick u), lastDisconnectMs := clock s (tick u)\<rparr>"
  have "hw_ok u" using lost by (simp add: u_def hw_log)
  then have v: "hw_ok v" by (rule hw_router [rotated 2]) (simp_all add: v_def)
  have "link_lost s = (if attemptActive s then v else scheduleReconnect v)"
    by (simp add: link_lost_def Let_def napt_isEnabled_def u_def v_def)
  then show ?thesis using v hw_quiet [OF quiet_schedule v] by simp
qed

lemma hw_event:
  fixes s :: "'a router_scheme"
  assumes "hw_ok s"
  shows "hw_ok (onWiFiEvent C ev s)"
proof (cases ev)
  case STA_DISCONNECTED
  then show ?thesis using assms hw_link_lost by simp
next
  case STA_LOST_IP
  then show ?thesis using assms hw_link_lost by simp
qed (use assms in \<open>simp_all add: hw_router [where s = s] Let_def\<close>)

lemma health_update_leds:
  "lastWrittenPacked (health_update u gw cl au ad s) = lastWrittenPacked s"
  "s_enabled (health_update u gw cl au ad s) = s_enabled s"
proof -
  have h: "lastWrittenPacked (harvest slot_up s) = lastWrittenPacked s" "s_enabled (harvest slot_up s) = s_enabled s"
    "lastWrittenPacked (harvest slot_down s) = lastWrittenPacked s" "s_enabled (harvest slot_down s) = s_enabled s"
    for s :: "'a healths_scheme"
    by (simp_all add: harvest_def call_def log_at_eq Let_def)
  have p: "lastWrittenPacked (startProbe slot_up t a s) = lastWrittenPacked s"
    "s_enabled (startProbe slot_up t a s) = s_enabled s"
    "lastWrittenPacked (startProbe slot_down t a s) = lastWrittenPacked s"
    "s_enabled (startProbe slot_down t a s) = s_enabled s" for t a and s :: "'a healths_scheme"
    by (simp_all add: startProbe_def call_def Let_def split: option.split)
  show "lastWrittenPacked (health_update u gw cl au ad s) = lastWrittenPacked s"
    "s_enabled (health_update u gw cl au ad s) = s_enabled s"
    by (simp_all add: health_update_def health_round_def h p Let_def)
qed

definition pings_only :: "'a io_scheme \<Rightarrow> 'a io_scheme \<Rightarrow> bool" where
  "pings_only s t \<longleftrightarrow> (\<exists>cs. calls t = calls s @ cs \<and> list_all ping_call cs)"

lemma pings_trans: "pings_only s t \<Longrightarrow> pings_only t u \<Longrightarrow> pings_only s u"
  by (fastforce simp: pings_only_def)

lemma pings_harvest:
  fixes s :: "'a healths_scheme"
  shows "pings_only s (harvest slot_up s)" and "pings_only s (harvest slot_down s)"
  using up.harvest_pending [of s] up.harvest_verdict(6) [of s]
    down.harvest_pending [of s] down.harvest_verdict(6) [of s]
  by (fastforce simp: pings_only_def)+

lemma pings_start:
  fixes s :: "'a healths_scheme"
  shows "pings_only s (startProbe slot_up t a s)" and "pings_only s (startProbe slot_down t a s)"
  by (simp_all add: startProbe_def pings_only_def Let_def split: option.split)

lemma pings_round:
  fixes s :: "'a healths_scheme"
  shows "pings_only s (health_round gw cl au ad s)"
proof -
  let ?s = "s\<lparr>tick := Suc (tick s), g_lastRoundMs := clock s (tick s)\<rparr>"
  have z: "pings_only s ?s" "pings_only s s" by (simp_all add: pings_only_def)
  have "pings_only s (if u32_of_ip gw \<noteq> 0 then startProbe slot_up gw au ?s else ?s)" (is "pings_only s ?t")
    using z(1) pings_trans [OF z(1) pings_start(1)] by simp
  moreover from this have "pings_only s (startProbe slot_down cl ad ?t)"
    by (rule pings_trans) (rule pings_start)
  ultimately show ?thesis
    using z(2) by (simp add: health_round_def Let_def)
qed

lemma pings_update:
  fixes s :: "'a healths_scheme"
  shows "pings_only s (health_update u gw cl au ad s)"
proof -
  let ?h = "harvest slot_down (harvest slot_up s)"
  have h: "pings_only s ?h" by (rule pings_trans [OF pings_harvest(1) pings_harvest(2)])
  have t: "pings_only s (?h\<lparr>tick := n\<rparr>)" "pings_only s (?h\<lparr>g_up := p\<rparr>)" for n p
    using h by (simp_all add: pings_only_def)
  show ?thesis
    using t pings_trans [OF h pings_round] pings_trans [OF t(1) pings_round]
    by (simp add: health_update_def Let_def)
qed

lemma hw_health:
  fixes s :: "'a healths_scheme"
  assumes "hw_ok s"
  shows "hw_ok (health_update u gw cl au ad s)"
proof -
  obtain cs where cs: "calls (health_update u gw cl au ad s) = calls s @ cs" "list_all ping_call cs"
    using pings_update [of s u gw cl au ad] unfolding pings_only_def by blast
  show ?thesis
    using assms health_ok_update [of s u gw cl au ad] cs(2)
    by (simp add: hw_ok_def led_sync_def shown_def health_update_leds cs(1) ping_calls)
qed

lemma hw_callbacks:
  fixes s :: "'a healths_scheme"
  assumes "hw_ok s"
  shows "hw_ok (onPingSuccess slot_up s)" and "hw_ok (onPingSuccess slot_down s)"
    and "hw_ok (onPingEnd slot_up s)" and "hw_ok (onPingEnd slot_down s)" and "hw_ok (resetStreaks s)"
proof -
  have "led_sync t = led_sync s \<and> s_enabled t = s_enabled s \<and> calls t = calls s"
    if "t \<in> {onPingSuccess slot_up s, onPingSuccess slot_down s, onPingEnd slot_up s, onPingEnd slot_down s,
      resetStreaks s}" for t
    using that by (auto simp: onPingSuccess_def onPingEnd_def resetStreaks_def led_sync_def shown_def Let_def)
  then show "hw_ok (onPingSuccess slot_up s)" "hw_ok (onPingSuccess slot_down s)"
    "hw_ok (onPingEnd slot_up s)" "hw_ok (onPingEnd slot_down s)" "hw_ok (resetStreaks s)"
    using assms health_ok_callbacks [of s] by (simp_all add: hw_ok_def)
qed

lemma hw_led_write:
  fixes s :: "'a healths_scheme"
  assumes "hw_ok s"
  shows "hw_ok (led_write c s)"
proof -
  have "led_sync (led_write c s)" using assms by (intro led_write_shown(2)) (simp add: hw_ok_def)
  moreover have "health_ok (led_write c s) \<and>
      (s_enabled (led_write c s) \<longrightarrow> driver_napt False (calls (led_write c s)))"
    using assms
    by (simp add: hw_ok_def health_ok_def led_write_def call_def sess_append driver_napt_append Let_def)
  ultimately show ?thesis by (simp add: hw_ok_def)
qed

lemma hw_led:
  fixes s :: "'a healths_scheme"
  assumes "hw_ok s"
  shows "hw_ok (led_update st s)" and "hw_ok (led_begin s)" and "hw_ok (setBrightness b s)"
proof -
  show "hw_ok (led_update st s)"
    unfolding led_update_eq by (rule hw_led_write) (simp add: assms)
  have r: "hw_ok (s\<lparr>lastWrittenPacked := - 1\<rparr>)"
    using assms by (simp add: hw_ok_def health_ok_def led_sync_def)
  then show "hw_ok (led_begin s)" unfolding led_begin_def by (rule hw_led_write)
  show "hw_ok (setBrightness b s)"
    using assms by (simp add: setBrightness_def hw_ok_def health_ok_def led_sync_def)
qed

lemma hw_recovery:
  fixes s :: "'a router_scheme"
  assumes "hw_ok s"
  shows "hw_ok (uplink_recovery s)" and "hw_ok (client_recovery s)"
proof -
  have r: "hw_ok (resetStreaks (log_at m s))" for m using assms by (simp add: hw_callbacks hw_log)
  have "hw_ok ((resetStreaks (log_at m s))\<lparr>uplinkReady := False, attemptActive := False\<rparr>)" for m
    by (rule hw_router [OF _ _ r [of m]]) simp_all
  then have "hw_ok (scheduleReconnect (call (StaDisconnect False False 0)
      ((resetStreaks (log_at m s))\<lparr>uplinkReady := False, attemptActive := False\<rparr>)))" for m
    by (intro hw_quiet [OF quiet_schedule] hw_call) simp
  then show "hw_ok (uplink_recovery s)"
    using assms by (simp add: uplink_recovery_def Let_def)
  show "hw_ok (client_recovery s)"
    using assms r by (simp add: client_recovery_def hw_call Let_def)
qed

lemma hw_probe_stage:
  fixes s :: "'a router_scheme"
  assumes "hw_ok s"
  shows "hw_ok (probe_stage gw au ad s)"
proof -
  have "hw_ok (s\<lparr>clientProbeable := b\<rparr>)" for b by (rule hw_router [OF _ _ assms]) simp_all
  then show ?thesis by (simp add: probe_stage_def hw_health Let_def)
qed

section \<open>The whole firmware\<close>

lemma hw_step:
  assumes "router_step P s t" and "hw_ok s"
  shows "hw_ok t"
  using assms(1)
proof (cases rule: router_step.cases)
  case rs_led
  then show ?thesis using assms(2) hw_led(1) by (simp add: status_led_def)
next
  case rs_watchdog
  then show ?thesis using assms(2) hw_quiet [OF quiet_watchdog(1)] by simp
next
  case rs_portal
  then show ?thesis using assms(2) hw_quiet [OF quiet_portal] by simp
next
  case rs_supervisor
  then show ?thesis using assms(2) hw_quiet [OF quiet_watchdog(2)] by simp
next
  case rs_hook
  then show ?thesis using assms(2) hw_quiet [OF quiet_watchdog(3)] by simp
next
  case rs_radio
  then show ?thesis using assms(2) hw_quiet [OF quiet_stage(1)] by simp
next
  case rs_channel
  then show ?thesis using assms(2) hw_quiet [OF quiet_stage(2)] by simp
next
  case rs_heartbeat
  then show ?thesis using assms(2) hw_quiet [OF quiet_stage(3)] by simp
next
  case rs_attempt
  then show ?thesis using assms(2) hw_quiet [OF quiet_attempt(1)] by simp
next
  case rs_reconnect
  then show ?thesis using assms(2) hw_quiet [OF quiet_attempt(2)] by simp
qed (use assms(2) in \<open>simp_all add: hw_reconcile hw_probe_stage hw_recovery hw_event hw_callbacks\<close>)

lemma quiet_boot:
  fixes s :: "'a healths_scheme"
  shows "quiet s (watchdog_begin r ok s)" and "quiet s (snd (softap_begin C a s))"
proof -
  have upd: "devices (s\<lparr>g_lastLoopMs := x\<rparr>) = devices s" "devices (s\<lparr>g_uplinkDownSinceMs := x\<rparr>) = devices s"
    "devices (s\<lparr>sup := p\<rparr>) = devices s" "devices (s\<lparr>g_armed := b\<rparr>) = devices s"
    "devices (s\<lparr>g_resetReason := m\<rparr>) = devices s" for s :: "'a healths_scheme" and x p b m
    by (simp_all add: devices_def)
  show "quiet s (watchdog_begin r ok s)"
    by (simp add: quiet_def watchdog_begin_def markUplinkDown_def upd Let_def)
  show "quiet s (snd (softap_begin C a s))"
    by (simp add: quiet_def softap_begin_def applyDnsOffer_def Let_def split: option.split)
qed

lemma hw_health_begin: "hw_ok s \<Longrightarrow> hw_ok (health_begin s)"
  using health_ok_begin [of s] by (simp add: hw_ok_def led_sync_def shown_def) (simp add: health_begin_def)

lemma hw_power_on: "power_on s \<Longrightarrow> hw_ok s"
  by (simp add: power_on_def hw_ok_def health_ok_def led_sync_def probe_ok_def init_probe_def handles_def)

lemma hw_setup:
  assumes "hw_ok s0"
  shows "hw_ok (setup_router P sec B s0)"
proof -
  have printf: "hw_ok (log_printf m s)" if "hw_ok s" for m and s :: "'a router_scheme"
    by (rule hw_router [OF _ _ that]) simp_all
  have wd: "hw_ok (watchdog_begin r ok s)" if "hw_ok s" for r ok and s :: "'a router_scheme"
    using hw_quiet [OF quiet_boot(1) that] .
  have ap: "hw_ok (snd (softap_begin C a s))" if "hw_ok s" for C a and s :: "'a router_scheme"
    using hw_quiet [OF quiet_boot(2) that] .
  have cf: "hw_ok (s\<lparr>cfg := c, nvs := n\<rparr>)" if "hw_ok s" for c n and s :: "'a router_scheme"
    by (rule hw_router [OF _ _ that]) (simp_all add: devices_def)
  have fail: "hw_ok (s\<lparr>softApFailed := b\<rparr>)" if "hw_ok s" for b and s :: "'a router_scheme"
    by (rule hw_router [OF _ _ that]) simp_all
  have start: "hw_ok (startAttempt s)" if "hw_ok s" for s :: "'a router_scheme"
    using hw_quiet [OF quiet_start that] .
  show ?thesis
    using assms
    by (simp add: setup_router_def portal_begin_def Let_def case_prod_beta hw_call hw_log printf wd ap cf
        fail start hw_led hw_health_begin)
qed

interpretation devs: invariant_of "router_init P sec" "router_step P" hw_ok for P sec
  by unfold_locales (auto simp: router_init_def hw_setup hw_power_on intro: hw_step)

section \<open>Supervision and configuration\<close>

text \<open>What the supervisor reads and where it is, and what the portal protects: no other component
  writes them.\<close>

definition watched :: "'a portals_scheme \<Rightarrow> u32 \<times> u32 \<times> bool \<times> sup_pc" where
  "watched s = (g_lastLoopMs s, g_uplinkDownSinceMs s, g_armed s, sup s)"

definition guarded_data :: "'a portals_scheme \<Rightarrow> settings \<times> flash \<times> string \<times> u32 \<times> bool" where
  "guarded_data s = (cfg s, nvs s, g_session s, g_rebootAtMs s, rebooted s)"

definition apart :: "'a portals_scheme \<Rightarrow> 'a portals_scheme \<Rightarrow> bool" where
  "apart s t \<longleftrightarrow> watched t = watched s \<and> guarded_data t = guarded_data s"

lemma apart_refl [simp]: "apart s s"
  by (simp add: apart_def)

lemma apart_trans: "apart s t \<Longrightarrow> apart t u \<Longrightarrow> apart s u"
  by (simp add: apart_def)

lemma apart_io [simp]:
  "watched (log_at m s) = watched s" "watched (log_printf m s) = watched s" "watched (call c s) = watched s"
  "guarded_data (log_at m s) = guarded_data s" "guarded_data (log_printf m s) = guarded_data s"
  "guarded_data (call c s) = guarded_data s"
  "watched (s\<lparr>tick := n\<rparr>) = watched s" "guarded_data (s\<lparr>tick := n\<rparr>) = guarded_data s"
  by (simp_all add: watched_def guarded_data_def log_at_eq log_printf_def call_def Let_def)

lemma apart_router [simp]:
  fixes s t :: "'a router_scheme"
  shows "watched (s\<lparr>reconnectAtMs := w\<rparr>) = watched s" and "watched (s\<lparr>reconnectPending := b\<rparr>) = watched s"
    and "watched (s\<lparr>backoffMs := w\<rparr>) = watched s" and "watched (s\<lparr>uplinkReady := b\<rparr>) = watched s"
    and "watched (s\<lparr>attemptActive := b\<rparr>) = watched s" and "watched (s\<lparr>attemptStartedMs := w\<rparr>) = watched s"
    and "watched (s\<lparr>attemptAssociated := b\<rparr>) = watched s" and "watched (s\<lparr>lastDisconnectMs := w\<rparr>) = watched s"
    and "watched (s\<lparr>radioStations := x\<rparr>) = watched s" and "watched (s\<lparr>radioChannel := i\<rparr>) = watched s"
    and "watched (s\<lparr>lastRadioPollMs := w\<rparr>) = watched s" and "watched (s\<lparr>clientIp := ip\<rparr>) = watched s"
    and "watched (s\<lparr>lastApAssocMs := w\<rparr>) = watched s" and "watched (s\<lparr>leaseSeen := b\<rparr>) = watched s"
    and "watched (s\<lparr>lastChannel := i\<rparr>) = watched s" and "watched (s\<lparr>lastBeatMs := w\<rparr>) = watched s"
    and "watched (s\<lparr>lastBeat := str\<rparr>) = watched s" and "watched (s\<lparr>clientProbeable := b\<rparr>) = watched s"
    and "guarded_data (s\<lparr>reconnectAtMs := w\<rparr>) = guarded_data s"
    and "guarded_data (s\<lparr>reconnectPending := b\<rparr>) = guarded_data s"
    and "guarded_data (s\<lparr>backoffMs := w\<rparr>) = guarded_data s"
    and "guarded_data (s\<lparr>uplinkReady := b\<rparr>) = guarded_data s"
    and "guarded_data (s\<lparr>attemptActive := b\<rparr>) = guarded_data s"
    and "guarded_data (s\<lparr>attemptStartedMs := w\<rparr>) = guarded_data s"
    and "guarded_data (s\<lparr>attemptAssociated := b\<rparr>) = guarded_data s"
    and "guarded_data (s\<lparr>lastDisconnectMs := w\<rparr>) = guarded_data s"
    and "guarded_data (s\<lparr>radioStations := x\<rparr>) = guarded_data s"
    and "guarded_data (s\<lparr>radioChannel := i\<rparr>) = guarded_data s"
    and "guarded_data (s\<lparr>lastRadioPollMs := w\<rparr>) = guarded_data s"
    and "guarded_data (s\<lparr>clientIp := ip\<rparr>) = guarded_data s"
    and "guarded_data (s\<lparr>lastApAssocMs := w\<rparr>) = guarded_data s"
    and "guarded_data (s\<lparr>leaseSeen := b\<rparr>) = guarded_data s"
    and "guarded_data (s\<lparr>lastChannel := i\<rparr>) = guarded_data s"
    and "guarded_data (s\<lparr>lastBeatMs := w\<rparr>) = guarded_data s"
    and "guarded_data (s\<lparr>lastBeat := str\<rparr>) = guarded_data s"
    and "guarded_data (s\<lparr>clientProbeable := b\<rparr>) = guarded_data s"
  by (simp_all add: watched_def guarded_data_def)

lemma apart_base:
  fixes s :: "'a portals_scheme"
  shows "apart s (napt_enable ok s)" and "apart s (napt_disable s)" and "apart s (led_update st s)"
    and "apart s (uplink_begin s)" and "apart s (resetStreaks s)"
    and "apart s (onPingSuccess slot_up s)" and "apart s (onPingSuccess slot_down s)"
    and "apart s (onPingEnd slot_up s)" and "apart s (onPingEnd slot_down s)"
    and "apart s (hookVprintf n txt s)"
proof -
  have upd: "watched (s\<lparr>s_enabled := x\<rparr>) = watched s" "watched (s\<lparr>lastWrittenPacked := z\<rparr>) = watched s"
    "watched (s\<lparr>g_up := p\<rparr>) = watched s" "watched (s\<lparr>g_down := p\<rparr>) = watched s"
    "watched (s\<lparr>g_up := p, g_down := q\<rparr>) = watched s"
    "guarded_data (s\<lparr>s_enabled := x\<rparr>) = guarded_data s"
    "guarded_data (s\<lparr>lastWrittenPacked := z\<rparr>) = guarded_data s"
    "guarded_data (s\<lparr>g_up := p\<rparr>) = guarded_data s" "guarded_data (s\<lparr>g_down := p\<rparr>) = guarded_data s"
    "guarded_data (s\<lparr>g_up := p, g_down := q\<rparr>) = guarded_data s"
    for s :: "'a portals_scheme" and x z p q
    by (simp_all add: watched_def guarded_data_def)
  show "apart s (hookVprintf n txt s)"
    by (simp add: apart_def watched_def guarded_data_def hookVprintf_def Let_def)
  show "apart s (napt_enable ok s)" "apart s (napt_disable s)" "apart s (led_update st s)"
    "apart s (uplink_begin s)" "apart s (resetStreaks s)"
    "apart s (onPingSuccess slot_up s)" "apart s (onPingSuccess slot_down s)"
    "apart s (onPingEnd slot_up s)" "apart s (onPingEnd slot_down s)"
    by (simp_all add: apart_def napt_enable_def napt_disable_def led_update_eq led_write_def
        uplink_begin_def resetStreaks_def onPingSuccess_def onPingEnd_def upd Let_def)
qed

lemma guarded_supervisor:
  fixes s :: "'a portals_scheme"
  shows "guarded_data (supervisor_step s) = guarded_data s"
proof -
  have "guarded_data (s\<lparr>sup := c\<rparr>) = guarded_data s" for s :: "'a portals_scheme" and c
    by (simp add: guarded_data_def)
  then show ?thesis
    by (simp add: supervisor_step_def sup_wake_def sup_check_loop_def sup_check_uplink_def
        reboot_def Let_def split: sup_pc.split)
qed

lemma apart_health:
  fixes s :: "'a portals_scheme"
  shows "apart s (health_update u gw cl au ad s)"
proof -
  have upd: "watched (s\<lparr>g_up := p\<rparr>) = watched s" "watched (s\<lparr>g_down := p\<rparr>) = watched s"
    "watched (s\<lparr>g_lastRoundMs := w\<rparr>) = watched s" "guarded_data (s\<lparr>g_up := p\<rparr>) = guarded_data s"
    "guarded_data (s\<lparr>g_down := p\<rparr>) = guarded_data s" "guarded_data (s\<lparr>g_lastRoundMs := w\<rparr>) = guarded_data s"
    for s :: "'a portals_scheme" and p w
    by (simp_all add: watched_def guarded_data_def)
  have h: "watched (harvest slot_up s) = watched s" "watched (harvest slot_down s) = watched s"
    "guarded_data (harvest slot_up s) = guarded_data s" "guarded_data (harvest slot_down s) = guarded_data s"
    for s :: "'a portals_scheme"
    by (simp_all add: harvest_def upd Let_def)
  have p: "watched (startProbe slot_up t a s) = watched s" "watched (startProbe slot_down t a s) = watched s"
    "guarded_data (startProbe slot_up t a s) = guarded_data s"
    "guarded_data (startProbe slot_down t a s) = guarded_data s" for t a and s :: "'a portals_scheme"
    by (simp_all add: startProbe_def upd Let_def split: option.split)
  show ?thesis by (simp add: apart_def health_update_def health_round_def h p upd Let_def)
qed

lemmas apart_base_fields [simp] = apart_base(1-5) [unfolded apart_def, THEN conjunct1]
  apart_base(1-5) [unfolded apart_def, THEN conjunct2]
  apart_health [unfolded apart_def, THEN conjunct1] apart_health [unfolded apart_def, THEN conjunct2]

lemma apart_schedule [simp]:
  fixes s :: "'a router_scheme"
  shows "watched (scheduleReconnect s) = watched s" and "guarded_data (scheduleReconnect s) = guarded_data s"
    and "watched (startAttempt s) = watched s" and "guarded_data (startAttempt s) = guarded_data s"
  by (simp_all add: scheduleReconnect_def startAttempt_def Let_def)

lemma apart_stages:
  fixes s :: "'a router_scheme"
  shows "apart s (pollRadio e s)" and "apart s (reconcileNapt ok s)" and "apart s (probe_stage gw au ad s)"
    and "apart s (uplink_recovery s)" and "apart s (client_recovery s)" and "apart s (channel_watch s)"
    and "apart s (heartbeat rssi s)" and "apart s (status_led s)" and "apart s (check_attempt s)"
    and "apart s (try_reconnect s)" and "apart s (onWiFiEvent C ev s)"
proof -
  have ls: "watched (link_lost s) = watched s" "guarded_data (link_lost s) = guarded_data s"
    by (simp_all add: link_lost_def Let_def)
  show "apart s (onWiFiEvent C ev s)"
    by (cases ev) (simp_all add: apart_def ls Let_def)
qed (simp_all add: apart_def pollRadio_def reconcileNapt_def leaseSettled_def probe_stage_def
      uplink_recovery_def client_recovery_def channel_watch_def heartbeat_def status_led_def
      check_attempt_def try_reconnect_def Let_def)

lemma watched_response:
  fixes s :: "'a portals_scheme"
  shows "watched (send c ty b s) = watched s" and "watched (noStore s) = watched s"
    and "watched (redirect p s) = watched s" and "watched (sendConfig P e m s) = watched s"
    and "watched (snd (isAuthed rq s)) = watched s"
    and "watched (snd (speed_blocks e target start i cnt s)) = watched s"
  using speed_blocks_state [of e target start i cnt s]
  by (auto simp: watched_def response_defs sendConfig_def isAuthed_eq)

lemma watched_handle: "watched (handle P e ls r rq s) = watched s"
proof -
  have upd: "watched (s\<lparr>out_headers := h\<rparr>) = watched s" "watched (s\<lparr>g_session := x\<rparr>) = watched s"
    "watched (s\<lparr>g_sessionExpiryMs := a\<rparr>) = watched s" "watched (s\<lparr>cfg := c\<rparr>) = watched s"
    "watched (s\<lparr>nvs := n\<rparr>) = watched s" "watched (s\<lparr>g_rebootAtMs := a\<rparr>) = watched s"
    "watched (s\<lparr>streamed := l\<rparr>) = watched s" "watched (s\<lparr>g_speedBytes := a\<rparr>) = watched s"
    "watched (s\<lparr>g_speedMs := a\<rparr>) = watched s"
    for s :: "'a portals_scheme" and h x a c n l
    by (simp_all add: watched_def)
  show ?thesis
    by (cases r; simp add: handler_defs handleNotFound_def sendLogin_def sendHeader_def guarded_frame
        watched_response upd case_prod_beta Let_def split: sum.split prod.split)
qed

lemma watched_portal: "watched (portal_loop P e ls rqo s) = watched s"
proof -
  have "watched (s\<lparr>rebooted := x\<rparr>) = watched s" for s :: "'a portals_scheme" and x
    by (simp add: watched_def)
  then show ?thesis
    by (simp add: portal_loop_def dispatch_def watched_handle Let_def split: option.split)
qed

text \<open>The loop as a whole: only its first statement concerns the supervisor.\<close>

lemma watched_loop:
  assumes "\<not> halted s"
  shows "watched (router_loop P E s) = watched (watchdog_update (uplinkReady s) s)"
proof -
  have "watched t = watched r" if "apart r t" for r t :: "'b router_scheme"
    using that by (simp add: apart_def)
  note w = this [OF apart_stages(1)] this [OF apart_stages(2)] this [OF apart_stages(3)]
    this [OF apart_stages(4)] this [OF apart_stages(5)] this [OF apart_stages(6)]
    this [OF apart_stages(7)] this [OF apart_stages(8)] this [OF apart_stages(9)] this [OF apart_stages(10)]
  show ?thesis using assms by (simp add: router_loop_def Let_def w watched_portal)
qed

lemma later_stages_rest:
  "later u (try_reconnect (check_attempt (status_led (heartbeat rssi (channel_watch
    (client_recovery (uplink_recovery (probe_stage gw au ad (reconcileNapt ok (pollRadio e u))))))))))"
  by (rule later_trans [OF later_stages(1)], rule later_trans [OF later_stages(2)],
      rule later_trans [OF later_stages(3)], rule later_trans [OF later_recovery],
      rule later_trans [OF later_stages(4)], rule later_trans [OF later_stages(5)],
      rule later_trans [OF later_stages(6)], rule later_trans [OF later_stages(7)],
      rule later_trans [OF later_attempt(1)], rule later_attempt(2))

lemma later_rest: "\<not> halted s \<Longrightarrow> later (watchdog_update (uplinkReady s) s) (router_loop P E s)"
  by (simp add: router_loop_def Let_def later_portal later_trans [OF later_portal later_stages_rest])

lemma later_loop: "later s (router_loop P E s)"
  using later_trans [OF later_watchdog(1) later_rest] by (cases "halted s") simp_all

text \<open>A turn halts the board only in the portal, and only when a reboot is due there.\<close>

lemma halted_apart: "apart s t \<Longrightarrow> halted t = halted s"
  by (simp add: apart_def watched_def guarded_data_def halted_def)

lemma halted_rest:
  "halted (try_reconnect (check_attempt (status_led (heartbeat rssi (channel_watch (client_recovery
    (uplink_recovery (probe_stage gw au ad (reconcileNapt ok (pollRadio e u)))))))))) = halted u"
  by (simp only: apart_stages [THEN halted_apart])

lemma halted_turn:
  "halted (router_loop P E s) \<longleftrightarrow> halted s \<or>
     rebooted (portal_loop P (fw E) (log_snaps E) (request_in E) (watchdog_update (uplinkReady s) s))"
proof (cases "halted s")
  case False
  let ?p = "portal_loop P (fw E) (log_snaps E) (request_in E) (watchdog_update (uplinkReady s) s)"
  have "sup ?p = sup s"
    using watched_portal [of P "fw E" "log_snaps E" "request_in E" "watchdog_update (uplinkReady s) s"]
    by (simp add: watched_def watchdog_update_def Let_def)
  then have "halted ?p \<longleftrightarrow> rebooted ?p" using False by (simp add: halted_def)
  then show ?thesis using False by (simp add: router_loop_def Let_def halted_rest)
qed simp

lemma quiet_turn_runs:
  assumes "\<not> halted s" and "g_rebootAtMs s = 0" and "request_in E = None"
  shows "\<not> halted (router_loop P E s)"
  using assms unfolding halted_turn
  by (simp add: portal_loop_def Let_def halted_def watchdog_update_def markUplinkDown_def)

lemma quiet_turn:
  assumes "\<not> halted s" and "g_rebootAtMs s = 0" and "request_in E = None"
  shows "guarded_data (router_loop P E s) = guarded_data s"
proof -
  have "guarded_data (watchdog_update u s) = guarded_data s" for u
    by (simp add: guarded_data_def watchdog_update_def markUplinkDown_def Let_def)
  moreover have "portal_loop P e ls None (watchdog_update u s) = watchdog_update u s" for e ls u
    using assms(2) by (simp add: portal_loop_def watchdog_update_def markUplinkDown_def Let_def)
  moreover have "guarded_data t = guarded_data r" if "apart r t" for r t :: "'b router_scheme"
    using that by (simp add: apart_def)
  note w = this [OF apart_stages(1)] this [OF apart_stages(2)] this [OF apart_stages(3)]
    this [OF apart_stages(4)] this [OF apart_stages(5)] this [OF apart_stages(6)]
    this [OF apart_stages(7)] this [OF apart_stages(8)] this [OF apart_stages(9)] this [OF apart_stages(10)]
  ultimately show ?thesis using assms(3) by (simp add: router_loop_def Let_def w)
qed

lemma quiet_turns_run:
  assumes "\<not> halted s" and "g_rebootAtMs s = 0" and "list_all (\<lambda>E. request_in E = None) Es"
  shows "\<not> halted (fold (router_loop P) Es s)"
  using assms
proof (induction Es arbitrary: s)
  case (Cons E Es)
  then have "g_rebootAtMs (router_loop P E s) = 0" using quiet_turn [of s E P] by (simp add: guarded_data_def)
  then show ?case using Cons quiet_turn_runs [of s E P] by simp
qed simp

text \<open>Every turn of a running board reads the counter at least once.\<close>

lemma loop_ticks: "\<not> halted s \<Longrightarrow> tick s < tick (router_loop P E s)"
proof -
  assume "\<not> halted s"
  moreover have "tick s < tick (watchdog_update u s)" for u
    by (simp add: watchdog_update_def markUplinkDown_def Let_def)
  ultimately show ?thesis using later_rest [of s P E] by (force simp: later_def intro: less_le_trans)
qed

section \<open>The configuration under the whole firmware\<close>

lemma router_step_guarded:
  fixes s :: "'a router_scheme"
  assumes "router_step P s t"
  obtains "guarded_data t = guarded_data s" | e ls rqo where "t = portal_loop P e ls rqo s"
proof -
  have stage: "guarded_data r = guarded_data s" if "apart s r" for r :: "'a router_scheme"
    using that by (simp add: apart_def)
  have wd: "guarded_data (watchdog_update u s) = guarded_data s" for u
    by (simp add: guarded_data_def watchdog_update_def markUplinkDown_def Let_def)
  note stages = stage [OF apart_stages(1)] stage [OF apart_stages(2)] stage [OF apart_stages(3)]
    stage [OF apart_stages(4)] stage [OF apart_stages(5)] stage [OF apart_stages(6)]
    stage [OF apart_stages(7)] stage [OF apart_stages(8)] stage [OF apart_stages(9)]
    stage [OF apart_stages(10)] stage [OF apart_stages(11)] stage [OF apart_base(6)]
    stage [OF apart_base(7)] stage [OF apart_base(8)] stage [OF apart_base(9)] stage [OF apart_base(10)]
  from assms show thesis
    by cases (rule that; simp only: stages wd guarded_supervisor apart_io; fail | blast intro: that)+
qed

lemma router_step_config:
  fixes s :: "'a router_scheme"
  assumes "router_step P s t"
  shows "saved_or_same P s t"
    and "g_session s = [] \<or> token_ok (g_session s) \<Longrightarrow> g_session t = [] \<or> token_ok (g_session t)"
proof -
  show "saved_or_same P s t"
    using assms by (rule router_step_guarded)
      (simp add: saved_or_same_def guarded_data_def, simp add: portal_loop_config)
  show "g_session t = [] \<or> token_ok (g_session t)" if "g_session s = [] \<or> token_ok (g_session s)"
    using assms by (rule router_step_guarded)
      (use that in \<open>simp add: guarded_data_def\<close>, use that in \<open>simp add: portal_loop_token\<close>)
qed

text \<open>As in theory Sessions, steps whose forms carry no NUL character.\<close>

definition plain_step :: "plat \<Rightarrow> 'a router_scheme \<Rightarrow> 'a router_scheme \<Rightarrow> bool" where
  "plain_step P s t \<longleftrightarrow> router_step P s t \<and> no_nul (cfg t)"

lemma portal_inv_plain_step:
  fixes s :: "'a router_scheme"
  assumes "plain_step P s t" and "portal_inv P sec s"
  shows "portal_inv P sec t"
proof (cases "ip_codec (codec P)")
  case True
  have step: "router_step P s t" "no_nul (cfg t)" using assms(1) by (simp_all add: plain_step_def)
  show ?thesis
    by (rule portal_inv_saved [OF assms(2) router_step_config(1) [OF step(1)] step(2)
          router_step_config(2) [OF step(1) portal_inv_token [OF assms(2) True]]])
qed (simp add: portal_inv_def)

lemma setup_config:
  fixes s0 :: "'a router_scheme"
  shows "(cfg (setup_router P sec B s0), nvs (setup_router P sec B s0)) = config_begin flash_ops (codec P) sec (nvs s0)"
    and "g_session (setup_router P sec B s0) = g_session s0"
    and "g_rebootAtMs (setup_router P sec B s0) = g_rebootAtMs s0"
    and "rebooted (setup_router P sec B s0) = rebooted s0"
proof -
  have upd: "guarded_data (s\<lparr>g_lastLoopMs := x\<rparr>) = guarded_data s"
    "guarded_data (s\<lparr>g_uplinkDownSinceMs := x\<rparr>) = guarded_data s" "guarded_data (s\<lparr>sup := p\<rparr>) = guarded_data s"
    "guarded_data (s\<lparr>g_armed := f\<rparr>) = guarded_data s" "guarded_data (s\<lparr>g_resetReason := m\<rparr>) = guarded_data s"
    "guarded_data (s\<lparr>lastWrittenPacked := z\<rparr>) = guarded_data s"
    "guarded_data (s\<lparr>g_brightness := b\<rparr>) = guarded_data s"
    "guarded_data (s\<lparr>g_up := u, g_down := d, g_lastRoundMs := x\<rparr>) = guarded_data s"
    "guarded_data (s\<lparr>softApFailed := f\<rparr>) = guarded_data s"
    for x p f m z b u d and s :: "'a router_scheme"
    by (simp_all add: guarded_data_def)
  have wb: "guarded_data (watchdog_begin r ok s) = guarded_data s" "guarded_data (led_begin s) = guarded_data s"
    "guarded_data (setBrightness b s) = guarded_data s" "guarded_data (health_begin s) = guarded_data s"
    "guarded_data (snd (softap_begin C a s)) = guarded_data s" "guarded_data (s\<lparr>softApFailed := f\<rparr>) = guarded_data s"
    for r ok b C a f and s :: "'a router_scheme"
    by (simp_all add: watchdog_begin_def markUplinkDown_def led_begin_def led_write_def
        setBrightness_def health_begin_def softap_begin_def applyDnsOffer_def upd Let_def split: option.split)
  obtain st n where cb: "config_begin flash_ops (codec P) sec (nvs s0) = (st, n)" by fastforce
  have nv: "nvs (watchdog_begin r ok s) = nvs s" "g_session (watchdog_begin r ok s) = g_session s"
    "g_rebootAtMs (watchdog_begin r ok s) = g_rebootAtMs s" "rebooted (watchdog_begin r ok s) = rebooted s"
    for r ok and s :: "'a router_scheme"
    using wb(1) [of r ok s] by (simp_all add: guarded_data_def)
  have pr: "nvs (log_printf m s) = nvs s" "g_session (log_printf m s) = g_session s"
    "g_session (call c s) = g_session s" "g_rebootAtMs (log_printf m s) = g_rebootAtMs s"
    "g_rebootAtMs (call c s) = g_rebootAtMs s" "rebooted (log_printf m s) = rebooted s" "rebooted (call c s) = rebooted s"
    for m c and s :: "'a router_scheme"
    by (simp_all add: log_printf_def call_def Let_def)
  have "guarded_data (setup_router P sec B s0) = (st, n, g_session s0, g_rebootAtMs s0, rebooted s0)"
    by (simp add: setup_router_def portal_begin_def Let_def case_prod_beta cb nv pr wb)
      (simp add: guarded_data_def nv pr)
  then show "(cfg (setup_router P sec B s0), nvs (setup_router P sec B s0)) = config_begin flash_ops (codec P) sec (nvs s0)"
    and "g_session (setup_router P sec B s0) = g_session s0"
    and "g_rebootAtMs (setup_router P sec B s0) = g_rebootAtMs s0"
    and "rebooted (setup_router P sec B s0) = rebooted s0"
    by (simp_all add: guarded_data_def cb)
qed

definition usable_init :: "plat \<Rightarrow> secrets \<Rightarrow> 'a router_scheme \<Rightarrow> bool" where
  "usable_init P sec s \<longleftrightarrow> router_init P sec s \<and> cfg_usable (cfg s)"

interpretation whole: invariant_of "usable_init P sec" "plain_step P" "portal_inv P sec" for P sec
proof unfold_locales
  show "usable_init P sec s \<Longrightarrow> portal_inv P sec s" for s
  proof -
    assume i: "usable_init P sec s"
    then obtain s0 B where s: "s = setup_router P sec B s0" "power_on s0"
      by (auto simp: usable_init_def router_init_def)
    have "config_begin flash_ops (codec P) sec (nvs s0) = (cfg s, nvs s)"
      using setup_config(1) [of P sec B s0] by (simp add: s(1))
    then have "ip_codec (codec P) \<Longrightarrow> config_begin flash_ops (codec P) sec (nvs s) = (cfg s, nvs s)"
      using config_store_begin_idem [OF flash.nvs_store_axioms] by blast
    then show "portal_inv P sec s"
      using i s setup_config(2) [of P sec B s0] by (simp add: portal_inv_def usable_init_def power_on_def)
  qed
  show "portal_inv P sec s \<Longrightarrow> plain_step P s t \<Longrightarrow> portal_inv P sec t" for s t :: "'a router_scheme"
    by (rule portal_inv_plain_step)
qed

end
