(* ===== verification/Debug.thy ===== *)
theory Debug
  imports Firmware
begin

text \<open>
  The diagnostics that \<^verbatim>\<open>src/main.cpp\<close> and \<^verbatim>\<open>src/net/softap.cpp\<close> compile in when
  \<^verbatim>\<open>NAT_DEBUG\<close> is set, and the iteration of \<open>loop()\<close> that contains them in place of the
  status line. What the framework answers them is the argument \<open>debug_env\<close>. The theory shows
  that they only observe: the rest of the firmware state is as without them, so the debug
  build has the connection state machine of the deployed one; and how often they run.
\<close>

section \<open>Names\<close>

fun wlStatusName :: "wl_status \<Rightarrow> string" where
  "wlStatusName WL_IDLE_STATUS = ''WL_IDLE_STATUS''"
| "wlStatusName WL_NO_SSID_AVAIL = ''WL_NO_SSID_AVAIL''"
| "wlStatusName WL_SCAN_COMPLETED = ''WL_SCAN_COMPLETED''"
| "wlStatusName WL_CONNECTED = ''WL_CONNECTED''"
| "wlStatusName WL_CONNECT_FAILED = ''WL_CONNECT_FAILED''"
| "wlStatusName WL_CONNECTION_LOST = ''WL_CONNECTION_LOST''"
| "wlStatusName WL_DISCONNECTED = ''WL_DISCONNECTED''"
| "wlStatusName WL_OTHER = ''UNKNOWN''"

datatype wifi_auth_mode =
    WIFI_AUTH_OPEN | WIFI_AUTH_WEP | WIFI_AUTH_WPA_PSK | WIFI_AUTH_WPA2_PSK
  | WIFI_AUTH_WPA_WPA2_PSK | WIFI_AUTH_ENTERPRISE | WIFI_AUTH_WPA3_PSK
  | WIFI_AUTH_WPA2_WPA3_PSK | WIFI_AUTH_OTHER

fun authName :: "wifi_auth_mode \<Rightarrow> string" where
  "authName WIFI_AUTH_OPEN = ''OPEN''"
| "authName WIFI_AUTH_WEP = ''WEP''"
| "authName WIFI_AUTH_WPA_PSK = ''WPA-PSK''"
| "authName WIFI_AUTH_WPA2_PSK = ''WPA2-PSK''"
| "authName WIFI_AUTH_WPA_WPA2_PSK = ''WPA/WPA2-PSK''"
| "authName WIFI_AUTH_ENTERPRISE = ''WPA2-ENTERPRISE''"
| "authName WIFI_AUTH_WPA3_PSK = ''WPA3-PSK''"
| "authName WIFI_AUTH_WPA2_WPA3_PSK = ''WPA2/WPA3-PSK''"
| "authName WIFI_AUTH_OTHER = ''OTHER''"

section \<open>What the framework answers\<close>

record scan_entry =
  sc_channel :: int
  sc_rssi :: int
  sc_auth :: wifi_auth_mode
  sc_ssid :: string

datatype dhcp_status = DHCP_STARTED | DHCP_STOPPED | DHCP_INIT | DHCP_OTHER

text \<open>\<open>dns_answer\<close> is the address that the name lookup leaves behind; \<open>dhcp_query\<close> and
  \<open>dns_query\<close> are nothing when the query fails; \<open>ap_drv\<close> has the stations, channel and signal
  strength that the driver reports at that moment.\<close>

record debug_env =
  dns_answer :: ipaddr
  dns_ok :: bool
  tcp_ok :: bool
  scan_count :: int
  scan_at :: "nat \<Rightarrow> scan_entry"
  ap_ip :: ipaddr
  ap_netif :: bool
  dhcp_query :: "dhcp_status option"
  dns_query :: "ipaddr option"
  sta_status :: wl_status
  ap_drv :: web_env

definition dnsOffered :: "debug_env \<Rightarrow> ipaddr" where
  "dnsOffered D =
     (if \<not> ap_netif D then ip_unset
      else case dns_query D of None \<Rightarrow> ip_unset | Some a \<Rightarrow> a)"

definition dhcpsStatusName :: "debug_env \<Rightarrow> string" where
  "dhcpsStatusName D =
     (if \<not> ap_netif D then ''NO_NETIF''
      else case dhcp_query D of
        None \<Rightarrow> ''QUERY_FAILED''
      | Some DHCP_STARTED \<Rightarrow> ''STARTED''
      | Some DHCP_STOPPED \<Rightarrow> ''STOPPED''
      | Some DHCP_INIT \<Rightarrow> ''INIT''
      | Some DHCP_OTHER \<Rightarrow> ''UNKNOWN'')"

section \<open>The diagnostics\<close>

definition runUplinkSelfTest :: "ipcodec \<Rightarrow> debug_env \<Rightarrow> 'a io_scheme \<Rightarrow> 'a io_scheme" where
  "runUplinkSelfTest C D s =
     (let s = call (HostByName ''neverssl.com'') s;
          s = log_at (''selftest DNS neverssl.com -> '' @ ip_toString C (dns_answer D) @ '' (ok=''
                @ dec_bool (dns_ok D) @ '')'') s;
          s = call (TcpConnect (IP 1 1 1 1) 80 5000) s;
          s = log_at (''selftest TCP 1.1.1.1:80 ok='' @ dec_bool (tcp_ok D)) s
      in call TcpStop s)"

definition pad_right :: "nat \<Rightarrow> string \<Rightarrow> string" where
  "pad_right k s = s @ replicate (k - length s) (CHR '' '')"

definition scan_line :: "scan_entry \<Rightarrow> string" where
  "scan_line e =
     ''   ch'' @ pad_right 3 (dec_int (sc_channel e)) @ '' ''
     @ pad_left 4 (CHR '' '') (dec_int (sc_rssi e)) @ '' dBm  ''
     @ pad_right 16 (authName (sc_auth e)) @ '' '' @ [CHR 0x22] @ c_str (sc_ssid e) @ [CHR 0x22, LF]"

definition runScan :: "debug_env \<Rightarrow> 'a io_scheme \<Rightarrow> 'a io_scheme" where
  "runScan D s =
     (let n = scan_count D;
          s = call ScanNetworks s;
          s = (if n \<le> 0 then log_at (''scan: no networks visible ('' @ dec_int n @ '')'') s
               else fold (\<lambda>i. log_printf (scan_line (scan_at D i))) [0..<nat n]
                      (log_at (''scan: '' @ dec_int n @ '' networks visible (2.4 GHz band only)'') s))
      in call ScanDelete s)"

text \<open>The statics of \<open>loop()\<close> in the debug build.\<close>

record debugs = router +
  lastScan :: u32
  lastSelfTest :: u32
  lastApLog :: u32
  lastStatusLog :: u32

definition debug_scan :: "debug_env \<Rightarrow> 'a debugs_scheme \<Rightarrow> 'a debugs_scheme" where
  "debug_scan D s =
     (let run = (\<lambda>s. let (now, s) = millis s in runScan D (s\<lparr>lastScan := now\<rparr>))
      in if uplinkReady s then s
         else if lastScan s = 0 then run s
         else (let (now, s) = millis s in if now - lastScan s > 30000 then run s else s))"

definition debug_selftest :: "ipcodec \<Rightarrow> debug_env \<Rightarrow> 'a debugs_scheme \<Rightarrow> 'a debugs_scheme" where
  "debug_selftest C D s =
     (let run = (\<lambda>s. let (now, s) = millis s in runUplinkSelfTest C D (s\<lparr>lastSelfTest := now\<rparr>))
      in if \<not> uplinkReady s then s
         else if lastSelfTest s = 0 then run s
         else (let (now, s) = millis s in if now - lastSelfTest s > 30000 then run s else s))"

definition debug_ap_log :: "ipcodec \<Rightarrow> web_env \<Rightarrow> debug_env \<Rightarrow> 'a debugs_scheme \<Rightarrow> 'a debugs_scheme" where
  "debug_ap_log C e D s =
     (let (now, s) = millis s
      in if now - lastApLog s > 5000 then
           (let (now, s) = millis s;
                s = s\<lparr>lastApLog := now\<rparr>
            in log_at (''AP IP: '' @ ip_toString C (ap_ip D) @ ''  Stations: '' @ dec_word (stationNum e)
                 @ ''  DHCPS: '' @ dhcpsStatusName D @ ''  DNSoffer: '' @ ip_toString C (dnsOffered D)
                 @ ''  NAPT: '' @ dec_bool (napt_isEnabled s) @ ''  ch: '' @ dec_int (wifi_channel e)
                 @ ''  STA rssi: '' @ dec_int (sta_rssi e)) s)
         else s)"

definition debug_status_log :: "debug_env \<Rightarrow> 'a debugs_scheme \<Rightarrow> 'a debugs_scheme" where
  "debug_status_log D s =
     (if napt_isEnabled s then s
      else
        (let (now, s) = millis s
         in if now - lastStatusLog s > 3000 then
              (let (now, s) = millis s;
                   s = s\<lparr>lastStatusLog := now\<rparr>
               in log_at (''STA status: '' @ wlStatusName (sta_status D)) s)
            else s))"

definition debug_diagnostics :: "ipcodec \<Rightarrow> web_env \<Rightarrow> debug_env \<Rightarrow> 'a debugs_scheme \<Rightarrow> 'a debugs_scheme" where
  "debug_diagnostics C e D s =
     (let s = debug_scan D s;
          s = debug_selftest C D s;
          s = debug_ap_log C e D s
      in debug_status_log D s)"

text \<open>\<open>loop()\<close> of the debug build.\<close>

definition debug_loop :: "plat \<Rightarrow> loop_env \<Rightarrow> debug_env \<Rightarrow> 'a debugs_scheme \<Rightarrow> 'a debugs_scheme" where
  "debug_loop P E D s =
     (if halted s then s
      else
        let s = watchdog_update (uplinkReady s) s;
            s = portal_loop P (fw E) (log_snaps E) (request_in E) s
        in if rebooted s then s
           else
             let s = pollRadio (drv E) s;
                 s = reconcileNapt (napt_ok E) s;
                 s = probe_stage (gatewayIP (drv E)) (ping_up E) (ping_down E) s;
                 s = uplink_recovery s;
                 s = client_recovery s;
                 s = channel_watch s;
                 s = status_led s;
                 s = debug_diagnostics (codec P) (ap_drv D) D s;
                 s = check_attempt s
             in try_reconnect s)"

section \<open>They only observe\<close>

text \<open>What the diagnostics may touch: the log and the serial console, the clock tape, their own
  four timers, and the calls they are made of.\<close>

fun diag_call :: "dev_call \<Rightarrow> bool" where
  "diag_call (HostByName _) = True"
| "diag_call (TcpConnect _ _ _) = True"
| "diag_call TcpStop = True"
| "diag_call ScanNetworks = True"
| "diag_call ScanDelete = True"
| "diag_call _ = False"

definition rest :: "'a debugs_scheme \<Rightarrow> 'a debugs_scheme" where
  "rest s = s\<lparr>tick := 0, log_ring := init_logbuf, serial := [], calls := [],
     lastScan := 0, lastSelfTest := 0, lastApLog := 0, lastStatusLog := 0\<rparr>"

definition observes :: "'a debugs_scheme \<Rightarrow> 'a debugs_scheme \<Rightarrow> bool" where
  "observes s t \<longleftrightarrow> rest t = rest s \<and> tick s \<le> tick t \<and>
     (\<exists>cs. calls t = calls s @ cs \<and> list_all diag_call cs)"

lemma observes_refl: "observes s s"
  by (simp add: observes_def)

lemma observes_trans: "observes s t \<Longrightarrow> observes t u \<Longrightarrow> observes s u"
  unfolding observes_def by (elim conjE exE) (auto intro: order.trans)

lemma observes_log:
  "observes s t \<Longrightarrow> observes s (log_at m t)"
  "observes s t \<Longrightarrow> observes s (log_printf m t)"
  by (simp_all add: observes_def rest_def log_at_eq log_printf_def Let_def)

lemma observes_call: "observes s t \<Longrightarrow> diag_call c \<Longrightarrow> observes s (call c t)"
  by (auto simp: observes_def rest_def call_def)

lemma observes_timer:
  "observes s t \<Longrightarrow> tick t \<le> n \<Longrightarrow> observes s (t\<lparr>tick := n\<rparr>)"
  "observes s t \<Longrightarrow> observes s (t\<lparr>lastScan := x\<rparr>)"
  "observes s t \<Longrightarrow> observes s (t\<lparr>lastSelfTest := x\<rparr>)"
  "observes s t \<Longrightarrow> observes s (t\<lparr>lastApLog := x\<rparr>)"
  "observes s t \<Longrightarrow> observes s (t\<lparr>lastStatusLog := x\<rparr>)"
  by (simp_all add: observes_def rest_def)

lemmas observes_intros = observes_refl observes_log observes_call observes_timer

lemma observes_scan: "observes s t \<Longrightarrow> observes s (runScan D t)"
proof -
  have lines: "observes s (fold (\<lambda>i. log_printf (scan_line (scan_at D i))) is t)" if "observes s t" for t "is"
    using that by (induction "is" arbitrary: t) (simp_all add: observes_log)
  assume "observes s t"
  then show ?thesis by (simp add: runScan_def Let_def lines observes_intros)
qed

lemma observes_selftest: "observes s t \<Longrightarrow> observes s (runUplinkSelfTest C D t)"
  by (simp add: runUplinkSelfTest_def Let_def observes_intros)

lemma observes_stages:
  "observes s (debug_scan D s)" "observes s (debug_selftest C D s)"
  "observes s (debug_ap_log C e D s)" "observes s (debug_status_log D s)"
  by (simp_all add: debug_scan_def debug_selftest_def debug_ap_log_def debug_status_log_def Let_def
      observes_scan observes_selftest observes_intros)

lemma observes_diagnostics: "observes s (debug_diagnostics C e D s)"
  unfolding debug_diagnostics_def Let_def
  by (rule observes_trans [OF _ observes_stages(4)], rule observes_trans [OF _ observes_stages(3)],
      rule observes_trans [OF observes_stages(1) observes_stages(2)])

lemma rest_fields:
  assumes "rest t = rest s"
  shows "uplinkReady t = uplinkReady s" "attemptActive t = attemptActive s"
    "reconnectPending t = reconnectPending s" "backoffMs t = backoffMs s"
    "reconnectAtMs t = reconnectAtMs s" "attemptStartedMs t = attemptStartedMs s" "clock t = clock s"
    "g_up t = g_up s" "g_down t = g_down s" "lastWrittenPacked t = lastWrittenPacked s"
    "s_enabled t = s_enabled s" "cfg t = cfg s" "nvs t = nvs s" "g_session t = g_session s"
  using arg_cong [OF assms, of uplinkReady] arg_cong [OF assms, of attemptActive]
    arg_cong [OF assms, of reconnectPending] arg_cong [OF assms, of backoffMs]
    arg_cong [OF assms, of reconnectAtMs] arg_cong [OF assms, of attemptStartedMs]
    arg_cong [OF assms, of clock] arg_cong [OF assms, of g_up] arg_cong [OF assms, of g_down]
    arg_cong [OF assms, of lastWrittenPacked] arg_cong [OF assms, of s_enabled]
    arg_cong [OF assms, of cfg] arg_cong [OF assms, of nvs] arg_cong [OF assms, of g_session]
  by (simp_all add: rest_def)

lemma diag_plain: "diag_call c \<Longrightarrow> plain_call c"
  by (cases c) simp_all

lemma observes_keeps:
  assumes "observes s t"
  shows "same_link s t" and "later s t" and "quiet s t" and "portal_inv P sec t = portal_inv P sec s"
proof -
  have r: "rest t = rest s" and k: "tick s \<le> tick t" using assms by (simp_all add: observes_def)
  note f = rest_fields [OF r]
  show "same_link s t" by (simp add: same_link_def f)
  show "later s t" by (simp add: later_def f k)
  show "quiet s t"
    using assms by (auto simp: quiet_def devices_def f observes_def list_all_iff intro: diag_plain)
  show "portal_inv P sec t = portal_inv P sec s" by (rule portal_inv_frame) (simp_all add: f)
qed

section \<open>The debug build as a transition system\<close>

inductive debug_step :: "plat \<Rightarrow> 'a debugs_scheme \<Rightarrow> 'a debugs_scheme \<Rightarrow> bool" for P where
  ds_router: "router_step P s t \<Longrightarrow> debug_step P s t"
| ds_diagnostics: "debug_step P s (debug_diagnostics (codec P) e D s)"

lemma debug_conn_step:
  assumes "conn_inv s" and "debug_step P s t"
  shows "conn_inv t \<and> (link_of t = link_of s \<or> link_step (link_of s) (link_of t))"
  using assms(2)
proof cases
  case ds_router
  with assms(1) show ?thesis using conn_inv_step(1,2) by blast
next
  case (ds_diagnostics e D)
  then have m: "conn_move s t"
    using move_same [OF observes_keeps(1) [OF observes_diagnostics] observes_keeps(2) [OF observes_diagnostics]]
    by simp
  then show ?thesis
    using assms(1) conn_inv_move [OF assms(1) m] link_of_move [OF _ m] by (simp add: conn_inv_def)
qed

interpretation debug: simulation "router_init P sec" "debug_step P" conn_inv link_init link_step link_of
  for P sec
  by unfold_locales (auto dest: debug_conn_step simp: router_init_def link_init_def setup_conn)

interpretation debug_devs: invariant_of "router_init P sec" "debug_step P" hw_ok for P sec
proof unfold_locales
  show "router_init P sec s \<Longrightarrow> hw_ok s" for s :: "'a debugs_scheme"
    by (auto simp: router_init_def hw_setup hw_power_on)
  show "hw_ok s \<Longrightarrow> debug_step P s t \<Longrightarrow> hw_ok t" for s t :: "'a debugs_scheme"
    by (auto elim!: debug_step.cases intro: hw_step hw_quiet observes_keeps(3) observes_diagnostics)
qed

text \<open>An iteration of the debug build's \<open>loop()\<close> is a sequence of such steps.\<close>

lemma debug_first_stages:
  "(debug_step P)\<^sup>*\<^sup>* s (portal_loop P e ls rqo (watchdog_update (uplinkReady s) s))"
  by (rule then_step, rule ds_router, rule rs_portal, rule then_step, rule ds_router, rule rs_watchdog,
      rule rtranclp.rtrancl_refl)

lemma debug_later_stages:
  assumes "(debug_step P)\<^sup>*\<^sup>* s u"
  shows "(debug_step P)\<^sup>*\<^sup>* s (try_reconnect (check_attempt (debug_diagnostics (codec P) a D (status_led
    (channel_watch (client_recovery (uplink_recovery (probe_stage gw au ad (reconcileNapt ok (pollRadio e u))))))))))"
  by (rule then_step, rule ds_router, rule rs_reconnect, rule then_step, rule ds_router, rule rs_attempt,
      rule then_step, rule ds_diagnostics, rule then_step, rule ds_router, rule rs_led,
      rule then_step, rule ds_router, rule rs_channel, rule then_step, rule ds_router, rule rs_client_recovery,
      rule then_step, rule ds_router, rule rs_uplink_recovery, rule then_step, rule ds_router, rule rs_probe,
      rule then_step, rule ds_router, rule rs_napt, rule then_step, rule ds_router, rule rs_radio,
      rule assms)

lemma debug_loop_steps: "(debug_step P)\<^sup>*\<^sup>* s (debug_loop P E D s)"
  by (simp add: debug_loop_def Let_def debug_first_stages debug_later_stages [OF debug_first_stages])

definition debug_demo :: debugs where
  "debug_demo = router.extend router_demo
     \<lparr>lastScan = 0, lastSelfTest = 0, lastApLog = 0, lastStatusLog = 0\<rparr>"

definition debug_answers :: debug_env where
  "debug_answers = \<lparr>dns_answer = IP 34 223 124 45, dns_ok = True, tcp_ok = True, scan_count = 2,
     scan_at = (\<lambda>i. \<lparr>sc_channel = 6, sc_rssi = - 70, sc_auth = WIFI_AUTH_ENTERPRISE, sc_ssid = ''campus''\<rparr>),
     ap_ip = IP 192 168 5 1, ap_netif = True, dhcp_query = Some DHCP_STARTED,
     dns_query = Some (IP 1 1 1 1), sta_status = WL_DISCONNECTED, ap_drv = web_demo\<rparr>"

definition debug_booted :: debugs where
  "debug_booted = setup_router demo_plat demo_secrets boot_demo debug_demo"

lemma power_on_debug: "power_on debug_demo"
  by (simp add: power_on_def debug_demo_def router.defs router_demo_fields kBackoffInitialMs_def)

lemma runScan_calls: "calls (runScan D s) = calls s @ [ScanNetworks, ScanDelete]"
proof -
  have "calls (fold (\<lambda>i. log_printf (scan_line (scan_at D i))) is t) = calls t"
    for "is" and t :: "'a io_scheme"
    by (induction "is" arbitrary: t) (simp_all add: log_printf_def Let_def)
  then show ?thesis by (simp add: runScan_def Let_def)
qed

section \<open>Properties\<close>

text \<open>The diagnostics of the debug build only observe: they change nothing of the firmware
  state but the log, the serial console, the clock and their own four timers, and they make
  no call but name lookups, one TCP connection to a fixed address, and scans.\<close>

theorem debug_diagnostics_passive:
  "rest (debug_diagnostics C e D s) = rest s \<and>
   (\<exists>cs. calls (debug_diagnostics C e D s) = calls s @ cs \<and> list_all diag_call cs)"
  using observes_diagnostics [of s C e D] by (simp add: observes_def)

text \<open>C32. So the debug build is the deployed machine: under every interleaving with its
  diagnostics the connection refines the same three-state machine, the ping API is only
  given handles of open sessions, and the LED cache and the NAPT flag are true.\<close>

theorem debug_build_same_machine:
  assumes "reach (router_init P sec) (debug_step P) s"
  shows "link_wf s \<and> reach link_init link_step (link_of s) \<and>
    sess {#} (calls s) \<noteq> None \<and> led_sync s \<and> (s_enabled s \<longrightarrow> driver_napt False (calls s))"
  using debug.always [OF assms] debug.simulated [OF assms] debug_devs.always [OF assms]
  by (auto simp: conn_inv_def hw_ok_def health_ok_def)

theorem debug_build_same_machine_witness:
  "link_wf (debug_loop demo_plat env_demo debug_answers debug_booted)"
proof -
  have "reach (router_init demo_plat demo_secrets) (debug_step demo_plat) debug_booted"
    by (rule reach_init) (use power_on_debug in \<open>auto simp: router_init_def debug_booted_def\<close>)
  then have "reach (router_init demo_plat demo_secrets) (debug_step demo_plat)
      (debug_loop demo_plat env_demo debug_answers debug_booted)"
    by (rule reach_rtranclp [OF debug_loop_steps])
  from debug_build_same_machine [OF this] show ?thesis by blast
qed

text \<open>Scans are made only while the uplink is down, at most one in 30 seconds, and each
  frees its results.\<close>

theorem debug_scan_rate:
  assumes "real_time T s" and "lastScan s = 0 \<or> lastScan s = clock s j \<and> j \<le> tick s \<and> T (tick s) - T j < 2 ^ 32"
  shows "calls (debug_scan D s) = calls s @
    (if \<not> uplinkReady s \<and> (lastScan s = 0 \<or> 30000 < T (tick s) - T j) then [ScanNetworks, ScanDelete] else [])"
proof -
  have "lastScan s = 0 \<or> (30001 \<le> clock s (tick s) - lastScan s \<longleftrightarrow> 30001 \<le> T (tick s) - T j)"
    using assms(2) real_time_elapsed [OF assms(1), of j "tick s" 30001] by auto
  moreover have "30000 < clock s (tick s) - lastScan s \<longleftrightarrow> 30001 \<le> clock s (tick s) - lastScan s"
    by (simp add: word_less_nat_alt word_le_nat_alt) linarith
  ultimately consider "lastScan s = 0"
    | "30000 < clock s (tick s) - lastScan s \<longleftrightarrow> 30000 < T (tick s) - T j" by auto
  then show ?thesis
    by cases (simp_all add: debug_scan_def runScan_calls Let_def)
qed

theorem debug_scan_rate_witness:
  "calls (debug_scan debug_answers (debug_demo\<lparr>lastScan := 1000, tick := 30\<rparr>)) = calls debug_demo"
proof -
  have "real_time (\<lambda>k. 1000 * k) (debug_demo\<lparr>lastScan := 1000, tick := 30\<rparr>)"
    "clock debug_demo = (\<lambda>k. of_nat (1000 * k))"
    by (simp_all add: real_time_def monoI debug_demo_def router.defs router_demo_fields)
  then show ?thesis
    using debug_scan_rate [of "\<lambda>k. 1000 * k" "debug_demo\<lparr>lastScan := 1000, tick := 30\<rparr>" 1] by simp
qed

end
