(* ===== verification/Logbytes.thy ===== *)
theory Logbytes
  imports Logbuf "HOL-Library.Monad_Syntax"
begin

text \<open>
  The log ring once more, at the level of its arrays: the loops of \<^verbatim>\<open>src/logbuf.cpp\<close> index
  character buffers of fixed size, and C checks no index. Here every access is checked, and an
  access outside its array, like a loop that does not end, is \<open>None\<close>. The theory shows that
  neither happens, whatever is logged and whatever the stack held before, and that the arrays
  refine the lists of theory Logbuf: \<open>store\<close> and \<open>render\<close> on the arrays are \<open>store\<close> and
  \<open>render\<close> there.
\<close>

section \<open>Arrays\<close>

definition rd :: "char list \<Rightarrow> nat \<Rightarrow> char option" where
  "rd a i = (if i < length a then Some (a ! i) else None)"

definition wr :: "char list \<Rightarrow> nat \<Rightarrow> char \<Rightarrow> char list option" where
  "wr a i c = (if i < length a then Some (a[i := c]) else None)"

definition memcpy :: "char list \<Rightarrow> char list \<Rightarrow> nat \<Rightarrow> char list option" where
  "memcpy dst src n =
     (if n \<le> length dst \<and> n \<le> length src then Some (take n src @ drop n dst) else None)"

text \<open>Reading a buffer as a C string needs a terminator inside it.\<close>

definition c_read :: "char list \<Rightarrow> string option" where
  "c_read a = (if NUL \<in> set a then Some (c_str a) else None)"

section \<open>The ring in memory\<close>

record ring_b =
  b_lines :: "char list list"
  b_head :: nat
  b_count :: nat

definition init_ring_b :: ring_b where
  "init_ring_b = \<lparr>b_lines = replicate kLines (replicate kLineLen NUL), b_head = 0, b_count = 0\<rparr>"

partial_function (option) skip_b :: "char list \<Rightarrow> nat \<Rightarrow> nat option" where
  "skip_b text r =
     do { c \<leftarrow> rd text r;
          if c \<noteq> NUL \<and> c \<noteq> CHR ''m'' then skip_b text (r + 1) else Some r }"

partial_function (option) clean_b ::
  "char list \<Rightarrow> nat \<Rightarrow> nat \<Rightarrow> char list \<Rightarrow> (nat \<times> char list) option" where
  "clean_b text r w buf =
     do { c \<leftarrow> rd text r;
          if c \<noteq> NUL \<and> w < kLineLen - 1 then
            if c = ESC then
              do { r \<leftarrow> skip_b text r;
                   c \<leftarrow> rd text r;
                   if c = NUL then Some (w, buf) else clean_b text (r + 1) w buf }
            else if c = CR \<or> c = LF then clean_b text (r + 1) w buf
            else do { buf \<leftarrow> wr buf w c; clean_b text (r + 1) (w + 1) buf }
          else Some (w, buf) }"

definition slot_b :: "ring_b \<Rightarrow> nat \<Rightarrow> char list option" where
  "slot_b l i = (if i < length (b_lines l) then Some (b_lines l ! i) else None)"

text \<open>\<open>junk\<close> is what the uninitialised buffer \<open>clean\<close> holds.\<close>

definition store_b :: "char list \<Rightarrow> char list \<Rightarrow> ring_b \<Rightarrow> ring_b option" where
  "store_b text junk l =
     do { (w, buf) \<leftarrow> clean_b text 0 0 junk;
          buf \<leftarrow> wr buf w NUL;
          if w = 0 then Some l
          else
            do { slot \<leftarrow> slot_b l (b_head l);
                 slot \<leftarrow> memcpy slot buf (w + 1);
                 Some (l\<lparr>b_lines := (b_lines l)[b_head l := slot],
                         b_head := (b_head l + 1) mod kLines,
                         b_count := (if b_count l < kLines then b_count l + 1 else b_count l)\<rparr>) } }"

text \<open>\<open>ls i\<close> is the ring as iteration \<open>i\<close> finds it, \<open>line\<close> the local buffer.\<close>

function render_b :: "(nat \<Rightarrow> ring_b) \<Rightarrow> nat \<Rightarrow> char list \<Rightarrow> string \<Rightarrow> string option" where
  "render_b ls i line out =
     (if i < kLines then
        if b_count (ls i) \<le> i then Some out
        else
          do { slot \<leftarrow> slot_b (ls i) ((b_head (ls i) + kLines - b_count (ls i) + i) mod kLines);
               line \<leftarrow> memcpy line slot kLineLen;
               line \<leftarrow> wr line (kLineLen - 1) NUL;
               str \<leftarrow> c_read line;
               render_b ls (Suc i) line (out @ str @ [LF]) }
      else Some out)"
  by pat_completeness auto
termination
  by (relation "measure (\<lambda>(ls, i, line, out). kLines - i)") auto

declare render_b.simps [simp del]

section \<open>What the arrays stand for\<close>

definition ring_abs :: "ring_b \<Rightarrow> logbuf" where
  "ring_abs l = \<lparr>g_lines = map c_str (b_lines l), g_head = b_head l, g_count = b_count l\<rparr>"

definition ring_wf :: "ring_b \<Rightarrow> bool" where
  "ring_wf l \<longleftrightarrow> length (b_lines l) = kLines \<and> list_all (\<lambda>x. length x = kLineLen) (b_lines l) \<and>
     b_head l < kLines \<and> b_count l \<le> kLines"

lemma init_ring: "ring_wf init_ring_b" "ring_abs init_ring_b = init_logbuf"
  by (simp_all add: ring_wf_def init_ring_b_def ring_abs_def init_logbuf_def c_str_def kLines_def
      kLineLen_def list_all_iff)

section \<open>The loops of \<open>store\<close>\<close>

lemma c_str_drop:
  assumes "r < length text"
  shows "c_str (drop r text) = (if text ! r = NUL then [] else text ! r # c_str (drop (r + 1) text))"
  using assms by (simp add: c_str_def Cons_nth_drop_Suc [symmetric])

lemma nul_drop:
  assumes "r < length text" and "NUL \<in> set (drop r text)" and "text ! r \<noteq> NUL"
  shows "NUL \<in> set (drop (r + 1) text)"
proof -
  have "drop r text = text ! r # drop (r + 1) text" using assms(1) by (simp add: Cons_nth_drop_Suc)
  with assms(2,3) show ?thesis by auto
qed

lemma skip_b_ends:
  assumes "NUL \<in> set (drop r text)"
  shows "\<exists>r'\<ge>r. skip_b text r = Some r' \<and> r' < length text \<and> NUL \<in> set (drop r' text) \<and>
    c_str (drop r' text) = skip_escape (c_str (drop r text))"
  using assms
proof (induction "length text - r" arbitrary: r rule: less_induct)
  case less
  have r: "r < length text" using less(2) by (metis drop_all empty_iff list.set(1) not_le)
  show ?case
  proof (cases "text ! r = NUL \<or> text ! r = CHR ''m''")
    case True
    then have "skip_b text r = Some r" by (subst skip_b.simps) (use r in \<open>auto simp: rd_def\<close>)
    moreover have "c_str (drop r text) = skip_escape (c_str (drop r text))"
      using True by (auto simp: c_str_drop [OF r])
    ultimately show ?thesis using r less(2) by blast
  next
    case False
    then have "NUL \<in> set (drop (r + 1) text)"
      using nul_drop [OF r less(2)] by simp
    moreover have "length text - (r + 1) < length text - r" using r by simp
    ultimately obtain r' where r': "r' \<ge> r + 1" "skip_b text (r + 1) = Some r'" "r' < length text"
      "NUL \<in> set (drop r' text)" "c_str (drop r' text) = skip_escape (c_str (drop (r + 1) text))"
      using less(1) by blast
    moreover have "skip_b text r = skip_b text (r + 1)"
      using False by (subst skip_b.simps) (use r in \<open>simp add: rd_def\<close>)
    moreover have "skip_escape (c_str (drop r text)) = skip_escape (c_str (drop (r + 1) text))"
      using False by (simp add: c_str_drop [OF r])
    ultimately show ?thesis using Suc_leD by auto
  qed
qed

lemma clean_b_step:
  assumes "r < length text"
  shows "clean_b text r w buf =
    (if text ! r \<noteq> NUL \<and> w < kLineLen - 1 then
       if text ! r = ESC then
         skip_b text r \<bind> (\<lambda>r. rd text r \<bind>
           (\<lambda>c. if c = NUL then Some (w, buf) else clean_b text (r + 1) w buf))
       else if text ! r = CR \<or> text ! r = LF then clean_b text (r + 1) w buf
       else wr buf w (text ! r) \<bind> clean_b text (r + 1) (w + 1)
     else Some (w, buf))"
  by (subst clean_b.simps) (simp add: rd_def assms)

text \<open>An escape is passed over: to the character behind it, or to the end of the text.\<close>

lemma clean_b_escape:
  assumes "NUL \<in> set (drop r text)" and "r < length text" and "text ! r = ESC" and "w < kLineLen - 1"
  obtains (behind) r' where "r < r'" "r' \<le> length text" "NUL \<in> set (drop r' text)"
      "clean_b text r w buf = clean_b text r' w buf"
      "clean_from w (c_str (drop r text)) = clean_from w (c_str (drop r' text))"
    | (out) "clean_b text r w buf = Some (w, buf)" "clean_from w (c_str (drop r text)) = []"
proof -
  obtain m where m: "m \<ge> r" "skip_b text r = Some m" "m < length text" "NUL \<in> set (drop m text)"
    "c_str (drop m text) = skip_escape (c_str (drop r text))"
    using skip_b_ends [OF assms(1)] by blast
  have e: "c_str (drop r text) = ESC # c_str (drop (r + 1) text)"
    using c_str_drop [OF assms(2)] assms(3) by simp
  show ?thesis
  proof (cases "text ! m = NUL")
    case True
    then have "skip_escape (c_str (drop r text)) = []" using m(5) c_str_drop [OF m(3)] by simp
    then show ?thesis
      using assms(3,4) e True m
      by (intro out, subst clean_b_step [OF assms(2)]) (auto simp: rd_def)
  next
    case False
    then have "skip_escape (c_str (drop r text)) = text ! m # c_str (drop (m + 1) text)"
      using m(5) c_str_drop [OF m(3)] by simp
    then have "clean_from w (c_str (drop r text)) = clean_from w (c_str (drop (m + 1) text))"
      using assms(4) e by simp
    moreover have "clean_b text r w buf = clean_b text (m + 1) w buf"
      using False assms(3,4) m by (subst clean_b_step [OF assms(2)]) (simp add: rd_def)
    ultimately show ?thesis
      using behind [of "m + 1"] m(1,3) nul_drop [OF m(3,4) False] by simp
  qed
qed

definition cleaned :: "nat \<Rightarrow> string \<Rightarrow> char list \<Rightarrow> (nat \<times> char list) option \<Rightarrow> bool" where
  "cleaned w out buf res \<longleftrightarrow> (\<exists>buf'. res = Some (w + length out, buf') \<and> length buf' = kLineLen \<and>
     w + length out < kLineLen \<and> take (w + length out) buf' = take w buf @ out)"

lemma clean_b_ends:
  assumes "NUL \<in> set (drop r text)" and "length buf = kLineLen" and "w < kLineLen"
  shows "cleaned w (clean_from w (c_str (drop r text))) buf (clean_b text r w buf)"
  using assms
proof (induction "length text - r" arbitrary: r w buf rule: less_induct)
  case less
  have r: "r < length text" using less(2) by (metis drop_all empty_iff list.set(1) not_le)
  have rest: "c_str (drop r text) = text ! r # c_str (drop (r + 1) text)" "NUL \<in> set (drop (r + 1) text)"
    if "text ! r \<noteq> NUL"
    using that c_str_drop [OF r] nul_drop [OF r less(2)] by simp_all
  have stop: "cleaned w [] buf (Some (w, buf))" using less(3,4) by (simp add: cleaned_def)
  have shorter: "length text - r' < length text - r" if "r < r'" for r' using that r by simp
  consider "text ! r = NUL \<or> \<not> w < kLineLen - 1"
    | "text ! r = ESC" "w < kLineLen - 1"
    | "text ! r = CR \<or> text ! r = LF" "w < kLineLen - 1"
    | "text ! r \<notin> {NUL, ESC, CR, LF}" "w < kLineLen - 1" by auto
  then show ?case
  proof cases
    case 1
    then have "clean_from w (c_str (drop r text)) = []" by (auto simp: c_str_drop [OF r])
    with 1 stop show ?thesis by (subst clean_b_step [OF r]) auto
  next
    case 2
    with less(2) r show ?thesis
      by (cases rule: clean_b_escape [of r "text" w buf]) (use less stop shorter in auto)
  next
    case 3
    then have "clean_from w (c_str (drop r text)) = clean_from w (c_str (drop (r + 1) text))"
      using rest by auto
    moreover have "clean_b text r w buf = clean_b text (r + 1) w buf"
      using 3 by (subst clean_b_step [OF r]) auto
    ultimately show ?thesis using less(1) [OF shorter, of "r + 1" buf w] less(3,4) rest 3 by auto
  next
    case 4
    let ?buf = "buf[w := text ! r]"
    have "clean_from w (c_str (drop r text)) = text ! r # clean_from (w + 1) (c_str (drop (r + 1) text))"
      using rest 4 by simp
    moreover have "clean_b text r w buf = clean_b text (r + 1) (w + 1) ?buf"
      using 4 less(3,4) by (subst clean_b_step [OF r]) (simp add: wr_def)
    moreover have "take (w + 1) ?buf = take w buf @ [text ! r]"
      using less(3,4) by (simp add: take_Suc_conv_app_nth)
    ultimately show ?thesis
      using less(1) [OF shorter, of "r + 1" ?buf "w + 1"] less(3) rest 4 by (simp add: cleaned_def)
  qed
qed

section \<open>Properties\<close>

lemma clean_no_nul: "NUL \<notin> set (clean text)"
  using clean_from_set [of 0 "c_str text"] by (auto simp: clean_def c_str_def dest: set_takeWhileD)

lemma slot_b_wf:
  assumes "ring_wf l" and "i < kLines"
  shows "slot_b l i = Some (b_lines l ! i)" and "length (b_lines l ! i) = kLineLen"
    and "g_lines (ring_abs l) ! i = c_str (b_lines l ! i)"
  using assms by (simp_all add: slot_b_def ring_wf_def list_all_length ring_abs_def)

lemma take_takeWhile: "take n (takeWhile P xs) = takeWhile P (take n xs)"
  by (induction xs arbitrary: n) (auto simp: take_Cons split: nat.split)

text \<open>Forcing the last byte of the copy to the terminator is what \<open>take\<close> is in the list model.\<close>

lemma c_str_terminated:
  assumes "length x = Suc n"
  shows "c_str (x[n := NUL]) = take n (c_str x)"
proof -
  have "x[n := NUL] = take n x @ [NUL]"
    using assms by (simp add: upd_conv_take_nth_drop)
  then show ?thesis by (simp add: c_str_def take_takeWhile takeWhile_tail)
qed

lemma render_b_ends:
  assumes "\<And>k. ring_wf (ls k)" and "length line = kLineLen"
  shows "render_b ls i line out
    = Some (out @ concat (map (\<lambda>line. line @ [LF]) (render_from (\<lambda>k. ring_abs (ls k)) i)))"
  using assms(2)
proof (induction "kLines - i" arbitrary: i line out rule: less_induct)
  case less
  let ?l = "ls i"
  let ?slot = "b_lines ?l ! ((b_head ?l + kLines - b_count ?l + i) mod kLines)"
  show ?case
  proof (cases "i < kLines \<and> \<not> b_count ?l \<le> i")
    case False
    then show ?thesis by (subst render_b.simps, subst render_from.simps) (auto simp: ring_abs_def)
  next
    case True
    have m: "(b_head ?l + kLines - b_count ?l + i) mod kLines < kLines" by (simp add: kLines_def)
    have shorter: "kLines - Suc i < kLines - i" using True by auto
    note s = slot_b_wf [OF assms(1) [of i] m]
    let ?buf = "?slot[kLineLen - 1 := NUL]"
    have "kLineLen = Suc (kLineLen - 1)" by (simp add: kLineLen_def)
    then have read: "c_read ?buf = Some (take (kLineLen - 1) (c_str ?slot))"
      using s(2) c_str_terminated [of ?slot "kLineLen - 1"]
      by (simp add: c_read_def set_update_memI)
    have here: "render_from (\<lambda>k. ring_abs (ls k)) i
        = take (kLineLen - 1) (c_str ?slot) # render_from (\<lambda>k. ring_abs (ls k)) (Suc i)"
      using True s(3) by (subst render_from.simps) (simp add: slot_line_def ring_abs_def)
    have "render_b ls i line out
        = render_b ls (Suc i) ?buf (out @ take (kLineLen - 1) (c_str ?slot) @ [LF])"
      using True s less(2) read
      by (subst render_b.simps) (simp add: memcpy_def wr_def kLineLen_def)
    also have "\<dots> = Some ((out @ take (kLineLen - 1) (c_str ?slot) @ [LF]) @
        concat (map (\<lambda>line. line @ [LF]) (render_from (\<lambda>k. ring_abs (ls k)) (Suc i))))"
      using less(1) [OF shorter, of ?buf] s(2) by simp
    also have "\<dots> = Some (out @ concat (map (\<lambda>line. line @ [LF]) (render_from (\<lambda>k. ring_abs (ls k)) i)))"
      by (simp add: here)
    finally show ?thesis .
  qed
qed

text \<open>C29. Storing a line is safe at the level of memory and ends: for any text with a terminator,
  whatever the buffer held before, no array is accessed outside its bounds, and the ring in
  memory afterwards is the ring of lines after the same operation.\<close>

theorem store_bytes_refines:
  assumes "NUL \<in> set text" and "length junk = kLineLen" and "ring_wf l"
  shows "\<exists>l'. store_b text junk l = Some l' \<and> ring_wf l' \<and> ring_abs l' = store text (ring_abs l)"
proof -
  let ?out = "clean text"
  let ?w = "length ?out"
  have "0 < kLineLen" by (simp add: kLineLen_def)
  then obtain buf where b: "clean_b text 0 0 junk = Some (?w, buf)" "length buf = kLineLen" "?w < kLineLen"
    "take ?w buf = ?out"
    using clean_b_ends [of 0 "text" junk 0] assms(1,2) by (auto simp: clean_def cleaned_def)
  let ?buf = "buf[?w := NUL]"
  have w: "wr buf ?w NUL = Some ?buf" using b by (simp add: wr_def)
  show ?thesis
  proof (cases "?w = 0")
    case True
    then show ?thesis using b w assms(3) by (simp add: store_b_def store_def)
  next
    case False
    have h: "b_head l < length (b_lines l)" "length (b_lines l ! b_head l) = kLineLen"
      using assms(3) by (simp_all add: ring_wf_def list_all_length)
    let ?slot = "take (?w + 1) ?buf @ drop (?w + 1) (b_lines l ! b_head l)"
    let ?l = "l\<lparr>b_lines := (b_lines l)[b_head l := ?slot], b_head := (b_head l + 1) mod kLines,
        b_count := (if b_count l < kLines then b_count l + 1 else b_count l)\<rparr>"
    have "store_b text junk l = Some ?l"
      using False b w h by (simp add: store_b_def slot_b_def memcpy_def)
    moreover have len: "length ?slot = kLineLen" using b h by simp
    moreover have "ring_wf ?l"
      using assms(3) len by (auto simp: ring_wf_def list_all_length nth_list_update kLines_def)
    moreover have "take (?w + 1) ?buf = ?out @ [NUL]"
      using b by (simp add: take_Suc_conv_app_nth)
    then have "c_str ?slot = ?out"
      using clean_no_nul [of "text"] by (simp add: c_str_def takeWhile_append)
    then have "ring_abs ?l = store text (ring_abs l)"
      using False by (simp add: ring_abs_def store_def map_update)
    ultimately show ?thesis by blast
  qed
qed

theorem store_bytes_refines_witness:
  "let msg = [ESC, CHR ''['', CHR ''3'', CHR ''m'', CHR ''o'', CHR ''k'', LF, NUL, CHR ''x'']
   in \<exists>l'. store_b msg (replicate kLineLen (CHR ''?'')) init_ring_b = Some l' \<and>
        ring_abs l' = store msg init_logbuf"
  using store_bytes_refines [of "[ESC, CHR ''['', CHR ''3'', CHR ''m'', CHR ''o'', CHR ''k'', LF, NUL, CHR ''x'']"
      "replicate kLineLen (CHR ''?'')" init_ring_b] init_ring
  by auto

text \<open>C30. Reading the log is safe at the level of memory, ends, and yields what the model on
  lines yields, also when the ring changes between two critical sections: the index stays
  inside the ring, the line copied out always has a terminator, and nothing of the slot
  behind it is shown.\<close>

theorem render_bytes_refines:
  assumes "\<And>k. ring_wf (ls k)" and "length line = kLineLen"
  shows "render_b ls 0 line out = Some (render (\<lambda>k. ring_abs (ls k)) out)"
  using render_b_ends [OF assms] by (simp add: render_def)

theorem render_bytes_refines_witness:
  "render_b (\<lambda>k. init_ring_b) 0 (replicate kLineLen (CHR ''?'')) ''log:''
     = Some (render (\<lambda>k. init_logbuf) ''log:'')"
  using render_bytes_refines [of "\<lambda>k. init_ring_b" "replicate kLineLen (CHR ''?'')" "''log:''"] init_ring
  by simp

end
