(* ===== verification/Preempt.thy ===== *)
theory Preempt
  imports Firmware
begin

text \<open>
  Preemption inside a stage. The WiFi callback runs on a task of its own and shares the
  variables of \<^verbatim>\<open>src/main.cpp\<close> with \<open>loop()\<close> without a lock, so it may also run between the
  lines of a stage. Two stages decide from what they read and then act on the decision: the
  check of the attempt and the reconciliation of NAPT. Here they are cut between the two
  halves. The halves compose to the stages of theory Router; with an event in between, the
  reconciliation is wrong for one turn and corrects itself, but the check of the attempt
  gives up a connection that has just come up.
\<close>

section \<open>The stages, cut in two\<close>

text \<open>What the check reads: is an attempt active, has its deadline passed, is it over.\<close>

definition attempt_over :: "'a router_scheme \<Rightarrow> (bool \<times> bool) \<times> 'a router_scheme" where
  "attempt_over s =
     (if \<not> attemptActive s then ((False, False), s)
      else
        let (now, s) = millis s;
            hardTimeout = (now - attemptStartedMs s \<ge> kAttemptTimeoutMs);
            (gaveUp, s) =
              (if \<not> attemptAssociated s \<and> lastDisconnectMs s \<noteq> 0 then
                 let (now, s) = millis s in (now - lastDisconnectMs s \<ge> kAttemptQuietMs, s)
               else (False, s))
        in ((hardTimeout, hardTimeout \<or> gaveUp), s))"

definition attempt_give_up :: "bool \<Rightarrow> 'a router_scheme \<Rightarrow> 'a router_scheme" where
  "attempt_give_up hardTimeout s =
     (let s = s\<lparr>attemptActive := False\<rparr>;
          s = log_at (if hardTimeout then ''STA attempt timed out''
                      else ''STA attempt failed (driver out of candidates)'') s
      in scheduleReconnect s)"

lemma check_attempt_halves:
  "check_attempt s =
     (case attempt_over s of ((hard, over), s') \<Rightarrow> if over then attempt_give_up hard s' else s')"
  by (simp add: check_attempt_def attempt_over_def attempt_give_up_def Let_def)

definition napt_decide :: "'a router_scheme \<Rightarrow> bool \<times> 'a router_scheme" where
  "napt_decide s =
     (let haveClient = radioStations s > 0;
          (settled, s) = leaseSettled s
      in (uplinkReady s \<and> haveClient \<and> settled, s))"

definition napt_apply :: "bool \<Rightarrow> bool \<Rightarrow> 'a router_scheme \<Rightarrow> 'a router_scheme" where
  "napt_apply ok want s =
     (if want = napt_isEnabled s then s
      else if want then log_at ''NAPT ON'' (napt_enable ok s)
      else log_at ''NAPT OFF'' (napt_disable s))"

lemma reconcileNapt_halves: "reconcileNapt ok s = (case napt_decide s of (want, s') \<Rightarrow> napt_apply ok want s')"
  by (simp add: reconcileNapt_def napt_decide_def napt_apply_def Let_def case_prod_beta)

lemma attempt_over_frame: "\<exists>n. snd (attempt_over s) = s\<lparr>tick := n\<rparr>"
proof -
  have "snd (attempt_over s) = s\<lparr>tick := tick (snd (attempt_over s))\<rparr>"
    by (simp add: attempt_over_def Let_def)
  then show ?thesis ..
qed

section \<open>Properties\<close>

text \<open>If the uplink gets its address after the check has found the attempt over and before
  it acts on that, the connection is both ready and waiting for a reconnect, and the
  reconnect, when it comes due, tears the working connection down.\<close>

theorem attempt_check_preempted:
  fixes s :: "'a router_scheme" and C :: ipcodec and ip gw d :: ipaddr and ch :: int and hard :: bool
  assumes "attempt_over s = ((hard, True), s')"
  defines "t \<equiv> attempt_give_up hard (onWiFiEvent C (STA_GOT_IP ip gw d ch) s')"
  assumes "reconnectAtMs t \<le> clock t k"
  shows "uplinkReady t \<and> reconnectPending t \<and> \<not> link_wf t \<and>
    (\<exists>cs. calls (try_reconnect (t\<lparr>tick := k\<rparr>)) = calls t @ [SetAutoReconnect False, StaDisconnect False False 0] @ cs)"
proof -
  have f: "uplinkReady t" "reconnectPending t"
    by (simp_all add: t_def attempt_give_up_def Let_def)
  then have "\<not> link_wf t" by (simp add: link_wf_def)
  moreover have "try_reconnect (t\<lparr>tick := k\<rparr>)
      = startAttempt (log_at ''STA reconnecting'' (t\<lparr>tick := Suc k, reconnectPending := False\<rparr>))"
    using f assms(3) try_reconnect_due [of "t\<lparr>tick := k\<rparr>"] by simp
  then have "\<exists>cs. calls (try_reconnect (t\<lparr>tick := k\<rparr>))
      = calls t @ [SetAutoReconnect False, StaDisconnect False False 0] @ cs"
    by (simp add: startAttempt_def uplink_begin_sequence Let_def)
  ultimately show ?thesis using f by blast
qed

theorem attempt_check_preempted_witness:
  "let s = router_demo\<lparr>attemptActive := True, attemptStartedMs := 2000, tick := 22\<rparr>;
       t = attempt_give_up True (onWiFiEvent dotted (STA_GOT_IP (IP 10 0 0 7) (IP 10 0 0 1) (IP 1 1 1 1) 6)
             (snd (attempt_over s)))
   in fst (attempt_over s) = (True, True) \<and> uplinkReady t \<and> reconnectPending t"
proof -
  let ?s = "router_demo\<lparr>attemptActive := True, attemptStartedMs := 2000, tick := 22\<rparr>"
  let ?e = "onWiFiEvent dotted (STA_GOT_IP (IP 10 0 0 7) (IP 10 0 0 1) (IP 1 1 1 1) 6) (?s\<lparr>tick := 23\<rparr>)"
  let ?t = "attempt_give_up True ?e"
  have o: "attempt_over ?s = ((True, True), ?s\<lparr>tick := 23\<rparr>)"
    by (simp add: attempt_over_def kAttemptTimeoutMs_def router_demo_fields)
  have c: "clock ?t = (\<lambda>k. of_nat (1000 * k))"
    by (simp add: attempt_give_up_def Let_def log_printf_def router_demo_fields)
  have "reconnectAtMs ?t \<le> clock ?t 99"
    unfolding c by (simp add: attempt_give_up_def scheduleReconnect_def Let_def log_printf_def
        kBackoffInitialMs_def router_demo_fields)
  then show ?thesis
    using attempt_check_preempted [of ?s True "?s\<lparr>tick := 23\<rparr>" dotted "IP 10 0 0 7" "IP 10 0 0 1"
        "IP 1 1 1 1" 6 99] by (simp add: o Let_def del: onWiFiEvent.simps)
qed

text \<open>If the uplink is lost between the two halves of the reconciliation, NAPT is on
  without an uplink; the reconciliation of the next turn, undisturbed, turns it off.\<close>

theorem reconcile_preempted:
  fixes s :: "'a router_scheme" and C :: ipcodec
  assumes "napt_decide s = (True, s')"
  defines "t \<equiv> napt_apply True True (onWiFiEvent C STA_LOST_IP s')"
  shows "napt_isEnabled t \<and> \<not> uplinkReady t \<and> \<not> napt_isEnabled (reconcileNapt ok t)"
proof -
  have "\<not> uplinkReady t" by (simp add: t_def napt_apply_def link_lost_def Let_def)
  moreover have "napt_isEnabled t"
    by (simp add: t_def napt_apply_def napt_isEnabled_def log_at_eq napt_enable_def Let_def)
  ultimately show ?thesis by (simp add: reconcile_result napt_wanted_def)
qed

theorem reconcile_preempted_witness:
  "napt_isEnabled (napt_apply True True (onWiFiEvent dotted STA_LOST_IP
     (router_demo\<lparr>uplinkReady := True, radioStations := 1, leaseSeen := True\<rparr>)))"
proof -
  let ?s = "router_demo\<lparr>uplinkReady := True, radioStations := 1, leaseSeen := True\<rparr>"
  have "napt_decide ?s = (True, ?s)" by (simp add: napt_decide_def leaseSettled_def)
  then show ?thesis using reconcile_preempted [of ?s ?s dotted] by (simp del: onWiFiEvent.simps)
qed

end
