(* ===== verification/Tasks.thy ===== *)
theory Tasks
  imports Preempt
begin

text \<open>
  The connection with its two tasks preempting each other. The WiFi callback runs on the task
  of the framework and shares the three flags of \<^verbatim>\<open>src/main.cpp\<close> with \<open>loop()\<close> without a lock.
  Here both are cut at every access to a flag, and the pieces interleave in any order. Run
  without interruption the pieces are the stages and the events of theory Router. The
  invariant of theory Connection, that exactly one flag is set, does not survive. What does
  is that the connection is never wedged, with neither an uplink, an attempt nor a pending
  reconnect; with one exception, which the theory also shows.
\<close>

section \<open>The two tasks\<close>

text \<open>Where a task stands; the other places are between two accesses to a flag.\<close>

datatype loop_pc =
    L_idle
  | L_check | L_give_up bool | L_schedule
  | L_retry | L_due | L_start
  | L_recovery | L_down | L_tear

datatype event_pc =
    E_idle
  | E_lost | E_test | E_schedule
  | E_up ipaddr ipaddr ipaddr int | E_pending | E_active

fun recovery_task :: "loop_pc \<Rightarrow> 'a router_scheme \<Rightarrow> loop_pc \<times> 'a router_scheme" where
  "recovery_task L_recovery s =
     (if uplinkReady s \<and> upstreamEverOk s \<and> upstreamFailStreak s \<ge> kUplinkFailStreak then L_down else L_idle, s)"
| "recovery_task L_down s =
     (let s = log_at (''RECOVERY: uplink holds an IP but is unreachable '' @ em_dash @ '' reconnecting'') s;
          s = resetStreaks s
      in (L_tear, s\<lparr>uplinkReady := False\<rparr>))"
| "recovery_task L_tear s = (L_schedule, call (StaDisconnect False False 0) (s\<lparr>attemptActive := False\<rparr>))"
| "recovery_task _ s = (L_idle, s)"

fun loop_task :: "loop_pc \<Rightarrow> 'a router_scheme \<Rightarrow> loop_pc \<times> 'a router_scheme" where
  "loop_task L_check s =
     (case attempt_over s of ((hard, over), s) \<Rightarrow> (if over then L_give_up hard else L_idle, s))"
| "loop_task (L_give_up hard) s =
     (L_schedule, log_at (if hard then ''STA attempt timed out''
        else ''STA attempt failed (driver out of candidates)'') (s\<lparr>attemptActive := False\<rparr>))"
| "loop_task L_schedule s = (L_idle, scheduleReconnect s)"
| "loop_task L_retry s =
     (if reconnectPending s then
        (let (now, s) = millis s in (if now \<ge> reconnectAtMs s then L_due else L_idle, s))
      else (L_idle, s))"
| "loop_task L_due s = (L_start, log_at ''STA reconnecting'' (s\<lparr>reconnectPending := False\<rparr>))"
| "loop_task L_start s = (L_idle, startAttempt s)"
| "loop_task pc s = recovery_task pc s"

fun event_task :: "ipcodec \<Rightarrow> event_pc \<Rightarrow> 'a router_scheme \<Rightarrow> event_pc \<times> 'a router_scheme" where
  "event_task C E_idle s = (E_idle, s)"
| "event_task C E_lost s =
     (let s = s\<lparr>uplinkReady := False\<rparr>;
          s = (if napt_isEnabled s then log_at ''NAPT OFF (uplink lost)'' (napt_disable s) else s);
          s = s\<lparr>attemptAssociated := False\<rparr>;
          (now, s) = millis s
      in (E_test, s\<lparr>lastDisconnectMs := now\<rparr>))"
| "event_task C E_test s = (if \<not> attemptActive s then E_schedule else E_idle, s)"
| "event_task C E_schedule s = (E_idle, scheduleReconnect s)"
| "event_task C (E_up ip gw d ch) s =
     (let s = s\<lparr>uplinkReady := True\<rparr>;
          s = log_at ''STA got IP'' s;
          s = log_printf (''  IP: '' @ ip_toString C ip @ ''  Gateway: '' @ ip_toString C gw
                @ ''  DNS: '' @ ip_toString C d @ ''  channel: '' @ dec_int ch @ [LF]) s
      in (E_pending, s\<lparr>backoffMs := kBackoffInitialMs\<rparr>))"
| "event_task C E_pending s = (E_active, s\<lparr>reconnectPending := False\<rparr>)"
| "event_task C E_active s = (E_idle, s\<lparr>attemptActive := False\<rparr>)"

text \<open>Uninterrupted, the pieces are the stages and the events.\<close>

fun loop_run :: "nat \<Rightarrow> loop_pc \<times> 'a router_scheme \<Rightarrow> loop_pc \<times> 'a router_scheme" where
  "loop_run 0 x = x"
| "loop_run (Suc n) (pc, s) = loop_run n (loop_task pc s)"

fun event_run :: "nat \<Rightarrow> ipcodec \<Rightarrow> event_pc \<times> 'a router_scheme \<Rightarrow> event_pc \<times> 'a router_scheme" where
  "event_run 0 C x = x"
| "event_run (Suc n) C (pc, s) = event_run n C (event_task C pc s)"

lemma pieces_are_stages:
  "loop_run 4 (L_check, s) = (L_idle, check_attempt s)"
  "loop_run 4 (L_retry, s) = (L_idle, try_reconnect s)"
  "loop_run 4 (L_recovery, s) = (L_idle, uplink_recovery s)"
  "event_run 3 C (E_up ip gw d ch, s) = (E_idle, onWiFiEvent C (STA_GOT_IP ip gw d ch) s)"
  "event_run 3 C (E_lost, s) = (E_idle, onWiFiEvent C STA_LOST_IP s)"
  "event_run 3 C (E_lost, s) = (E_idle, onWiFiEvent C STA_DISCONNECTED s)"
  by (simp_all add: eval_nat_numeral check_attempt_halves attempt_give_up_def try_reconnect_def
      uplink_recovery_def link_lost_def Let_def split: prod.split)

section \<open>All interleavings\<close>

text \<open>
  The state of the firmware with the places of the two tasks. \<open>overlap\<close> is no variable of the
  program: it records whether a recovery has cleared the ready flag while the callback was
  in the middle of bringing the uplink up.
\<close>

record 'a tasks =
  shared :: "'a router_scheme"
  loop_at :: loop_pc
  event_at :: event_pc
  overlap :: bool

definition coming_up :: "event_pc \<Rightarrow> bool" where
  "coming_up e \<longleftrightarrow> e \<in> {E_pending, E_active}"

text \<open>
  An idle task may begin any of its stages or events; a task may do its next piece; and
  anything that leaves the flags alone, which is every other stage, event and callback,
  may happen at any place.
\<close>

inductive task_step :: "plat \<Rightarrow> 'a tasks \<Rightarrow> 'a tasks \<Rightarrow> bool" for P where
  ts_stage: "loop_at x = L_idle \<Longrightarrow> pc \<in> {L_check, L_retry, L_recovery} \<Longrightarrow>
     task_step P x (x\<lparr>loop_at := pc\<rparr>)"
| ts_event: "event_at x = E_idle \<Longrightarrow> e = E_lost \<or> e = E_up ip gw d ch \<Longrightarrow> task_step P x (x\<lparr>event_at := e\<rparr>)"
| ts_loop: "loop_task (loop_at x) (shared x) = (pc, s) \<Longrightarrow>
     task_step P x (x\<lparr>shared := s, loop_at := pc,
       overlap := (overlap x \<or> loop_at x = L_down \<and> coming_up (event_at x))\<rparr>)"
| ts_callback: "event_task (codec P) (event_at x) (shared x) = (e, s) \<Longrightarrow>
     task_step P x (x\<lparr>shared := s, event_at := e\<rparr>)"
| ts_other: "router_step P (shared x) s \<Longrightarrow> same_link (shared x) s \<Longrightarrow> task_step P x (x\<lparr>shared := s\<rparr>)"

definition task_init :: "plat \<Rightarrow> secrets \<Rightarrow> 'a tasks \<Rightarrow> bool" where
  "task_init P sec x \<longleftrightarrow> router_init P sec (shared x) \<and> loop_at x = L_idle \<and> event_at x = E_idle \<and> \<not> overlap x"

definition moving :: "'a router_scheme \<Rightarrow> bool" where
  "moving s \<longleftrightarrow> uplinkReady s \<or> attemptActive s \<or> reconnectPending s"

text \<open>A flag is set, or one of the tasks is about to set one; and while the callback brings the
  uplink up, the ready flag stays set.\<close>

definition alive :: "'a tasks \<Rightarrow> bool" where
  "alive x \<longleftrightarrow> overlap x \<or>
     (moving (shared x) \<or> loop_at x \<in> {L_schedule, L_start, L_tear} \<or> event_at x \<in> {E_test, E_schedule}) \<and>
     (coming_up (event_at x) \<longrightarrow> uplinkReady (shared x))"

lemma attempt_over_flags: "attempt_over s = (r, s') \<Longrightarrow> same_link s s'"
  using attempt_over_frame [of s] by (auto simp: same_link_def)

lemma alive_loop:
  assumes "alive x" and "loop_task (loop_at x) (shared x) = (pc, s)"
  shows "alive (x\<lparr>shared := s, loop_at := pc, overlap := (overlap x \<or> loop_at x = L_down \<and> coming_up (event_at x))\<rparr>)"
proof (cases "loop_at x")
  case L_check
  then have "same_link (shared x) s" "pc \<in> {L_idle} \<union> range L_give_up"
    using assms(2) attempt_over_flags [of "shared x"] by (auto split: prod.splits if_splits)
  then show ?thesis using assms(1) L_check by (auto simp: alive_def moving_def same_link_def)
next
  case L_retry
  then have "same_link (shared x) s" "pc \<in> {L_idle, L_due}"
    using assms(2) by (auto simp: same_link_def Let_def split: if_splits)
  then show ?thesis using assms(1) L_retry by (auto simp: alive_def moving_def same_link_def)
qed (use assms in \<open>auto simp: alive_def moving_def Let_def split: if_splits\<close>)

lemma alive_callback:
  assumes "alive x" and "event_task C (event_at x) (shared x) = (e, s)"
  shows "alive (x\<lparr>shared := s, event_at := e\<rparr>)"
  using assms
  by (cases "event_at x") (auto simp: alive_def moving_def coming_up_def Let_def split: if_splits)

lemma alive_step: "task_step P x y \<Longrightarrow> alive x \<Longrightarrow> alive y"
proof (induction rule: task_step.induct)
  case (ts_loop x pc s)
  then show ?case by (blast intro: alive_loop)
next
  case (ts_callback x e s)
  then show ?case by (blast intro: alive_callback)
qed (auto simp: alive_def moving_def same_link_def coming_up_def)

interpretation preempting: invariant_of "task_init P sec" "task_step P" alive for P sec
proof unfold_locales
  fix x y :: "'a tasks"
  show "alive x" if "task_init P sec x"
  proof -
    have "link_wf (shared x)"
      using that conn.at_start [of P sec "shared x"] by (simp add: task_init_def conn_inv_def)
    then show ?thesis using that by (auto simp: alive_def moving_def link_wf_def task_init_def coming_up_def)
  qed
  show "alive y" if "alive x" "task_step P x y" using that by (blast intro: alive_step)
qed

text \<open>A task alone, the other one resting where it stands.\<close>

lemma loop_alone:
  "loop_run n (loop_at x, shared x) = (pc, s) \<Longrightarrow>
     \<exists>ov. (task_step P)\<^sup>*\<^sup>* x (x\<lparr>shared := s, loop_at := pc, overlap := ov\<rparr>)"
proof (induction n arbitrary: x)
  case 0
  then show ?case by (intro exI [of _ "overlap x"]) (cases x; auto)
next
  case (Suc n)
  obtain pc1 s1 where l: "loop_task (loop_at x) (shared x) = (pc1, s1)" by fastforce
  let ?y = "x\<lparr>shared := s1, loop_at := pc1, overlap := (overlap x \<or> loop_at x = L_down \<and> coming_up (event_at x))\<rparr>"
  have "loop_run n (loop_at ?y, shared ?y) = (pc, s)" using Suc.prems l by simp
  then obtain ov where "(task_step P)\<^sup>*\<^sup>* ?y (?y\<lparr>shared := s, loop_at := pc, overlap := ov\<rparr>)" using Suc.IH by blast
  with ts_loop [OF l] have "(task_step P)\<^sup>*\<^sup>* x (?y\<lparr>shared := s, loop_at := pc, overlap := ov\<rparr>)"
    by (rule converse_rtranclp_into_rtranclp)
  then show ?case by (intro exI [of _ ov]) simp
qed

lemma callback_alone:
  "event_run n (codec P) (event_at x, shared x) = (e, s) \<Longrightarrow>
     (task_step P)\<^sup>*\<^sup>* x (x\<lparr>shared := s, event_at := e\<rparr>)"
proof (induction n arbitrary: x)
  case (Suc n)
  obtain e1 s1 where l: "event_task (codec P) (event_at x) (shared x) = (e1, s1)" by fastforce
  let ?y = "x\<lparr>shared := s1, event_at := e1\<rparr>"
  have "(task_step P)\<^sup>*\<^sup>* ?y (?y\<lparr>shared := s, event_at := e\<rparr>)"
    using Suc.IH [of ?y] Suc.prems l by simp
  with ts_callback [OF l] have "(task_step P)\<^sup>*\<^sup>* x (?y\<lparr>shared := s, event_at := e\<rparr>)"
    by (rule converse_rtranclp_into_rtranclp)
  then show ?case by simp
qed (cases x, auto)

text \<open>The transition system of theory Connection is the part in which no task is preempted:
  every step of it is a sequence of pieces, from rest to rest.\<close>

definition at_rest :: "'a router_scheme \<Rightarrow> bool \<Rightarrow> 'a tasks" where
  "at_rest s b = \<lparr>shared = s, loop_at = L_idle, event_at = E_idle, overlap = b\<rparr>"

lemma stage_included:
  assumes "pc \<in> {L_check, L_retry, L_recovery}" and "loop_run 4 (pc, s) = (L_idle, t)"
  shows "\<exists>ov. (task_step P)\<^sup>*\<^sup>* (at_rest s b) (at_rest t ov)"
proof -
  have "task_step P (at_rest s b) ((at_rest s b)\<lparr>loop_at := pc\<rparr>)"
    using assms(1) by (intro ts_stage) (simp_all add: at_rest_def)
  moreover obtain ov where "(task_step P)\<^sup>*\<^sup>* ((at_rest s b)\<lparr>loop_at := pc\<rparr>) (at_rest t ov)"
    using loop_alone [of 4 "(at_rest s b)\<lparr>loop_at := pc\<rparr>" L_idle t P] assms(2) by (auto simp: at_rest_def)
  ultimately show ?thesis by (blast intro: converse_rtranclp_into_rtranclp)
qed

lemma event_included:
  assumes "e = E_lost \<or> e = E_up ip gw d ch" and "event_run 3 (codec P) (e, s) = (E_idle, t)"
  shows "\<exists>ov. (task_step P)\<^sup>*\<^sup>* (at_rest s b) (at_rest t ov)"
proof -
  have "task_step P (at_rest s b) ((at_rest s b)\<lparr>event_at := e\<rparr>)"
    using assms(1) by (intro ts_event) (simp_all add: at_rest_def)
  moreover have "(task_step P)\<^sup>*\<^sup>* ((at_rest s b)\<lparr>event_at := e\<rparr>) (at_rest t b)"
    using callback_alone [of 3 P "(at_rest s b)\<lparr>event_at := e\<rparr>" E_idle t] assms(2) by (simp add: at_rest_def)
  ultimately show ?thesis by (blast intro: converse_rtranclp_into_rtranclp)
qed

theorem atomic_steps_included:
  assumes "router_step P s t"
  shows "\<exists>ov. (task_step P)\<^sup>*\<^sup>* (at_rest s b) (at_rest t ov)"
proof -
  have quiet: ?thesis if "same_link s t"
  proof -
    have "task_step P (at_rest s b) ((at_rest s b)\<lparr>shared := t\<rparr>)"
      using assms that by (intro ts_other) (simp_all add: at_rest_def)
    then show ?thesis by (auto simp: at_rest_def)
  qed
  from assms show ?thesis
  proof (cases rule: router_step.cases)
    case rs_uplink_recovery
    then show ?thesis using stage_included [OF _ pieces_are_stages(3)] by simp
  next
    case rs_attempt
    then show ?thesis using stage_included [OF _ pieces_are_stages(1)] by simp
  next
    case rs_reconnect
    then show ?thesis using stage_included [OF _ pieces_are_stages(2)] by simp
  next
    case (rs_event ev)
    show ?thesis
    proof (cases ev)
      case (STA_GOT_IP ip gw d ch)
      then show ?thesis using event_included [OF disjI2 [OF refl] pieces_are_stages(4)] rs_event by simp
    next
      case STA_LOST_IP
      then show ?thesis using event_included [OF disjI1 [OF refl] pieces_are_stages(5)] rs_event by simp
    next
      case STA_DISCONNECTED
      then show ?thesis using event_included [OF disjI1 [OF refl] pieces_are_stages(6)] rs_event by simp
    qed (use rs_event quiet in \<open>simp_all add: same_link_def Let_def\<close>)
  qed (rule quiet, simp add: quiet_stages)+
qed

section \<open>Properties\<close>

text \<open>C4. The connection is never wedged, also when \<open>loop()\<close> and the WiFi callback preempt each
  other at any access to a flag: whenever both have finished what they were doing, the
  uplink is ready, an attempt is active or a reconnect is pending, so that the next stage
  or event moves the connection on. The one exception is an execution in which a recovery
  cleared the ready flag while the callback was bringing the uplink up.\<close>

theorem never_wedged:
  assumes "reach (task_init P sec) (task_step P) x" and "\<not> overlap x"
    and "loop_at x = L_idle" and "event_at x = E_idle"
  shows "uplinkReady (shared x) \<or> attemptActive (shared x) \<or> reconnectPending (shared x)"
  using preempting.always [OF assms(1)] assms(2-4) by (simp add: alive_def moving_def)

theorem never_wedged_witness:
  "let x = \<lparr>shared = booted, loop_at = L_idle, event_at = E_idle, overlap = False\<rparr>
   in uplinkReady (shared x) \<or> attemptActive (shared x) \<or> reconnectPending (shared x)"
proof -
  let ?x = "\<lparr>shared = booted, loop_at = L_idle, event_at = E_idle, overlap = False\<rparr>"
  have "router_init demo_plat demo_secrets booted"
    using power_on_demo by (auto simp: router_init_def booted_def)
  then have "reach (task_init demo_plat demo_secrets) (task_step demo_plat) ?x"
    by (intro reach_init) (simp add: task_init_def)
  from never_wedged [OF this] show ?thesis by (simp add: Let_def)
qed

text \<open>C39. The exception. A recovery that runs inside the callback that brings the uplink up
  clears the ready flag after the callback has set it; the callback then clears the other
  two. Both tasks are done and no flag is set: \<open>loop()\<close> will do nothing about the connection
  until the driver reports another loss, as it may for the recovery's own disconnect.\<close>

theorem recovery_wedges:
  fixes x :: "'a tasks" and P :: plat and ip gw d :: ipaddr and ch :: int
  assumes "loop_at x = L_idle" and "event_at x = E_idle"
    and "upstreamEverOk (shared x)" and "kUplinkFailStreak \<le> upstreamFailStreak (shared x)"
  shows "\<exists>y. (task_step P)\<^sup>*\<^sup>* x y \<and> loop_at y = L_idle \<and> event_at y = E_idle \<and>
    \<not> uplinkReady (shared y) \<and> \<not> attemptActive (shared y) \<and> \<not> reconnectPending (shared y) \<and>
    check_attempt (shared y) = shared y \<and> try_reconnect (shared y) = shared y \<and>
    uplink_recovery (shared y) = shared y \<and>
    reconnectPending (onWiFiEvent (codec P) STA_DISCONNECTED (shared y))"
proof -
  let ?at = "\<lambda>s l e b. \<lparr>shared = s, loop_at = l, event_at = e, overlap = b\<rparr>"
  obtain s1 where s1: "event_task (codec P) (E_up ip gw d ch) (shared x) = (E_pending, s1)"
    "uplinkReady s1" "g_up s1 = g_up (shared x)"
    by (simp add: log_printf_def log_at_eq Let_def)
  let ?s3 = "(uplink_recovery s1)\<lparr>reconnectPending := False, attemptActive := False\<rparr>"
  have "task_step P x (?at (shared x) L_idle (E_up ip gw d ch) (overlap x))"
    using ts_event [of x "E_up ip gw d ch" ip gw d ch P] assms(1,2) by (cases x) simp
  moreover have "task_step P (?at (shared x) L_idle (E_up ip gw d ch) (overlap x)) (?at s1 L_idle E_pending (overlap x))"
    using ts_callback [of P "?at (shared x) L_idle (E_up ip gw d ch) (overlap x)" E_pending s1] s1(1)
    by (simp del: event_task.simps)
  moreover have "task_step P (?at s1 L_idle E_pending (overlap x)) (?at s1 L_recovery E_pending (overlap x))"
    using ts_stage [of "?at s1 L_idle E_pending (overlap x)" L_recovery P] by simp
  moreover obtain ov where "(task_step P)\<^sup>*\<^sup>* (?at s1 L_recovery E_pending (overlap x))
      (?at (uplink_recovery s1) L_idle E_pending ov)"
    using loop_alone [of 4 "?at s1 L_recovery E_pending (overlap x)" L_idle "uplink_recovery s1" P]
      pieces_are_stages(3) [of s1] by auto
  moreover have "(task_step P)\<^sup>*\<^sup>* (?at (uplink_recovery s1) L_idle E_pending ov) (?at ?s3 L_idle E_idle ov)"
    using callback_alone [of 2 P "?at (uplink_recovery s1) L_idle E_pending ov" E_idle ?s3]
    by (simp add: numeral_2_eq_2)
  ultimately have "(task_step P)\<^sup>*\<^sup>* x (?at ?s3 L_idle E_idle ov)"
    by (meson converse_rtranclp_into_rtranclp rtranclp_trans)
  moreover have "\<not> uplinkReady ?s3"
    using assms(3,4) s1(2,3) by (simp add: uplink_recovery_def upstreamEverOk_def upstreamFailStreak_def Let_def)
  then have "check_attempt ?s3 = ?s3 \<and> try_reconnect ?s3 = ?s3 \<and> uplink_recovery ?s3 = ?s3 \<and>
      reconnectPending (onWiFiEvent (codec P) STA_DISCONNECTED ?s3) \<and> \<not> uplinkReady ?s3"
    by (simp add: check_attempt_def try_reconnect_def uplink_recovery_def [of ?s3] link_lost_def Let_def)
  ultimately show ?thesis by (intro exI [of _ "?at ?s3 L_idle E_idle ov"]) simp
qed

theorem recovery_wedges_witness:
  "\<exists>y :: unit tasks. (task_step demo_plat)\<^sup>*\<^sup>*
       \<lparr>shared = router_demo\<lparr>g_up := (init_probe [])\<lparr>everOk := True, failStreak := 3\<rparr>\<rparr>,
        loop_at = L_idle, event_at = E_idle, overlap = False\<rparr> y \<and>
     \<not> uplinkReady (shared y) \<and> \<not> attemptActive (shared y) \<and> \<not> reconnectPending (shared y)"
proof -
  let ?s = "router_demo\<lparr>g_up := (init_probe [])\<lparr>everOk := True, failStreak := 3\<rparr>\<rparr>"
  have "upstreamEverOk ?s" "kUplinkFailStreak \<le> upstreamFailStreak ?s"
    by (simp_all add: upstreamEverOk_def upstreamFailStreak_def kUplinkFailStreak_def)
  then show ?thesis
    using recovery_wedges [of "\<lparr>shared = ?s, loop_at = L_idle, event_at = E_idle, overlap = False\<rparr>" demo_plat] by auto
qed

end
