(* ===== verification/Supervision.thy ===== *)
theory Supervision
  imports Firmware
begin

text \<open>
  The supervisor beside the running firmware: turns of \<open>loop()\<close>, events, callbacks, log lines of
  the framework, polls of the supervisor and passing time, in any order. As long as the loop
  keeps turning and no outage lasts, no poll reboots the board. The polls here are not
  interrupted; theory Watchdog shows the one that is.
\<close>

section \<open>Actions\<close>

datatype act = Turn loop_env | Event wifi_event | Reply bool | Done bool | Print int string | Poll | Pass nat

text \<open>Nothing happens on a halted board.\<close>

definition act_step :: "plat \<Rightarrow> act \<Rightarrow> 'a router_scheme \<Rightarrow> 'a router_scheme" where
  "act_step P a s =
     (if halted s then s
      else case a of
        Turn E \<Rightarrow> router_loop P E s
      | Event ev \<Rightarrow> onWiFiEvent (codec P) ev s
      | Reply up \<Rightarrow> if up then onPingSuccess slot_up s else onPingSuccess slot_down s
      | Done up \<Rightarrow> if up then onPingEnd slot_up s else onPingEnd slot_down s
      | Print n m \<Rightarrow> hookVprintf n m s
      | Poll \<Rightarrow> supervisor_poll s
      | Pass n \<Rightarrow> s\<lparr>tick := tick s + n\<rparr>)"

text \<open>The reading at which the first of the turns began to find the uplink down, if the last one did.\<close>

definition down_mark :: "nat option \<Rightarrow> 'a router_scheme \<Rightarrow> nat option" where
  "down_mark d s = (if uplinkReady s then None else case d of None \<Rightarrow> Some (Suc (tick s)) | Some i \<Rightarrow> Some i)"

text \<open>
  The last turn began at reading \<open>j\<close>, and \<open>d\<close> marks since when the turns find the uplink down.
  Every poll comes less than five minutes after either. The counter value 0, which the code
  stores as 1, does not mark an outage.
\<close>

fun attended :: "plat \<Rightarrow> (nat \<Rightarrow> nat) \<Rightarrow> nat \<Rightarrow> nat option \<Rightarrow> act list \<Rightarrow> 'a router_scheme \<Rightarrow> bool" where
  "attended P T j d [] s = True"
| "attended P T j d (a # as) s \<longleftrightarrow>
     (case a of
        Turn E \<Rightarrow> (\<not> uplinkReady s \<and> d = None \<longrightarrow> clock s (Suc (tick s)) \<noteq> 0) \<and>
          attended P T (tick s) (down_mark d s) as (act_step P a s)
      | Poll \<Rightarrow> T (tick s) < T j + 300000 \<and> (\<forall>i\<in>set_option d. T (tick s) < T i + 300000) \<and>
          attended P T j d as (act_step P a s)
      | _ \<Rightarrow> attended P T j d as (act_step P a s))"

section \<open>What the supervisor finds\<close>

text \<open>The supervisor is armed and in its delay, and the two stamps are the readings \<open>j\<close> and \<open>d\<close>.\<close>

definition watching :: "(nat \<Rightarrow> nat) \<Rightarrow> nat \<Rightarrow> nat option \<Rightarrow> 'a router_scheme \<Rightarrow> bool" where
  "watching T j d s \<longleftrightarrow> real_time T s \<and> sup s = SupDelay \<and> g_armed s \<and>
     g_lastLoopMs s = clock s j \<and> j \<le> tick s \<and>
     (case d of None \<Rightarrow> g_uplinkDownSinceMs s = 0
      | Some i \<Rightarrow> clock s i \<noteq> 0 \<and> g_uplinkDownSinceMs s = clock s i \<and> i \<le> tick s)"

lemma watching_apart:
  fixes s t :: "'a router_scheme"
  assumes "watching T j d s" and "watched t = watched s" and "later s t"
  shows "watching T j d t"
  using assms real_time_cong [of t s T]
  by (auto simp: watching_def watched_def later_def split: option.splits)

lemma later_tasks:
  fixes s :: "'a router_scheme"
  shows "later s (onPingSuccess slot_up s)" "later s (onPingSuccess slot_down s)"
    "later s (onPingEnd slot_up s)" "later s (onPingEnd slot_down s)" "later s (hookVprintf n txt s)"
  by (simp_all add: later_def onPingSuccess_def onPingEnd_def hookVprintf_def Let_def)

lemma later_event:
  fixes s :: "'a router_scheme"
  shows "later s (onWiFiEvent C ev s)"
proof (cases ev)
  case STA_DISCONNECTED
  then show ?thesis by (simp add: later_def link_lost_def scheduleReconnect_def napt_disable_def Let_def)
next
  case STA_LOST_IP
  then show ?thesis by (simp add: later_def link_lost_def scheduleReconnect_def napt_disable_def Let_def)
qed (simp_all add: later_def Let_def log_at_eq log_printf_def)

lemma poll_passes:
  fixes s :: "'a router_scheme"
  assumes "watching T j d s" and "T (tick s) < T j + 300000" and "\<forall>i\<in>set_option d. T (tick s) < T i + 300000"
  shows "supervisor_poll s = s\<lparr>tick := Suc (tick s)\<rparr>"
proof -
  have rt: "real_time T s" and le: "j \<le> tick s" using assms(1) by (simp_all add: watching_def)
  have "T (tick s) - T j < 300000"
    using assms(2) real_time_mono [OF rt le] by linarith
  then have l: "\<not> kLoopStallMs \<le> clock s (tick s) - g_lastLoopMs s"
    using real_time_elapsed [OF rt le, of kLoopStallMs] assms(1) by (simp add: watching_def kLoopStallMs_def)
  have u: "\<not> (g_uplinkDownSinceMs s \<noteq> 0 \<and> kUplinkStallMs \<le> clock s (tick s) - g_uplinkDownSinceMs s)"
  proof (cases d)
    case (Some i)
    then have i: "i \<le> tick s" "g_uplinkDownSinceMs s = clock s i" using assms(1) by (simp_all add: watching_def)
    have "T (tick s) - T i < 300000"
      using assms(3) Some real_time_mono [OF rt i(1)] by simp
    then show ?thesis
      using real_time_elapsed [OF rt i(1), of kUplinkStallMs] i(2) by (simp add: kUplinkStallMs_def)
  qed (use assms(1) in \<open>simp add: watching_def\<close>)
  have "s\<lparr>tick := n, sup := SupDelay\<rparr> = s\<lparr>tick := n\<rparr>" for n using assms(1) by (cases s) (simp add: watching_def)
  then show ?thesis
    using assms(1) l u by (cases "g_uplinkDownSinceMs s = 0")
      (simp_all add: watching_def supervisor_poll_def supervisor_step_def sup_wake_def
        sup_check_loop_def sup_check_uplink_def Let_def)
qed

lemma watching_turn:
  fixes s :: "'a router_scheme"
  assumes "watching T j d s" and "\<not> halted s" and "\<not> uplinkReady s \<and> d = None \<longrightarrow> clock s (Suc (tick s)) \<noteq> 0"
  shows "watching T (tick s) (down_mark d s) (router_loop P E s)"
proof -
  have w: "real_time T s" "sup s = SupDelay" "g_armed s" using assms(1) by (simp_all add: watching_def)
  have "watching T (tick s) (down_mark d s) (watchdog_update (uplinkReady s) s)"
  proof (cases "uplinkReady s")
    case True
    then show ?thesis using w by (simp add: watchdog_update_up watching_def down_mark_def real_time_def)
  next
    case down: False
    show ?thesis
    proof (cases d)
      case None
      then have "g_uplinkDownSinceMs s = 0" using assms(1) by (simp add: watching_def)
      then show ?thesis
        using w down None assms(3)
        by (simp add: watchdog_update_first_down watching_def down_mark_def real_time_def)
    next
      case (Some i)
      then have "g_uplinkDownSinceMs s \<noteq> 0" using assms(1) by (simp add: watching_def)
      then show ?thesis
        using w down Some assms(1)
        by (simp add: watchdog_update_down watching_def down_mark_def real_time_def)
    qed
  qed
  then show ?thesis
    by (rule watching_apart [OF _ watched_loop [OF assms(2)] later_rest [OF assms(2)]])
qed

lemma halted_act: "halted s \<Longrightarrow> act_step P a s = s"
  by (simp add: act_step_def)

lemma halted_acts: "halted s \<Longrightarrow> fold (act_step P) acts s = s"
  by (induction acts) (simp_all add: halted_act)

lemma watching_runs:
  fixes s :: "'a router_scheme"
  assumes "watching T j d s" and "attended P T j d acts s"
  shows "sup (fold (act_step P) acts s) \<noteq> SupRebooting"
  using assms
proof (induction acts arbitrary: j d s)
  case Nil
  then show ?case by (simp add: watching_def)
next
  case (Cons a acts)
  show ?case
  proof (cases "halted s")
    case True
    then have e: "fold (act_step P) (a # acts) s = s" by (rule halted_acts)
    show ?thesis unfolding e using Cons.prems(1) by (simp add: watching_def)
  next
    case False
    have keep: "watching T j d t" if "apart s t" "later s t" for t
      using that(1) watching_apart [OF Cons.prems(1) _ that(2)] by (simp add: apart_def)
    show ?thesis
    proof (cases a)
      case (Turn E)
      have "watching T (tick s) (down_mark d s) (act_step P a s)"
        using watching_turn [OF Cons.prems(1) False] Cons.prems(2) False by (simp add: act_step_def Turn)
      from Cons.IH [OF this] show ?thesis using Cons.prems(2) by (simp add: Turn)
    next
      case Poll
      then have "act_step P a s = s\<lparr>tick := Suc (tick s)\<rparr>"
        using poll_passes [OF Cons.prems(1)] Cons.prems(2) False by (simp add: act_step_def)
      then have "watching T j d (act_step P a s)" by (simp add: keep apart_def later_def)
      from Cons.IH [OF this] show ?thesis using Cons.prems(2) by (simp add: Poll)
    next
      case (Event ev)
      have "watching T j d (act_step P a s)"
        using keep [OF apart_stages(11) later_event] False by (simp add: act_step_def Event)
      from Cons.IH [OF this] show ?thesis using Cons.prems(2) by (simp add: Event)
    next
      case (Reply up)
      have "watching T j d (act_step P a s)"
        using keep [OF apart_base(6) later_tasks(1)] keep [OF apart_base(7) later_tasks(2)] False
        by (simp add: act_step_def Reply)
      from Cons.IH [OF this] show ?thesis using Cons.prems(2) by (simp add: Reply)
    next
      case (Done up)
      have "watching T j d (act_step P a s)"
        using keep [OF apart_base(8) later_tasks(3)] keep [OF apart_base(9) later_tasks(4)] False
        by (simp add: act_step_def Done)
      from Cons.IH [OF this] show ?thesis using Cons.prems(2) by (simp add: Done)
    next
      case (Print n m)
      have "watching T j d (act_step P a s)"
        using keep [OF apart_base(10) later_tasks(5)] False by (simp add: act_step_def Print)
      from Cons.IH [OF this] show ?thesis using Cons.prems(2) by (simp add: Print)
    next
      case (Pass n)
      have "watching T j d (act_step P a s)"
        using keep False by (simp add: act_step_def Pass apart_def later_def)
      from Cons.IH [OF this] show ?thesis using Cons.prems(2) by (simp add: Pass)
    qed
  qed
qed

section \<open>Properties\<close>

text \<open>C12. A healthy router is never rebooted by its supervisor. Take any sequence of turns of the
  loop, events, callbacks, log lines, polls of the supervisor and passing time: as long as
  every poll comes less than five minutes after the last turn began, and less than five
  minutes after the turns began to find the uplink down (when the last one found it down),
  no poll reboots the board, whatever else happens. (The polls are uninterrupted, since an
  interrupted one can reboot at any time, \<open>supervisor_race\<close>; and no outage is stamped at the
  counter value 0, which the code cannot store: \<open>zero_stamp_reboots\<close>.)\<close>

theorem healthy_loop_not_rebooted:
  fixes s :: "'a router_scheme"
  assumes "watching T j d s" and "attended P T j d acts s"
  shows "sup (fold (act_step P) acts s) \<noteq> SupRebooting"
  using assms by (rule watching_runs)

text \<open>An outage that begins at the counter value 0 is stamped 1, because 0 means that the uplink is
  up; a poll in that same millisecond subtracts the stamp from 0 and reboots the board.\<close>

theorem zero_stamp_reboots:
  assumes "sup s = SupDelay" and "g_armed s" and "g_uplinkDownSinceMs s = 0"
    and "clock s (Suc (tick s)) = 0" and "clock s (Suc (Suc (tick s))) = 0"
  shows "sup (supervisor_poll (watchdog_update False s)) = SupRebooting"
  using assms
  by (subst supervisor_poll_reboots) (simp_all add: watchdog_update_first_down kUplinkStallMs_def)

theorem zero_stamp_reboots_witness:
  "sup (supervisor_poll (watchdog_update False ((wd_demo 0 0 0)\<lparr>clock := (\<lambda>k. of_nat (2 ^ 32 - 1 + min 1 k))\<rparr>)))
     = SupRebooting"
  by (rule zero_stamp_reboots) (simp_all add: wd_demo_def)

definition day_demo :: router where
  "day_demo = router_demo\<lparr>sup := SupDelay, g_lastLoopMs := 1000, clock := (\<lambda>k. of_nat (1000 + 100 * min k 2000))\<rparr>"

lemma later_act:
  fixes s :: "'a router_scheme"
  shows "later s (act_step P a s)"
proof -
  have "later s (supervisor_poll s)"
    unfolding supervisor_poll_def by (rule later_trans [OF later_watchdog(2) later_trans [OF later_watchdog(2) later_watchdog(2)]])
  moreover have "later s (s\<lparr>tick := tick s + n\<rparr>)" for n by (simp add: later_def)
  ultimately show ?thesis
    by (simp add: act_step_def later_loop later_event later_tasks split: act.split)
qed

text \<open>A board whose clock ends before the fifth minute is attended whatever it does.\<close>

lemma attended_short:
  "real_time T s \<Longrightarrow> \<forall>k. 0 < T k \<and> T k < 300000 \<Longrightarrow> attended P T j d acts s"
proof (induction acts arbitrary: j d s)
  case (Cons a acts)
  have rt: "real_time T (act_step P a s)"
    using Cons.prems(1) later_act [of s P a] real_time_cong [of "act_step P a s" s T] by (simp add: later_def)
  have k: "T k < T i + 300000" for k i using Cons.prems(2) by (meson trans_less_add2)
  have "clock s k \<noteq> 0" for k
  proof -
    have "T k < 300000" "0 < T k" using Cons.prems(2) by blast+
    then have "T k mod 2 ^ 32 = T k" "0 < T k" by simp_all
    then show ?thesis
      using word_of_nat_less [of 0 "T k"] real_time_clock [OF Cons.prems(1), of k] by auto
  qed
  moreover have "attended P T j d acts (act_step P a s)" for j d by (rule Cons.IH [OF rt Cons.prems(2)])
  ultimately show ?case using k by (cases a) simp_all
qed simp

theorem healthy_loop_not_rebooted_witness:
  "sup (fold (act_step demo_plat)
     [Turn env_demo, Pass 500, Poll, Event STA_LOST_IP, Turn env_demo, Pass 500, Poll, Poll] day_demo) \<noteq> SupRebooting"
proof (rule healthy_loop_not_rebooted)
  let ?T = "\<lambda>k. 1000 + 100 * min k 2000 :: nat"
  have "mono ?T" by (auto simp: mono_def min_def)
  then have rt: "real_time ?T day_demo" by (simp add: real_time_def day_demo_def)
  show "watching ?T 0 None day_demo"
    using rt by (simp add: watching_def) (simp add: day_demo_def router_demo_fields real_time_def)
  show "attended demo_plat ?T 0 None acts day_demo" for acts
    by (rule attended_short [OF rt]) (simp add: min_def)
qed

end
