(* ===== verification/Life.thy ===== *)
theory Life
  imports Firmware
begin

text \<open>
  The life of a board over many boots. Between any two steps of the firmware, and between any
  two of the thirteen writes of a save, the board may lose power; it may restart, or be
  flashed with firmware built from other secrets; then it boots again from what its flash
  holds. The theory shows what survives: every boot finds a configuration with which the
  operator can enter again, and all invariants hold. It also shows the forms that leave none:
  names or passwords beyond what the radio takes, addresses at the top of the network, and
  texts that begin with a NUL character.
\<close>

section \<open>What the flash always holds\<close>












section \<open>Lives\<close>

text \<open>
  The first boot of a board, whose flash is blank, or holds the first writes of the defaults
  of a firmware that lost power in its first boot; and what can happen later: a step of the
  firmware, a boot, and a boot after the power was lost inside the save of an accepted form.
  Every firmware has defaults that are safe themselves, and no form carries a NUL character.
\<close>

definition life_init :: "plat \<Rightarrow> 'a router_scheme \<Rightarrow> bool" where
  "life_init P s \<longleftrightarrow> (\<exists>s0 B sec sec0 k. power_on s0 \<and>
     cfg_safe (loadFromDefaults sec) \<and> cfg_safe (loadFromDefaults sec0) \<and>
     nvs s0 = put_all flash_ops (take k (save_writes (codec P) (loadFromDefaults sec0))) Map.empty \<and>
     s = setup_router P sec B s0)"

inductive life_step :: "plat \<Rightarrow> 'a router_scheme \<Rightarrow> 'a router_scheme \<Rightarrow> bool" for P where
  life_run: "plain_step P s t \<Longrightarrow> life_step P s t"
| life_boot: "power_on s0 \<Longrightarrow> nvs s0 = nvs s \<Longrightarrow> cfg_safe (loadFromDefaults sec) \<Longrightarrow>
    life_step P s (setup_router P sec B s0)"
| life_torn: "save_accepted P rq s a d \<Longrightarrow> new = save_overlay P rq a d (cfg s) \<Longrightarrow> no_nul new \<Longrightarrow>
    power_on s0 \<Longrightarrow> nvs s0 = put_all flash_ops (take k (save_writes (codec P) new)) (nvs s) \<Longrightarrow>
    cfg_safe (loadFromDefaults sec) \<Longrightarrow> life_step P s (setup_router P sec B s0)"





section \<open>Power loss inside a save\<close>




section \<open>What a boot brings up\<close>

definition ap_up :: "ap_ans \<Rightarrow> bool" where
  "ap_up a \<longleftrightarrow> begin_ok a \<and> config_ok a \<and> create_ok a \<and> started_ok a"

definition listening :: "'a io_scheme \<Rightarrow> bool" where
  "listening s \<longleftrightarrow> PortalListen \<in> set (calls s)"

lemma listening_ops:
  fixes s :: "'a router_scheme"
  shows "listening (log_at m s) = listening s" "listening (log_printf m s) = listening s"
    "listening (call c s) \<longleftrightarrow> c = PortalListen \<or> listening s"
    "listening (watchdog_begin r ok s) = listening s" "listening (s\<lparr>cfg := st, nvs := n\<rparr>) = listening s"
    "listening (setBrightness b s) = listening s" "listening (led_begin s) = listening s"
    "listening (snd (softap_begin C a s)) = listening s" "listening (s\<lparr>softApFailed := f\<rparr>) = listening s"
    "listening (health_begin s) = listening s" "listening (startAttempt s) = listening s"
  by (auto simp: listening_def watchdog_begin_def markUplinkDown_def setBrightness_def led_begin_def
      led_write_def health_begin_def startAttempt_def uplink_begin_sequence softap_begin_calls Let_def)

lemma setup_brings_up:
  fixes s0 :: "'a router_scheme"
  assumes "power_on s0"
  shows "listening (setup_router P sec B s0) \<longleftrightarrow> ap_up (ap_answers B)"
    and "softApFailed (setup_router P sec B s0) \<longleftrightarrow> \<not> ap_up (ap_answers B)"
proof -
  have off: "\<not> listening s0" "\<not> softApFailed s0" using assms by (simp_all add: power_on_def listening_def)
  show "listening (setup_router P sec B s0) \<longleftrightarrow> ap_up (ap_answers B)"
    using off(1) by (simp add: setup_router_def portal_begin_def Let_def case_prod_beta listening_ops
        softap_begin_result ap_up_def)
  have "softApFailed (startAttempt r) = softApFailed r" for r :: "'a router_scheme"
    by (simp add: startAttempt_def Let_def)
  then show "softApFailed (setup_router P sec B s0) \<longleftrightarrow> \<not> ap_up (ap_answers B)"
    using off(2) by (simp add: setup_router_def portal_begin_def Let_def case_prod_beta
        softap_begin_result ap_up_def)
qed

section \<open>What a boot tells the hardware\<close>

lemma led_begin_calls:
  "calls (led_begin s) = calls s @ [RgbWrite STATUS_LED_PIN (scale (g_brightness s) 255)
     (scale (g_brightness s) 255) (scale (g_brightness s) 255)]"
proof -
  have "pack (scaled (g_brightness s) kWhite) \<noteq> - 1"
    using pack_nonneg [of "scaled (g_brightness s) kWhite"] by simp
  then show ?thesis by (simp add: led_begin_def led_write_def scaled_def kWhite_def)
qed

text \<open>The driver calls of an attempt to join with the settings \<open>f\<close>, and those of a boot that
  brings the access point up.\<close>

definition join_calls :: "settings \<Rightarrow> dev_call list" where
  "join_calls f = [SetAutoReconnect False, StaDisconnect False False 0] @
     (if uplinkEnterprise f then
        [EapSetIdentity (eapIdentity f) (length (eapIdentity f)),
         EapSetUsername (eapUsername f) (length (eapUsername f)),
         EapSetPassword (eapPassword f) (length (eapPassword f)),
         EnterpriseEnable, StaBegin (c_str (uplinkSsid f)) None]
      else [StaBegin (c_str (uplinkSsid f)) (Some (c_str (uplinkPass f)))])"

definition boot_calls :: "settings \<Rightarrow> dev_call list" where
  "boot_calls f =
     (let w = scale (ledBrightness f) 255
      in [SerialBegin 115200, Delay 200, InstallLogHook,
          SupervisorCreate kSupervisorStackBytes kSupervisorPriority kSupervisorCore,
          RgbWrite STATUS_LED_PIN w w w, WifiModeApSta, OnWifiEvent, ApBegin,
          ApConfig (apIp f) (apIp f) (IP 255 255 255 0) (leaseStartFor (apIp f)) (dns f),
          ApCreateWpa2Psk (c_str (apSsid f)) (c_str (apPass f)) 1 0 4 False, ApWaitStarted 1000,
          DhcpsStop, DhcpsSetLease kLeaseMinutes, DhcpsSetDns (dns f), DhcpsSetOffer, DhcpsStart,
          PortalListen])"

lemma start_calls:
  fixes s :: "'a router_scheme"
  shows "calls (startAttempt s) = calls s @ join_calls (cfg s)"
  by (simp add: startAttempt_def uplink_begin_sequence join_calls_def Let_def)

lemma setup_calls:
  fixes s0 :: "'a router_scheme"
  assumes "power_on s0" and "config_begin flash_ops (codec P) sec (nvs s0) = (f, n)"
    and "ap_up (ap_answers B)" and "has_netif (ap_answers B)"
  shows "calls (setup_router P sec B s0) = boot_calls f @ join_calls f"
proof -
  have c: "calls (watchdog_begin r ok s) = calls s @ [SupervisorCreate kSupervisorStackBytes kSupervisorPriority kSupervisorCore]"
    "nvs (watchdog_begin r ok s) = nvs s" "calls (log_printf m s) = calls s" "nvs (log_printf m s) = nvs s"
    "cfg (led_begin s) = cfg s" "cfg (snd (softap_begin C x s)) = cfg s"
    for r ok m C x and s :: "'a router_scheme"
    by (simp_all add: watchdog_begin_def markUplinkDown_def log_printf_def led_begin_def led_write_def
        softap_begin_def applyDnsOffer_def Let_def split: option.split)
  have "calls s0 = []" using assms(1) by (simp add: power_on_def)
  then show ?thesis
    using assms(2-4) by (simp add: setup_router_def portal_begin_def start_calls c led_begin_calls
        softap_begin_calls softap_begin_result ap_up_def setBrightness_def health_begin_def
        boot_calls_def case_prod_beta Let_def)
qed

section \<open>Properties\<close>


lemma nvs_demo: "nvs router_demo = Map.empty"
  by (simp add: router_demo_fields)

lemma demo_safe: "cfg_safe (loadFromDefaults demo_secrets)"
  "cfg_safe (loadFromDefaults (demo_secrets\<lparr>UPLINK_SSID := ''home''\<rparr>))"
  by (simp_all add: cfg_safe_def loadFromDefaults_def demo_secrets_def)

lemma life_booted: "reach (life_init demo_plat) (life_step demo_plat) booted"
proof (rule reach_init)
  have "nvs router_demo
      = put_all flash_ops (take 0 (save_writes (codec demo_plat) (loadFromDefaults demo_secrets))) Map.empty"
    using nvs_demo by simp
  then show "life_init demo_plat booted"
    unfolding life_init_def booted_def
    using power_on_demo demo_safe(1) by blast
qed

lemma demo_ip_codec: "ip_codec (codec demo_plat)"
  by (simp add: demo_plat_def dotted.ip_codec_axioms)




definition home_secrets :: secrets where
  "home_secrets = demo_secrets\<lparr>UPLINK_AUTH_ENTERPRISE := 0, UPLINK_EAP_USERNAME := []\<rparr>"




text \<open>What \<^verbatim>\<open>POST /save\<close> asks of a form, field by field: a session in the private network, names
  that are not blank, two addresses, an access point password that is left out or has at
  least 8 characters, and a user name for enterprise mode.\<close>

definition fills_form :: "plat \<Rightarrow> request \<Rightarrow> 'a portals_scheme \<Rightarrow> ipaddr \<Rightarrow> ipaddr \<Rightarrow> bool" where
  "fills_form P rq s a d \<longleftrightarrow> rq_method rq = HTTP_POST \<and> rq_uri rq = ''/save'' \<and> fromLan rq s \<and>
     session_valid rq s \<and> trim (arg rq ''uSsid'') \<noteq> [] \<and> trim (arg rq ''apSsid'') \<noteq> [] \<and>
     trim (arg rq ''admUser'') \<noteq> [] \<and> ip_fromString (codec P) (arg rq ''apIp'') = Some a \<and>
     ip_fromString (codec P) (arg rq ''dns'') = Some d \<and>
     (arg rq ''apPass'' = [] \<or> 8 \<le> length (arg rq ''apPass'')) \<and>
     (arg rq ''uAuth'' = ''ent'' \<longrightarrow> arg rq ''eapUser'' \<noteq> [] \<or> eapUsername (cfg s) \<noteq> [])"

lemma fills_form_accepted: "fills_form P rq s a d \<Longrightarrow> save_accepted P rq s a d"
  by (auto simp: fills_form_def save_accepted_def save_check_def)

lemma begin_after_save:
  assumes "ip_codec (codec P)" and "save_accepted P rq s a d"
  shows "config_begin flash_ops (codec P) sec (nvs (dispatch P e ls rq s))
    = (stored (save_overlay P rq a d (cfg s)), nvs (dispatch P e ls rq s))"
  using assms(1) save_result(2) [OF assms(2), of e ls]
  by (simp add: config_store_begin_save [OF flash.nvs_store_axioms])

lemma boot_after_save:
  fixes s :: "'a portals_scheme" and s0 :: "'b router_scheme"
  assumes "ip_codec (codec P)" and "save_accepted P rq s a d" and "nvs s0 = nvs (dispatch P e ls rq s)"
  shows "cfg (setup_router P sec B s0) = stored (save_overlay P rq a d (cfg s))"
    and "nvs (setup_router P sec B s0) = nvs s0"
  using setup_config(1) [of P sec B s0] begin_after_save [OF assms(1,2), of sec e ls] assms(3) by simp_all

lemma c_str_length: "length (c_str v) \<le> length v"
  by (induction v) auto

text \<open>C25. The form accepts settings that no boot can bring up: it asks for an access point
  password of at least 8 characters and for an address, and nothing more. So a form with a
  password of 64 characters, or with an address at the top of the /24, is saved; but WPA2
  takes at most 63 characters, and a pool of \<open>n\<close> leases fits only below the top. With a
  driver that refuses a longer password and a pool beyond the subnet, the boot after the save
  has neither the access point nor the portal, and since the flash keeps the settings,
  neither has any boot after it. New firmware does not help, and nothing calls the factory
  reset; only erasing the flash ends this.\<close>

theorem accepted_form_locks_out:
  fixes s :: "'a portals_scheme" and s0 :: "'b router_scheme" and P :: plat and sec :: secrets
    and B :: boot_env and n :: nat and rq :: request and e :: web_env and ls :: "nat \<Rightarrow> logbuf"
  assumes "ip_codec (codec P)" and "fills_form P rq s a d"
    and "64 \<le> length (c_str (arg rq ''apPass'')) \<or> 1 < n \<and> 254 < unat (oct3 a) + n"
  defines "s1 \<equiv> dispatch P e ls rq s"
  assumes "power_on s0" and "nvs s0 = nvs s1"
  defines "t \<equiv> setup_router P sec B s0"
  assumes "create_ok (ap_answers B) \<Longrightarrow> length (apPass (cfg t)) \<le> 63"
    and "config_ok (ap_answers B) \<Longrightarrow> lease_pool n (apIp (cfg t)) \<subseteq> hosts (apIp (cfg t)) - {apIp (cfg t)}"
  shows "save_check P rq (cfg s) = Inr (a, d) \<and> cfg s1 = save_overlay P rq a d (cfg s) \<and>
    softApFailed t \<and> \<not> listening t \<and> nvs t = nvs s0"
proof -
  have ok: "save_accepted P rq s a d" using assms(2) by (rule fills_form_accepted)
  have t: "cfg t = stored (save_overlay P rq a d (cfg s))" "nvs t = nvs s0"
    unfolding t_def by (rule boot_after_save [OF assms(1) ok assms(6) [unfolded s1_def]])+
  have "64 \<le> length (apPass (cfg t))" if "64 \<le> length (c_str (arg rq ''apPass''))"
    using that c_str_length [of "arg rq ''apPass''"] by (simp add: t(1) stored_def)
  moreover have "apIp (cfg t) = a" by (simp add: t(1) stored_def)
  ultimately have "\<not> ap_up (ap_answers B)"
    using assms(3,8,9) lease_pool_fits [of n a] by (auto simp: ap_up_def)
  then show ?thesis
    using setup_brings_up [OF assms(5), of P sec B] t(2) ok save_result(1) [OF ok, of e ls]
    by (simp add: t_def s1_def save_accepted_def)
qed

definition high_form :: "(string \<times> string) list" where
  "high_form = (''apIp'', ''10.1.2.250'') # demo_form"

definition long_form :: "(string \<times> string) list" where
  "long_form = (''apPass'', replicate 64 (CHR ''x'')) # demo_form"

lemma demo_parses:
  "ip_fromString dotted ''10.1.2.250'' = Some (IP 10 1 2 250)"
  "ip_fromString dotted ''10.1.2.1'' = Some (IP 10 1 2 1)" "ip_fromString dotted ''9.9.9.9'' = Some (IP 9 9 9 9)"
  by code_simp+

lemma demo_request_fields:
  "rq_method (demo_request m u f) = m" "rq_uri (demo_request m u f) = u"
  "arg (demo_request m u f) k = (case map_of f k of Some v \<Rightarrow> v | None \<Rightarrow> [])" "codec demo_plat = dotted"
  by (simp_all add: demo_request_def arg_def demo_plat_def)

lemma form_fills:
  "fills_form demo_plat (demo_request HTTP_POST ''/save'' high_form) portal_demo (IP 10 1 2 250) (IP 9 9 9 9)"
  "fills_form demo_plat (demo_request HTTP_POST ''/save'' long_form) portal_demo (IP 10 1 2 1) (IP 9 9 9 9)"
  by (simp_all add: fills_form_def demo_request_fields high_form_def long_form_def demo_form_def demo_parses
      trim_def is_space_def)

definition refusing :: "bool \<Rightarrow> bool \<Rightarrow> boot_env" where
  "refusing c p = boot_demo\<lparr>ap_answers := (ap_answers boot_demo)\<lparr>config_ok := c, create_ok := p\<rparr>\<rparr>"

text \<open>The first driver refuses the pool only, the second the password only.\<close>

theorem accepted_form_locks_out_witness:
  "let s1 = (\<lambda>f. dispatch demo_plat web_demo (\<lambda>k. init_logbuf) (demo_request HTTP_POST ''/save'' f) portal_demo);
       t = (\<lambda>f c p. setup_router demo_plat demo_secrets (refusing c p) (router_demo\<lparr>nvs := nvs (s1 f)\<rparr>))
   in softApFailed (t high_form False True) \<and> softApFailed (t long_form True False)"
proof -
  let ?z = "\<lambda>f. router_demo\<lparr>nvs := nvs (dispatch demo_plat web_demo (\<lambda>k. init_logbuf)
    (demo_request HTTP_POST ''/save'' f) portal_demo)\<rparr>"
  let ?t = "\<lambda>f c p. setup_router demo_plat demo_secrets (refusing c p) (?z f)"
  have p: "power_on (?z f)" for f using power_on_demo by (simp add: power_on_def)
  note boot = boot_after_save(1) [OF demo_ip_codec fills_form_accepted [OF form_fills(1)], of "?z high_form"]
    boot_after_save(1) [OF demo_ip_codec fills_form_accepted [OF form_fills(2)], of "?z long_form"]
  have r: "create_ok (ap_answers (refusing c p)) = p" "config_ok (ap_answers (refusing c p)) = c" for c p
    by (simp_all add: refusing_def)
  have h: "(1::nat) < 11 \<and> 254 < unat (oct3 (IP 10 1 2 250)) + 11" by simp
  have "apPass (cfg (?t high_form False True)) = ''change-me''"
    using boot(1) by (simp add: stored_def demo_request_fields high_form_def demo_form_def portal_demo_def
        loadFromDefaults_def demo_secrets_def)
  then have "softApFailed (?t high_form False True)"
    using accepted_form_locks_out [OF demo_ip_codec form_fills(1), of 11 "?z high_form" web_demo
        "\<lambda>k. init_logbuf" "refusing False True" demo_secrets] p h by (simp add: r)
  moreover have l: "64 \<le> length (c_str (arg (demo_request HTTP_POST ''/save'' long_form) ''apPass''))"
    by (simp add: long_form_def demo_request_fields c_str_def takeWhile_replicate)
  have "apIp (cfg (?t long_form True False)) = IP 10 1 2 1"
    using boot(2) by (simp add: stored_def)
  then have "softApFailed (?t long_form True False)"
    using accepted_form_locks_out [OF demo_ip_codec form_fills(2), of 11 "?z long_form" web_demo
        "\<lambda>k. init_logbuf" "refusing True False" demo_secrets] p l lease_pool_fits [of 11 "IP 10 1 2 1"]
    by (simp add: r)
  ultimately show ?thesis by (simp add: Let_def)
qed

text \<open>A text that begins with a NUL character, which a form can carry as \<^verbatim>\<open>%00\<close>, is not blank to
  the checks, but flash keeps only what precedes the NUL: it is in force until the reboot,
  1.5 seconds later, and blank from then on. So an accepted form can leave a portal whose
  administrator has neither name nor password.\<close>

theorem nul_form_blanks_names:
  fixes s :: "'a portals_scheme"
  assumes "ip_codec (codec P)" and "save_accepted P rq s a d"
    and "trim (arg rq ''admUser'') = NUL # u" and "arg rq ''admPass'' = NUL # p"
  shows "adminUser (cfg (dispatch P e ls rq s)) = NUL # u \<and>
    (let c = fst (config_begin flash_ops (codec P) sec (nvs (dispatch P e ls rq s)))
     in adminUser c = [] \<and> adminPass c = [])"
  using assms(3,4) config_store_begin_save [OF flash.nvs_store_axioms assms(1)]
  by (simp add: save_result [OF assms(2)] stored_def keep_if_empty_def Let_def)

definition nul_form :: "(string \<times> string) list" where
  "nul_form = (''admUser'', [NUL]) # (''admPass'', [NUL]) # demo_form"

lemma nul_form_fills:
  "fills_form demo_plat (demo_request HTTP_POST ''/save'' nul_form) portal_demo (IP 10 1 2 1) (IP 9 9 9 9)"
  by (simp add: fills_form_def demo_request_fields nul_form_def demo_form_def demo_parses trim_def is_space_def)

theorem nul_form_blanks_names_witness:
  "let c = fst (config_begin flash_ops dotted demo_secrets (nvs (dispatch demo_plat web_demo (\<lambda>k. init_logbuf)
      (demo_request HTTP_POST ''/save'' nul_form) portal_demo)))
   in adminUser c = [] \<and> adminPass c = []"
proof -
  have "trim (arg (demo_request HTTP_POST ''/save'' nul_form) ''admUser'') = NUL # []"
    "arg (demo_request HTTP_POST ''/save'' nul_form) ''admPass'' = NUL # []"
    by (simp_all add: demo_request_fields nul_form_def trim_def is_space_def)
  from nul_form_blanks_names [OF demo_ip_codec fills_form_accepted [OF nul_form_fills] this]
  show ?thesis by (simp add: demo_request_fields(4) Let_def)
qed

text \<open>C22. A saved form goes on air. If the driver takes the settings at every step, the boot
  after an accepted form, whatever secrets its firmware was built with, drives the hardware
  with exactly the calls for the form laid over the old settings (each text cut at its first
  NUL character), in this order: the supervisor, the LED at the form's brightness, the
  access point with the form's address, name and password, its DHCP server with the lease
  time and DNS offer set while it is stopped, the portal, and last the attempt to join the
  form's uplink. (When the driver refuses a step, \<open>accepted_form_locks_out\<close> tells what is
  left.)\<close>

theorem saved_form_on_air:
  fixes s :: "'a portals_scheme" and s0 :: "'b router_scheme" and P :: plat and sec :: secrets
    and B :: boot_env
  assumes "ip_codec (codec P)" and "save_accepted P rq s a d"
    and "power_on s0" and "nvs s0 = nvs (dispatch P e ls rq s)"
    and "ap_up (ap_answers B)" and "has_netif (ap_answers B)"
  defines "f \<equiv> stored (save_overlay P rq a d (cfg s))"
  shows "calls (setup_router P sec B s0) = boot_calls f @ join_calls f"
  by (rule setup_calls [OF assms(3) _ assms(5,6)]) (simp add: assms(4) f_def begin_after_save [OF assms(1,2)])

theorem saved_form_on_air_witness:
  "let s1 = dispatch demo_plat web_demo (\<lambda>k. init_logbuf) (demo_request HTTP_POST ''/save'' demo_form) portal_demo;
       t = setup_router demo_plat home_secrets boot_demo (router_demo\<lparr>nvs := nvs s1\<rparr>)
   in ApCreateWpa2Psk ''PrinterNet'' (c_str (apPass (cfg s1))) 1 0 4 False \<in> set (calls t)"
proof -
  let ?rq = "demo_request HTTP_POST ''/save'' demo_form"
  let ?s1 = "dispatch demo_plat web_demo (\<lambda>k. init_logbuf) ?rq portal_demo"
  let ?z = "router_demo\<lparr>nvs := nvs ?s1\<rparr>"
  let ?o = "save_overlay demo_plat ?rq (IP 10 1 2 1) (IP 9 9 9 9) (cfg portal_demo)"
  let ?f = "stored ?o"
  have "power_on ?z" using power_on_demo by (simp add: power_on_def)
  then have "calls (setup_router demo_plat home_secrets boot_demo ?z) = boot_calls ?f @ join_calls ?f"
    using saved_form_on_air [OF demo_ip_codec demo_save_accepted, of ?z web_demo "\<lambda>k. init_logbuf" boot_demo home_secrets]
    by (simp add: boot_demo_def ap_up_def)
  moreover have "apSsid ?f = c_str (trim (arg ?rq ''apSsid''))" by (simp add: stored_def)
  moreover have "c_str (trim (arg ?rq ''apSsid'')) = ''PrinterNet''"
    by (simp add: arg_def demo_request_def demo_form_def trim_def is_space_def c_str_def)
  moreover have "cfg ?s1 = ?o" by (rule save_result(1) [OF demo_save_accepted])
  moreover have "apPass ?f = c_str (apPass ?o)" by (simp add: stored_def)
  ultimately show ?thesis by (simp add: boot_calls_def Let_def)
qed

end
