(* ===== verification/Service.thy ===== *)
theory Service
  imports Life
begin

text \<open>
  A whole turn of \<open>loop()\<close>, from the events it finds to the forwarding and the light it leaves:
  the components composed. When the uplink has its address and a client its lease, one turn
  switches NAPT on, keeps the uplink and shows the steady state on the LED; when the uplink
  is lost, NAPT is off before the turn begins, and the turn keeps it off. A turn in which a
  reboot comes due ends in the portal; the board is then halted.
\<close>

section \<open>What the stages keep\<close>

definition link_view :: "'a router_scheme \<Rightarrow> bool \<times> bool \<times> bool \<times> bool \<times> bool" where
  "link_view s = (uplinkReady s, attemptActive s, reconnectPending s, leaseSeen s, softApFailed s)"

lemma view_quiet: "quiet s t \<Longrightarrow> g_up t = g_up s \<and> s_enabled t = s_enabled s"
  by (simp add: quiet_def devices_def)

lemma watchdog_view:
  "link_view (watchdog_update u s) = link_view s" "radioStations (watchdog_update u s) = radioStations s"
  "g_up (watchdog_update u s) = g_up s" "s_enabled (watchdog_update u s) = s_enabled s"
  using view_quiet [OF quiet_watchdog(1) [of s u]] by (simp_all add: link_view_def)

lemma portal_view:
  "link_view (portal_loop P e ls rqo s) = link_view s"
  "radioStations (portal_loop P e ls rqo s) = radioStations s"
  "g_up (portal_loop P e ls rqo s) = g_up s" "s_enabled (portal_loop P e ls rqo s) = s_enabled s"
  using view_quiet [OF quiet_portal [of s P e ls rqo]] by (simp_all add: link_view_def)

lemma radio_view:
  "link_view (pollRadio e s) = link_view s" "g_up (pollRadio e s) = g_up s" "s_enabled (pollRadio e s) = s_enabled s"
  "0 < stationNum e \<Longrightarrow> 0 < radioStations s \<Longrightarrow> 0 < radioStations (pollRadio e s)"
  using view_quiet [OF quiet_stage(1) [of s e]] by (simp_all add: link_view_def pollRadio_def Let_def)

lemma napt_view:
  "link_view (reconcileNapt ok s) = link_view s" "radioStations (reconcileNapt ok s) = radioStations s"
  "g_up (reconcileNapt ok s) = g_up s"
proof -
  obtain n where n: "snd (leaseSettled s) = s\<lparr>tick := n\<rparr>" using leaseSettled_eq(2) by blast
  show "link_view (reconcileNapt ok s) = link_view s" "radioStations (reconcileNapt ok s) = radioStations s"
    "g_up (reconcileNapt ok s) = g_up s"
    by (simp_all add: link_view_def reconcileNapt_def case_prod_beta n napt_devices log_at_eq Let_def)
qed

lemma probe_view:
  "link_view (probe_stage gw au ad s) = link_view s" "radioStations (probe_stage gw au ad s) = radioStations s"
  "s_enabled (probe_stage gw au ad s) = s_enabled s"
  by (simp_all add: link_view_def probe_stage_def health_update_leds Let_def)

text \<open>One turn lengthens the streak of the probe towards the gateway by at most one.\<close>

lemma probe_streak:
  assumes "uplinkReady s"
  shows "unat (failStreak (g_up (probe_stage gw au ad s))) \<le> Suc (unat (failStreak (g_up s)))"
proof -
  obtain b cl where e: "probe_stage gw au ad s = health_update True gw cl au ad (s\<lparr>clientProbeable := b\<rparr>)"
    using probe_stage_update [of gw au ad s] assms by metis
  have "unat (failStreak (g_up (harvest slot_up s'))) \<le> Suc (unat (failStreak (g_up s')))"
    for s' :: "'a router_scheme"
  proof (cases "running (g_up s') \<and> finished (g_up s')")
    case True
    then show ?thesis
      using up.harvest_verdict(3) [of s'] streak_inc [of "failStreak (g_up s')"] by (auto split: if_splits)
  next
    case False
    then show ?thesis using up.harvest_pending [of s'] by simp
  qed
  from this [of "s\<lparr>clientProbeable := b\<rparr>"] show ?thesis by (simp add: e update_keeps)
qed

lemma client_view:
  "link_view (client_recovery s) = link_view s" "radioStations (client_recovery s) = radioStations s"
  "s_enabled (client_recovery s) = s_enabled s"
  by (simp_all add: link_view_def client_recovery_def resetStreaks_def call_def log_at_eq Let_def)

lemma lines_view:
  "link_view (channel_watch s) = link_view s" "radioStations (channel_watch s) = radioStations s"
  "s_enabled (channel_watch s) = s_enabled s"
  "link_view (heartbeat rssi s) = link_view s" "radioStations (heartbeat rssi s) = radioStations s"
  "s_enabled (heartbeat rssi s) = s_enabled s"
  by (simp_all add: link_view_def channel_watch_def heartbeat_def log_at_eq Let_def)

text \<open>A connection that is up is left alone by the last three stages.\<close>

lemma up_rests:
  "\<not> attemptActive s \<Longrightarrow> check_attempt s = s" "\<not> reconnectPending s \<Longrightarrow> try_reconnect s = s"
  "unat (upstreamFailStreak s) < 3 \<Longrightarrow> uplink_recovery s = s"
  by (simp_all add: check_attempt_def try_reconnect_def uplink_recovery_def kUplinkFailStreak_def word_le_nat_alt)

section \<open>The turn\<close>

text \<open>A turn that finds the uplink up, a client with a lease, and no two failed rounds.\<close>

lemma serving_turn:
  fixes s :: "'a router_scheme" and P :: plat and E :: loop_env
  assumes "link_view s = (True, False, False, True, False)" and "0 < radioStations s"
    and "unat (failStreak (g_up s)) < 2" and "0 < stationNum (drv E)" and "napt_ok E"
    and "\<not> halted (router_loop P E s)"
  obtains s9 where "router_loop P E s = status_led s9" "(router_step P)\<^sup>*\<^sup>* s s9"
    "link_view s9 = (True, False, False, True, False)" "0 < radioStations s9" "s_enabled s9"
proof -
  define s3 where "s3 = pollRadio (drv E) (portal_loop P (fw E) (log_snaps E) (request_in E) (watchdog_update True s))"
  have s3: "link_view s3 = link_view s" "0 < radioStations s3" "g_up s3 = g_up s"
    unfolding s3_def by (simp_all add: watchdog_view portal_view radio_view assms(2,4))
  define s4 where "s4 = reconcileNapt (napt_ok E) s3"
  have "napt_isEnabled s4"
    using s3 assms(1,5) by (simp add: s4_def reconcile_result napt_wanted_def link_view_def)
  then have s4: "link_view s4 = link_view s" "0 < radioStations s4" "g_up s4 = g_up s" "s_enabled s4"
    unfolding napt_isEnabled_def by (simp_all add: s4_def napt_view s3)
  define s5 where "s5 = probe_stage (gatewayIP (drv E)) (ping_up E) (ping_down E) s4"
  have s5: "link_view s5 = link_view s" "0 < radioStations s5" "s_enabled s5" by (simp_all add: s5_def probe_view s4)
  have "uplinkReady s4" using s4(1) assms(1) by (simp add: link_view_def)
  then have "unat (failStreak (g_up s5)) < 3"
    using probe_streak [of s4 "gatewayIP (drv E)" "ping_up E" "ping_down E"] assms(3) by (simp add: s5_def s4)
  then have rec: "uplink_recovery s5 = s5" by (intro up_rests) (simp add: upstreamFailStreak_def)
  define s9 where "s9 = heartbeat (sta_rssi (drv E)) (channel_watch (client_recovery s5))"
  have s9: "link_view s9 = link_view s" "0 < radioStations s9" "s_enabled s9"
    by (simp_all add: s9_def client_view lines_view s5)
  have led: "\<not> attemptActive (status_led s9)" "\<not> reconnectPending (status_led s9)"
    using s9(1) assms(1) by (simp_all add: status_led_def link_view_def)
  have "uplinkReady s" using assms(1) by (simp add: link_view_def)
  then have "router_loop P E s = try_reconnect (check_attempt (status_led
      (heartbeat (sta_rssi (drv E)) (channel_watch (client_recovery (uplink_recovery s5))))))"
    using turn_full(1) [OF assms(6)] by (simp add: s5_def s4_def s3_def)
  then have "router_loop P E s = try_reconnect (check_attempt (status_led s9))"
    by (simp only: rec s9_def)
  then have "router_loop P E s = status_led s9" using up_rests(1) [OF led(1)] up_rests(2) [OF led(2)] by simp
  moreover have "(router_step P)\<^sup>*\<^sup>* s s9"
    unfolding s9_def s5_def s4_def s3_def
    by (rule then_step, rule rs_heartbeat, rule then_step, rule rs_channel, rule then_step,
        rule rs_client_recovery, rule then_step, rule rs_probe, rule then_step, rule rs_napt,
        rule then_step, rule rs_radio, rule then_step, rule rs_portal)
      (use rs_watchdog [of P s] \<open>uplinkReady s\<close> in auto)
  ultimately show ?thesis using that s9 assms(1) by simp
qed

section \<open>Properties\<close>

text \<open>C5. Service comes up. In any reachable state with the access point running, a client
  counted and fewer than two failed probe rounds towards the gateway, let the uplink get its
  address and the client its lease, in this or the other order. If the driver still counts a
  client and takes NAPT, then one turn of \<open>loop()\<close> later the uplink is still up with nothing
  pending, NAPT is on and was the last the driver was told, and the LED flashes blue or is
  in the dark half of its period; unless the board has been restarted, by a reboot that came
  due in this turn or before it.\<close>

theorem service_comes_up:
  fixes s :: "'a router_scheme" and P :: plat and E :: loop_env and up lease :: wifi_event
  assumes "reach (router_init P sec) (router_step P) s" and "\<not> softApFailed s" and "0 < radioStations s"
    and "unat (upstreamFailStreak s) < 2" and "0 < stationNum (drv E)" and "napt_ok E"
    and "up = STA_GOT_IP ip gw d ch" and "lease = AP_STAIPASSIGNED cl"
    and "evs = [up, lease] \<or> evs = [lease, up]"
  defines "t \<equiv> router_loop P E (fold (onWiFiEvent (codec P)) evs s)"
  shows "halted t \<or> link_of t = (Online, backoffMs t) \<and> \<not> reconnectPending t \<and>
    napt_isEnabled t \<and> driver_napt False (calls t) \<and>
    shown t \<in> Some ` {scaled (g_brightness t) kBlue, scaled (g_brightness t) kOff}"
proof (cases "halted t")
  case False
  let ?u = "fold (onWiFiEvent (codec P)) evs s"
  have u: "link_view ?u = (True, False, False, True, False)" "0 < radioStations ?u"
    using assms(2,3,7-9) by (auto simp: link_view_def Let_def)
  have "g_up ?u = g_up s" using assms(9) by (auto simp: event_probes simp del: onWiFiEvent.simps)
  then have streak: "unat (failStreak (g_up ?u)) < 2" using assms(4) by (simp add: upstreamFailStreak_def)
  have ru: "reach (router_init P sec) (router_step P) ?u"
    using assms(9) reach_step [OF reach_step [OF assms(1) rs_event] rs_event]
    by (auto simp del: onWiFiEvent.simps)
  obtain s9 where s9: "t = status_led s9" "(router_step P)\<^sup>*\<^sup>* ?u s9"
    "link_view s9 = (True, False, False, True, False)" "0 < radioStations s9" "s_enabled s9"
    unfolding t_def by (rule serving_turn [OF u streak assms(5,6) False [unfolded t_def]])
  have r9: "reach (router_init P sec) (router_step P) s9" by (rule reach_rtranclp [OF s9(2) ru])
  have "hw_ok s9" using r9 by (rule devs.always)
  have "hw_ok t" unfolding s9(1) by (rule devs.always, rule reach_step [OF r9 rs_led])
  have st: "ledState s9 = Connected" using s9(3,4) by (simp add: ledState_def link_view_def)
  have "shown t = Some (scaled (g_brightness s9) (led_expected Connected (clock s9 (tick s9))))"
    and "g_brightness t = g_brightness s9"
    using \<open>hw_ok s9\<close> st by (simp_all add: s9(1) status_led_def led_update_eq led_write_shown hw_ok_def)
  then have "shown t \<in> Some ` {scaled (g_brightness t) kBlue, scaled (g_brightness t) kOff}"
    by (auto simp: led_expected_def)
  moreover have "s_enabled t" using s9(5) by (simp add: s9(1) status_led_def led_update_eq led_write_def call_def Let_def)
  moreover from this have "driver_napt False (calls t)" using \<open>hw_ok t\<close> by (simp add: hw_ok_def)
  moreover have "link_of t = (Online, backoffMs t) \<and> \<not> reconnectPending t"
    using s9(3) by (simp add: s9(1) status_led_def link_of_def link_view_def)
  ultimately show ?thesis by (simp add: napt_isEnabled_def)
qed simp

lemma booted_fields:
  "lastRadioPollMs booted = 0" "\<not> softApFailed booted" "upstreamFailStreak booted = 0"
proof -
  let ?b = "setup_router demo_plat demo_secrets boot_demo router_demo"
  have r: "lastRadioPollMs (startAttempt r) = lastRadioPollMs r" for r :: router
    by (simp add: startAttempt_def Let_def)
  show "lastRadioPollMs booted = 0"
    by (simp add: booted_def setup_router_def portal_begin_def Let_def case_prod_beta r) (simp add: router_demo_fields)
  have "ap_up (ap_answers boot_demo)" by (simp add: ap_up_def boot_demo_def)
  then show "\<not> softApFailed booted"
    using setup_brings_up(2) [OF power_on_demo, of demo_plat demo_secrets boot_demo] by (simp add: booted_def)
  have g: "g_up (call c r) = g_up r" "g_up (log_at m r) = g_up r" "g_up (log_printf m r) = g_up r"
    "g_up (setBrightness b r) = g_up r" "g_up (led_begin r) = g_up r"
    for c m b and r :: router
    by (simp_all add: call_def log_at_eq log_printf_def setBrightness_def led_begin_def led_write_def Let_def)
  have q: "g_up (watchdog_begin a ok r) = g_up r" "g_up (snd (softap_begin C x r)) = g_up r"
    "g_up (startAttempt r) = g_up r" for a ok C x and r :: router
    using view_quiet [OF quiet_boot(1) [of r a ok]] view_quiet [OF quiet_boot(2) [of r C x]]
      view_quiet [OF quiet_start [of r]] by simp_all
  have "failStreak (g_up router_demo) = 0"
    using power_on_demo by (simp add: power_on_def init_probe_def)
  then show "upstreamFailStreak booted = 0"
    by (simp add: booted_def setup_router_def portal_begin_def health_begin_def upstreamFailStreak_def
        Let_def case_prod_beta g q)
qed

lemma setup_sup:
  fixes s0 :: "'a router_scheme"
  assumes "task_ok B"
  shows "sup (setup_router P sec B s0) = SupDelay"
proof -
  have s: "sup (log_printf m r) = sup r" "sup (setBrightness b r) = sup r" "sup (led_begin r) = sup r"
    "sup (snd (softap_begin C x r)) = sup r" "sup (health_begin r) = sup r" "sup (startAttempt r) = sup r"
    for m b C x and r :: "'a router_scheme"
    by (simp_all add: log_printf_def setBrightness_def led_begin_def led_write_def softap_begin_def
        applyDnsOffer_def health_begin_def startAttempt_def uplink_begin_def Let_def split: option.split)
  show ?thesis
    using assms by (simp add: setup_router_def portal_begin_def Let_def case_prod_beta s)
      (simp add: watchdog_begin_def Let_def)
qed

text \<open>A board that has just booted is running, and no reboot is due.\<close>

lemma booted_runs: "\<not> halted booted" "g_rebootAtMs booted = 0"
proof -
  have "sup (setup_router demo_plat demo_secrets boot_demo router_demo) = SupDelay"
    by (rule setup_sup) (simp add: boot_demo_def)
  then show "\<not> halted booted"
    using setup_config(4) [of demo_plat demo_secrets boot_demo router_demo] power_on_demo
    by (simp add: booted_def halted_def power_on_def)
  show "g_rebootAtMs booted = 0"
    using setup_config(3) [of demo_plat demo_secrets boot_demo router_demo] power_on_demo
    by (simp add: booted_def power_on_def)
qed

lemma demo_turn_runs:
  assumes "apart booted s"
  shows "\<not> halted (router_loop demo_plat env_demo s)"
  using assms booted_runs halted_apart [OF assms]
  by (intro quiet_turn_runs) (simp_all add: apart_def guarded_data_def env_demo_def)

lemma apart_events: "apart s (fold (onWiFiEvent C) evs s)"
proof (induction evs arbitrary: s)
  case (Cons ev evs)
  then show ?case using apart_trans [OF apart_stages(11) Cons] by (simp del: onWiFiEvent.simps)
qed simp

theorem service_comes_up_witness:
  "let t = router_loop demo_plat env_demo (fold (onWiFiEvent dotted)
         [AP_STAIPASSIGNED (IP 192 168 5 2), STA_GOT_IP (IP 10 0 0 7) (IP 10 0 0 1) (IP 1 1 1 1) 6]
         (pollRadio web_demo booted))
   in fst (link_of t) = Online \<and> napt_isEnabled t \<and> shown t \<noteq> None"
proof -
  let ?s = "pollRadio web_demo booted"
  have r: "reach (router_init demo_plat demo_secrets) (router_step demo_plat) ?s"
    by (rule reach_step [OF reach_booted rs_radio])
  have "g_up ?s = g_up booted" by (rule radio_view)
  then have s: "\<not> softApFailed ?s" "0 < radioStations ?s" "unat (upstreamFailStreak ?s) < 2"
    using booted_fields by (simp_all add: pollRadio_def web_demo_def upstreamFailStreak_def)
  have e: "0 < stationNum (drv env_demo)" "napt_ok env_demo" by (simp_all add: env_demo_def web_demo_def)
  have p: "codec demo_plat = dotted" by (simp add: demo_plat_def)
  have all: "fst (link_of t) = Online \<and> napt_isEnabled t \<and> shown t \<noteq> None"
    if "halted t \<or> link_of t = (Online, b) \<and> q \<and> napt_isEnabled t \<and> q' \<and> shown t \<in> Some ` C" "\<not> halted t"
    for t :: router and b q q' C using that by auto
  show ?thesis
    unfolding Let_def
    by (rule all, rule service_comes_up [OF r s e refl refl disjI2, unfolded p, OF refl])
      (rule demo_turn_runs, rule apart_trans [OF apart_stages(1) apart_events])
qed

lemma down_turn:
  fixes s :: "'a router_scheme" and P :: plat and E :: loop_env
  assumes "\<not> uplinkReady s" and "\<not> halted (router_loop P E s)"
  obtains s9 where "router_loop P E s = try_reconnect (check_attempt (status_led s9))" "(router_step P)\<^sup>*\<^sup>* s s9"
    "\<not> uplinkReady s9" "softApFailed s9 = softApFailed s" "\<not> s_enabled s9"
proof -
  define s3 where "s3 = pollRadio (drv E) (portal_loop P (fw E) (log_snaps E) (request_in E) (watchdog_update False s))"
  have s3: "link_view s3 = link_view s" unfolding s3_def by (simp add: watchdog_view portal_view radio_view)
  define s4 where "s4 = reconcileNapt (napt_ok E) s3"
  have "\<not> uplinkReady s3" using s3 assms(1) by (simp add: link_view_def)
  then have s4: "link_view s4 = link_view s" "\<not> napt_isEnabled s4"
    by (simp_all add: s4_def napt_view s3 reconcile_result napt_wanted_def)
  define s5 where "s5 = probe_stage (gatewayIP (drv E)) (ping_up E) (ping_down E) s4"
  have s5: "link_view s5 = link_view s" "\<not> s_enabled s5"
    using s4 by (simp_all add: s5_def probe_view napt_isEnabled_def)
  then have rec: "uplink_recovery s5 = s5" using assms(1) by (simp add: uplink_recovery_def link_view_def)
  define s9 where "s9 = heartbeat (sta_rssi (drv E)) (channel_watch (client_recovery s5))"
  have s9: "link_view s9 = link_view s" "\<not> s_enabled s9" by (simp_all add: s9_def client_view lines_view s5)
  have "router_loop P E s = try_reconnect (check_attempt (status_led
      (heartbeat (sta_rssi (drv E)) (channel_watch (client_recovery (uplink_recovery s5))))))"
    using assms(1) turn_full(1) [OF assms(2)] by (simp add: s5_def s4_def s3_def)
  then have "router_loop P E s = try_reconnect (check_attempt (status_led s9))"
    by (simp only: rec s9_def)
  moreover have "(router_step P)\<^sup>*\<^sup>* s s9"
    unfolding s9_def s5_def s4_def s3_def
    by (rule then_step, rule rs_heartbeat, rule then_step, rule rs_channel, rule then_step,
        rule rs_client_recovery, rule then_step, rule rs_probe, rule then_step, rule rs_napt,
        rule then_step, rule rs_radio, rule then_step, rule rs_portal)
      (use rs_watchdog [of P s] assms(1) in auto)
  ultimately show ?thesis using that s9 assms by (simp add: link_view_def)
qed

lemma shown_quiet: "quiet s t \<Longrightarrow> shown t = shown s"
  by (auto simp: quiet_def shown_def plain_calls)

lemma bright_rest:
  "g_brightness (log_at m s) = g_brightness s" "g_brightness (log_printf m s) = g_brightness s"
  "g_brightness (call c s) = g_brightness s"
  by (simp_all add: log_at_eq log_printf_def call_def Let_def)

lemma bright_attempt:
  fixes s :: "'a router_scheme"
  shows "g_brightness (scheduleReconnect s) = g_brightness s" "g_brightness (startAttempt s) = g_brightness s"
  by (simp_all add: scheduleReconnect_def startAttempt_def uplink_begin_def bright_rest Let_def)

lemma attempt_rest:
  "uplinkReady (check_attempt s) = uplinkReady s" "uplinkReady (try_reconnect s) = uplinkReady s"
  "g_brightness (check_attempt s) = g_brightness s" "g_brightness (try_reconnect s) = g_brightness s"
  by (simp_all add: check_attempt_def try_reconnect_def bright_rest bright_attempt Let_def)

lemma lost_view:
  "\<not> uplinkReady (link_lost s)" "softApFailed (link_lost s) = softApFailed s" "\<not> napt_isEnabled (link_lost s)"
proof -
  have r: "softApFailed (scheduleReconnect r) = softApFailed r" "napt_isEnabled (scheduleReconnect r) = napt_isEnabled r"
    for r :: "'a router_scheme"
    using view_quiet [OF quiet_schedule [of r]] by (simp_all add: napt_isEnabled_def scheduleReconnect_def Let_def)
  show "\<not> uplinkReady (link_lost s)" "softApFailed (link_lost s) = softApFailed s"
    by (simp_all add: link_lost_def r Let_def)
  have "\<not> napt_isEnabled (napt_disable s')" for s' :: "'a router_scheme" by (rule napt.off_disable)
  then show "\<not> napt_isEnabled (link_lost s)"
    by (simp add: link_lost_def r Let_def) (simp add: napt_isEnabled_def log_at_eq)
qed

text \<open>C6. Service goes down. When the uplink is lost, forwarding stops in the event itself, before
  any turn of \<open>loop()\<close>; the next turn leaves NAPT off and the uplink down, and shows the loss
  in red, or, when the access point had failed to start, that fault in magenta; unless the
  board has been restarted, by a reboot that came due in this turn or before it.\<close>

theorem service_goes_down:
  fixes s :: "'a router_scheme" and P :: plat and E :: loop_env and ev :: wifi_event
  assumes "reach (router_init P sec) (router_step P) s"
    and "ev = STA_DISCONNECTED \<or> ev = STA_LOST_IP"
  defines "u \<equiv> onWiFiEvent (codec P) ev s"
  defines "t \<equiv> router_loop P E u"
  shows "\<not> napt_isEnabled u \<and> (halted t \<or> \<not> napt_isEnabled t \<and> \<not> uplinkReady t \<and>
    shown t \<in> (if softApFailed s then {Some (scaled (g_brightness t) kMagenta)}
      else Some ` {scaled (g_brightness t) kRed, scaled (g_brightness t) kOff}))"
proof (cases "halted t")
  case True
  then show ?thesis using assms(2) lost_view(3) [of s] by (auto simp: u_def)
next
  case False
  have u: "\<not> uplinkReady u" "softApFailed u = softApFailed s" "\<not> napt_isEnabled u"
    using assms(2) lost_view [of s] by (auto simp: u_def)
  have ru: "reach (router_init P sec) (router_step P) u"
    unfolding u_def by (rule reach_step [OF assms(1) rs_event])
  obtain s9 where s9: "t = try_reconnect (check_attempt (status_led s9))" "(router_step P)\<^sup>*\<^sup>* u s9"
    "\<not> uplinkReady s9" "softApFailed s9 = softApFailed s" "\<not> s_enabled s9"
    unfolding t_def u(2) [symmetric] by (rule down_turn [OF u(1) False [unfolded t_def]])
  have "hw_ok s9" using reach_rtranclp [OF s9(2) ru] by (rule devs.always)
  moreover have "ledState s9 = (if softApFailed s then Fault else UpstreamDown)"
    using s9(3,4) by (simp add: ledState_def)
  ultimately have "shown (status_led s9) = Some (scaled (g_brightness s9)
      (led_expected (if softApFailed s then Fault else UpstreamDown) (clock s9 (tick s9))))"
    and b: "g_brightness (status_led s9) = g_brightness s9"
    by (simp_all add: status_led_def led_update_eq led_write_shown hw_ok_def)
  moreover have q: "quiet (status_led s9) t"
    unfolding s9(1) by (rule quiet_trans [OF quiet_attempt(1) quiet_attempt(2)])
  moreover have "g_brightness t = g_brightness s9" by (simp add: s9(1) attempt_rest b)
  ultimately have "shown t \<in> (if softApFailed s then {Some (scaled (g_brightness t) kMagenta)}
      else Some ` {scaled (g_brightness t) kRed, scaled (g_brightness t) kOff})"
    using shown_quiet [OF q] by (auto simp: led_expected_def)
  moreover have "\<not> napt_isEnabled t"
    using view_quiet [OF q] s9(5)
    by (simp add: napt_isEnabled_def status_led_def led_update_eq led_write_def call_def Let_def)
  moreover have "\<not> uplinkReady t" using s9(3) by (simp add: s9(1) attempt_rest status_led_def)
  ultimately show ?thesis using u(3) by simp
qed

theorem service_goes_down_witness:
  "let t = router_loop demo_plat env_demo (onWiFiEvent dotted STA_LOST_IP booted)
   in \<not> napt_isEnabled t \<and> shown t \<in> Some ` {scaled (g_brightness t) kRed, scaled (g_brightness t) kOff}"
proof -
  have "codec demo_plat = dotted" by (simp add: demo_plat_def)
  then show ?thesis
    using service_goes_down [OF reach_booted, of STA_LOST_IP env_demo] booted_fields(2)
      demo_turn_runs [OF apart_stages(11) [of booted dotted STA_LOST_IP]]
    by (simp add: Let_def del: onWiFiEvent.simps)
qed

end
