(* ===== verification/Progress.thy ===== *)
theory Progress
  imports Service
begin

text \<open>
  Many turns of \<open>loop()\<close> with no event between them: an attempt that yields no address is
  given up in time, and a pending reconnect becomes an attempt in time, whatever requests,
  probes and diagnostics the turns serve, unless a reboot halts the board. Both are instances
  of the contract \<open>patient_loop\<close>.
\<close>

section \<open>A turn without an uplink\<close>

text \<open>How often the driver has been told to join.\<close>

fun is_join :: "dev_call \<Rightarrow> bool" where
  "is_join (StaBegin _ _) = True"
| "is_join _ = False"

definition begun :: "'a io_scheme \<Rightarrow> nat" where
  "begun s = length (filter is_join (calls s))"

lemma begun_more: "calls t = calls s @ cs \<Longrightarrow> begun s \<le> begun t"
  by (simp add: begun_def)

lemma begun_quiet: "quiet s t \<Longrightarrow> begun s \<le> begun t"
  unfolding quiet_def using begun_more by blast

lemma begun_pings: "pings_only s t \<Longrightarrow> begun s \<le> begun t"
  unfolding pings_only_def using begun_more by blast

lemma begun_io [simp]:
  "begun (log_at m s) = begun s" "begun (s\<lparr>tick := n\<rparr>) = begun s" "begun s \<le> begun (call c s)"
  by (simp_all add: begun_def)

lemma begun_stages:
  fixes s :: "'a router_scheme"
  shows "begun s \<le> begun (reconcileNapt ok s)" "begun s \<le> begun (probe_stage gw au ad s)"
    "begun s \<le> begun (client_recovery s)" "begun s \<le> begun (status_led s)"
proof -
  obtain n where n: "snd (leaseSettled s) = s\<lparr>tick := n\<rparr>" using leaseSettled_eq(2) by blast
  show "begun s \<le> begun (reconcileNapt ok s)"
    by (simp add: reconcileNapt_def case_prod_beta n napt_calls begun_def Let_def)
  show "begun s \<le> begun (probe_stage gw au ad s)"
    unfolding probe_stage_def Let_def by (rule order.trans [OF _ begun_pings [OF pings_update]]) (simp add: begun_def)
  show "begun s \<le> begun (client_recovery s)"
    by (simp add: client_recovery_def begun_def resetStreaks_def Let_def)
  show "begun s \<le> begun (status_led s)"
    by (simp add: status_led_def led_update_eq led_write_def begun_def Let_def)
qed

lemma begun_start:
  fixes s :: "'a router_scheme"
  shows "begun (startAttempt s) = Suc (begun s)"
  by (simp add: begun_def start_calls join_calls_def)

definition still :: "'a router_scheme \<Rightarrow> 'a router_scheme \<Rightarrow> bool" where
  "still s t \<longleftrightarrow> same_link s t \<and> later s t \<and> begun s \<le> begun t"

lemma same_link_trans: "same_link s t \<Longrightarrow> same_link t u \<Longrightarrow> same_link s u"
  by (simp add: same_link_def)

lemma still_refl: "still s s"
  by (simp add: still_def same_link_refl)

lemma still_trans: "still s t \<Longrightarrow> still t u \<Longrightarrow> still s u"
  by (auto simp: still_def intro: same_link_trans later_trans)

lemma still_stages:
  fixes s :: "'a router_scheme"
  shows "still s (watchdog_update u s)" "still s (portal_loop P e ls rqo s)" "still s (pollRadio e s)"
    "still s (reconcileNapt ok s)" "still s (probe_stage gw au ad s)" "still s (client_recovery s)"
    "still s (channel_watch s)" "still s (heartbeat rssi s)" "still s (status_led s)"
  by (simp_all add: still_def quiet_stages later_stages later_portal later_watchdog begun_stages
      begun_quiet [OF quiet_watchdog(1)] begun_quiet [OF quiet_portal] begun_quiet [OF quiet_stage(1)]
      begun_quiet [OF quiet_stage(2)] begun_quiet [OF quiet_stage(3)])

text \<open>With the uplink down a turn comes to its last two stages, whatever the others do, unless
  it restarts the board.\<close>

lemma turn_down:
  assumes "\<not> uplinkReady s" and "\<not> halted (router_loop P E s)"
  obtains u where "router_loop P E s = try_reconnect (check_attempt u)" "still s u"
proof -
  define a where "a = reconcileNapt (napt_ok E) (pollRadio (drv E)
    (portal_loop P (fw E) (log_snaps E) (request_in E) (watchdog_update (uplinkReady s) s)))"
  define b where "b = probe_stage (gatewayIP (drv E)) (ping_up E) (ping_down E) a"
  define u where "u = status_led (heartbeat (sta_rssi (drv E)) (channel_watch (client_recovery b)))"
  have b: "still s b" unfolding b_def a_def
    by (rule still_trans [OF _ still_stages(5)], rule still_trans [OF _ still_stages(4)],
        rule still_trans [OF _ still_stages(3)], rule still_trans [OF still_stages(1) still_stages(2)])
  then have rec: "uplink_recovery b = b" using assms(1) by (simp add: uplink_recovery_def still_def same_link_def)
  have "still s u" unfolding u_def
    by (rule still_trans [OF _ still_stages(9)], rule still_trans [OF _ still_stages(8)],
        rule still_trans [OF _ still_stages(7)], rule still_trans [OF b still_stages(6)])
  moreover have "router_loop P E s = try_reconnect (check_attempt
      (status_led (heartbeat (sta_rssi (drv E)) (channel_watch (client_recovery (uplink_recovery b))))))"
    using turn_full(1) [OF assms(2)] by (simp only: a_def b_def)
  then have "router_loop P E s = try_reconnect (check_attempt u)" by (simp only: rec u_def)
  ultimately show ?thesis by (rule that [rotated])
qed

lemma still_real_time: "still s t \<Longrightarrow> real_time T t = real_time T s"
  by (rule real_time_cong) (simp add: still_def later_def)

section \<open>Retries\<close>

definition waiting :: "'a router_scheme \<Rightarrow> bool" where
  "waiting s \<longleftrightarrow> \<not> uplinkReady s \<and> \<not> attemptActive s \<and> reconnectPending s"

lemma waiting_turn:
  assumes "waiting s"
  obtains (start) "halted (router_loop P E s) \<or> attemptActive (router_loop P E s)"
  | (wait) k where "still s (router_loop P E s)"
      "tick s \<le> k" "k \<le> tick (router_loop P E s)" "\<not> reconnectAtMs s \<le> clock s k"
proof (cases "halted (router_loop P E s)")
  case False
  have "\<not> uplinkReady s" using assms by (simp add: waiting_def)
  then obtain u where u: "router_loop P E s = try_reconnect (check_attempt u)" "still s u"
    using False by (rule turn_down)
  have c: "check_attempt u = u" "reconnectPending u"
    using assms u(2) by (simp_all add: up_rests waiting_def still_def same_link_def)
  show ?thesis
  proof (cases "reconnectAtMs u \<le> clock u (tick u)")
    case True
    then show ?thesis using start c by (simp add: u(1) try_reconnect_due)
  next
    case False
    then have "router_loop P E s = u\<lparr>tick := Suc (tick u)\<rparr>" using c by (simp add: u(1) try_reconnect_def)
    then show ?thesis using wait [of "tick u"] False u(2) by (simp add: still_def same_link_def later_def)
  qed
qed (rule start, simp)

interpretation retry: patient_loop "router_loop P" still waiting "\<lambda>t. halted t \<or> attemptActive t" for P
proof unfold_locales
  show "(halted (router_loop P E s) \<or> attemptActive (router_loop P E s)) \<or> still s (router_loop P E s)"
    if "waiting s" for E and s :: "'a router_scheme"
    by (rule waiting_turn [OF that, of P E]) auto
qed (auto simp: still_refl waiting_def still_def same_link_def intro: later_trans)

section \<open>Attempts\<close>

text \<open>An attempt that began at the reading \<open>x\<close>, the \<open>b\<close>th of the board, and its end: a reconnect
  is pending, or the next attempt has already begun.\<close>

definition trying :: "u32 \<Rightarrow> nat \<Rightarrow> 'a router_scheme \<Rightarrow> bool" where
  "trying x b s \<longleftrightarrow> \<not> uplinkReady s \<and> attemptActive s \<and> \<not> reconnectPending s \<and>
     attemptStartedMs s = x \<and> b \<le> begun s"

definition over :: "nat \<Rightarrow> 'a router_scheme \<Rightarrow> bool" where
  "over b t \<longleftrightarrow> halted t \<or> reconnectPending t \<or> attemptActive t \<and> b < begun t"

text \<open>When an attempt is given up, a reconnect that comes due in the same turn starts another
  one.\<close>

lemma given_up:
  fixes u :: "'a router_scheme"
  assumes "trying x b u"
    and w: "w = scheduleReconnect (log_at m (u\<lparr>tick := n, attemptActive := False\<rparr>))"
  shows "over b (try_reconnect w)"
proof -
  have c: "reconnectPending w" "begun w = begun u"
    by (simp_all add: w scheduleReconnect_def begun_def Let_def)
  show ?thesis
  proof (cases "reconnectAtMs w \<le> clock w (tick w)")
    case False
    then show ?thesis using c(1) by (simp add: try_reconnect_def over_def Let_def)
  next
    case True
    let ?r = "log_at ''STA reconnecting'' (w\<lparr>tick := Suc (tick w), reconnectPending := False\<rparr>)"
    have "try_reconnect w = startAttempt ?r" using c(1) True by (rule try_reconnect_due)
    moreover have "attemptActive (startAttempt ?r)" by (simp add: startAttempt_def uplink_begin_def Let_def)
    moreover have "begun ?r = begun w" by (simp add: begun_def)
    ultimately show ?thesis using assms(1) c(2) by (simp add: over_def begun_start trying_def del: begun_io)
  qed
qed

lemma trying_still: "trying x b s \<Longrightarrow> still s t \<Longrightarrow> trying x b t"
  by (auto simp: trying_def still_def same_link_def)

lemma begun_check: "begun s \<le> begun (check_attempt s)"
  by (rule begun_quiet) (rule quiet_attempt)

lemma trying_turn:
  assumes "trying x b s"
  obtains (ended) "over b (router_loop P E s)"
  | (wait) u where "still s (router_loop P E s)" "still s u" "attemptActive (check_attempt u)"
      "tick u \<le> tick (router_loop P E s)"
proof (cases "halted (router_loop P E s)")
  case False
  have "\<not> uplinkReady s" using assms by (simp add: trying_def)
  then obtain u where u: "router_loop P E s = try_reconnect (check_attempt u)" "still s u"
    using False by (rule turn_down)
  have tu: "trying x b u" by (rule trying_still [OF assms u(2)])
  show ?thesis
  proof (cases rule: check_attempt_cases [of u])
    case idle
    then have k: "still u (check_attempt u)" by (simp add: still_def begun_check)
    have c: "trying x b (check_attempt u)" by (rule trying_still [OF tu k])
    then have "router_loop P E s = check_attempt u"
      using up_rests(2) [of "check_attempt u"] by (simp add: u(1) trying_def)
    moreover have "still s (check_attempt u)" by (rule still_trans [OF u(2) k])
    ultimately show ?thesis using wait [of u] u(2) k c by (simp add: trying_def still_def later_def)
  next
    case (ended m n)
    then show ?thesis using that(1) given_up [OF tu ended(3)] by (simp add: u(1))
  qed
qed (rule ended, simp add: over_def)

interpretation attempt: patient_loop "router_loop P" still "trying x b" "over b" for P x b
proof unfold_locales
  show "over b (router_loop P E s) \<or> still s (router_loop P E s)"
    if "trying x b s" for E and s :: "'a router_scheme"
    by (rule trying_turn [OF that, of P E]) auto
qed (auto intro: still_refl still_trans trying_still)

section \<open>Examples\<close>

text \<open>A board whose counter stands for its first hundred readings and then jumps by 20 seconds.\<close>

definition jump :: "nat \<Rightarrow> nat" where
  "jump k = (if k < 100 then 0 else 20000)"

definition jump_demo :: router where
  "jump_demo = setup_router demo_plat demo_secrets boot_demo
     (router_demo\<lparr>clock := (\<lambda>k. of_nat (jump k)), tick := 0\<rparr>)"

definition trying_demo :: router where
  "trying_demo = jump_demo\<lparr>tick := 99\<rparr>"

definition dropped_demo :: router where
  "dropped_demo = (onWiFiEvent dotted STA_LOST_IP
     (onWiFiEvent dotted (STA_GOT_IP (IP 10 0 0 7) (IP 10 0 0 1) (IP 1 1 1 1) 6) jump_demo))\<lparr>tick := 99\<rparr>"

lemma tick_setup: "tick (setup_router demo_plat demo_secrets boot_demo s) \<le> tick s + 20"
proof -
  have sa: "tick (snd (softap_begin C a r)) = tick r" if "nat_debug a = None" for C a and r :: "'a router_scheme"
    using that by (simp add: softap_begin_def applyDnsOffer_def call_def Let_def)
  have l: "tick (log_at m r) = Suc (tick r)" "tick (log_printf m r) = tick r" "tick (call c r) = tick r" for m c and r :: "'a router_scheme"
    by (simp_all add: log_at_eq log_printf_def call_def Let_def)
  have w: "tick (watchdog_begin a ok r) \<le> tick r + 5" for a ok and r :: "'a router_scheme"
    by (simp add: watchdog_begin_def markUplinkDown_def l Let_def)
  have h: "tick (health_begin r) = tick r" "tick (led_begin r) = tick r" "tick (setBrightness b r) = tick r"
    for b and r :: "'a router_scheme"
    by (simp_all add: health_begin_def led_begin_def led_write_def setBrightness_def l Let_def)
  let ?Z = "log_printf ([LF] @ ''SpoolGate '' @ em_dash @ '' ESP32 NAT router '' @ em_dash
      @ '' arduino-esp32 core '' @ core_version boot_demo @ [LF])
    (logbuf_begin (call (Delay 200) (call (SerialBegin 115200) s)))"
  have "\<exists>Y. setup_router demo_plat demo_secrets boot_demo s = log_at ''STA connecting'' (startAttempt Y) \<and>
      tick Y = tick (watchdog_begin ESP_RST_POWERON True ?Z) + 2"
    unfolding setup_router_def Let_def case_prod_beta
    by (intro exI conjI, rule refl) (simp add: l sa h boot_demo_def softap_begin_result portal_begin_def)
  then obtain Y where "setup_router demo_plat demo_secrets boot_demo s = log_at ''STA connecting'' (startAttempt Y)"
    "tick Y = tick (watchdog_begin ESP_RST_POWERON True ?Z) + 2" by blast
  then show ?thesis
    using startAttempt_tick [of Y] w [of ESP_RST_POWERON True ?Z] by (simp add: l)
qed

lemma lost_time: "later s (link_lost s)" "tick (link_lost s) \<le> tick s + 4"
  by (simp_all add: later_def link_lost_def scheduleReconnect_def napt_disable_def Let_def)

lemma jump_facts:
  "reach (router_init demo_plat demo_secrets) (router_step demo_plat) jump_demo"
  "clock jump_demo = (\<lambda>k. of_nat (jump k))" "tick jump_demo \<le> 20"
  "attemptActive jump_demo" "mono jump"
proof -
  define b where "b = router_demo\<lparr>clock := (\<lambda>k. of_nat (jump k)), tick := 0\<rparr>"
  have d: "jump_demo = setup_router demo_plat demo_secrets boot_demo b" by (simp add: jump_demo_def b_def)
  have p: "power_on b" using power_on_demo by (simp add: power_on_def b_def)
  then show "reach (router_init demo_plat demo_secrets) (router_step demo_plat) jump_demo"
    unfolding d by (intro reach_init) (auto simp: router_init_def)
  show "clock jump_demo = (\<lambda>k. of_nat (jump k))" by (simp add: d setup_clock) (simp add: b_def)
  show "tick jump_demo \<le> 20" using tick_setup [of b] by (simp add: d b_def)
  show "attemptActive jump_demo"
    using setup_conn [OF p, of demo_plat demo_secrets boot_demo]
    by (auto simp: d link_of_def conn_inv_def link_wf_def split: if_splits)
  show "mono jump" by (auto simp: mono_def jump_def)
qed

lemma wait_till_99:
  assumes "reach (router_init demo_plat sec) (router_step demo_plat) l" and "tick l \<le> 99"
  shows "reach (router_init demo_plat sec) (router_step demo_plat) (l\<lparr>tick := 99\<rparr>)"
  using reach_step [OF assms(1) rs_time, of "99 - tick l"] assms(2) by simp

lemma trying_facts:
  "reach (router_init demo_plat demo_secrets) (router_step demo_plat) trying_demo"
  "attemptActive trying_demo" "real_time jump trying_demo" "tick trying_demo = 99"
  using wait_till_99 [OF jump_facts(1)] jump_facts(2-5) by (simp_all add: trying_demo_def real_time_def)

lemma dropped_facts:
  "reach (router_init demo_plat demo_secrets) (router_step demo_plat) dropped_demo"
  "reconnectPending dropped_demo" "real_time jump dropped_demo" "tick dropped_demo = 99"
proof -
  define g where "g = onWiFiEvent dotted (STA_GOT_IP (IP 10 0 0 7) (IP 10 0 0 1) (IP 1 1 1 1) 6) jump_demo"
  define l where "l = onWiFiEvent dotted STA_LOST_IP g"
  have d: "dropped_demo = l\<lparr>tick := 99\<rparr>" by (simp add: dropped_demo_def l_def g_def)
  have p: "codec demo_plat = dotted" by (simp add: demo_plat_def)
  have "reach (router_init demo_plat demo_secrets) (router_step demo_plat) l"
    unfolding l_def g_def using rs_event [of demo_plat] p jump_facts(1) by (metis reach_step)
  moreover have "later jump_demo g" "tick g \<le> 21"
    using jump_facts(3) by (simp_all add: g_def later_def log_at_eq log_printf_def Let_def)
  moreover have "later g l" "tick l \<le> tick g + 4" using lost_time [of g] by (simp_all add: l_def)
  ultimately show "reach (router_init demo_plat demo_secrets) (router_step demo_plat) dropped_demo"
    and "real_time jump dropped_demo"
    using wait_till_99 [of demo_secrets l] jump_facts(2,5) by (simp_all add: d real_time_def later_def)
  have "\<not> attemptActive g" by (simp add: g_def Let_def)
  then show "reconnectPending dropped_demo"
    by (simp add: d l_def link_lost_def scheduleReconnect_def Let_def)
  show "tick dropped_demo = 99" by (simp add: d)
qed

lemma jump_runs: "\<not> halted jump_demo" "g_rebootAtMs jump_demo = 0"
proof -
  let ?b = "router_demo\<lparr>clock := (\<lambda>k. of_nat (jump k)), tick := 0\<rparr>"
  have p: "power_on ?b" using power_on_demo by (simp add: power_on_def)
  show "g_rebootAtMs jump_demo = 0"
    using setup_config(3) [of demo_plat demo_secrets boot_demo ?b] p by (simp add: jump_demo_def power_on_def)
  have "sup jump_demo = SupDelay" unfolding jump_demo_def by (rule setup_sup) (simp add: boot_demo_def)
  then show "\<not> halted jump_demo"
    using setup_config(4) [of demo_plat demo_secrets boot_demo ?b] p
    by (simp add: jump_demo_def halted_def power_on_def)
qed

lemma jump_turn:
  assumes "apart jump_demo s" and "tick s = 99"
  shows "jump (tick s) + 20000 \<le> jump (tick (router_loop P E s))"
proof -
  have "\<not> halted s" using halted_apart [OF assms(1)] jump_runs(1) by simp
  then show ?thesis using loop_ticks [of s P E] assms(2) by (simp add: jump_def)
qed

lemma apart_tick: "apart s t \<Longrightarrow> apart s (t\<lparr>tick := n\<rparr>)"
  by (simp add: apart_def)

lemma demo_apart: "apart jump_demo trying_demo" "apart jump_demo dropped_demo"
proof -
  show "apart jump_demo trying_demo" unfolding trying_demo_def by (rule apart_tick [OF apart_refl])
  show "apart jump_demo dropped_demo" unfolding dropped_demo_def
    by (rule apart_tick [OF apart_trans [OF apart_stages(11) apart_stages(11)]])
qed

lemma demo_run_halts:
  assumes "apart jump_demo s"
  shows "\<not> halted (fold (router_loop demo_plat) (take n ([env_demo] @ [env_demo])) s)"
proof (rule quiet_turns_run)
  show "\<not> halted s" using halted_apart [OF assms] jump_runs(1) by simp
  show "g_rebootAtMs s = 0" using assms jump_runs(2) by (simp add: apart_def guarded_data_def)
  have "list_all (\<lambda>E. request_in E = None) ([env_demo] @ [env_demo])" by (simp add: env_demo_def)
  then show "list_all (\<lambda>E. request_in E = None) (take n ([env_demo] @ [env_demo]))"
    by (auto simp: list_all_iff dest: in_set_takeD)
qed

section \<open>Properties\<close>

text \<open>C2. An attempt ends in time. While an attempt is running and no event arrives, the turns
  of \<open>loop()\<close>, whatever requests and probes they serve, give it up at the latest in the
  first turn that begins 20 seconds after it began: then a reconnect is pending, or, when
  that came due in the same turn, the next attempt has begun and told the driver so. The
  only other way out is a reboot that comes due and halts the board. (As long as no more
  than one turn of the counter, 49.7 days, lies between the beginning and that turn.)\<close>

theorem attempt_in_time:
  fixes s :: "'a router_scheme" and P :: plat and T :: "nat \<Rightarrow> nat"
  assumes "reach (router_init P sec) (router_step P) s" and "attemptActive s" and "real_time T s"
  shows "(\<exists>i<tick s. attemptStartedMs s = clock s i) \<and>
    (\<forall>i Es E. attemptStartedMs s = clock s i \<and> i \<le> tick s \<and>
       T i + 20000 \<le> T (tick (fold (router_loop P) Es s)) \<and>
       T (tick (fold (router_loop P) (Es @ [E]) s)) - T i < 2 ^ 32 \<longrightarrow>
       (\<exists>n\<le>Suc (length Es). let t = fold (router_loop P) (take n (Es @ [E])) s
         in halted t \<or> reconnectPending t \<or> attemptActive t \<and> begun s < begun t))"
proof (intro conjI allI impI, goal_cases)
  case 1
  show ?case using conn.always [OF assms(1)] assms(2) by (auto simp: conn_inv_def)
next
  case (2 i Es E)
  have tr: "trying (attemptStartedMs s) (begun s) s"
    using conn.always [OF assms(1)] assms(2) by (auto simp: conn_inv_def link_wf_def trying_def)
  let ?u = "fold (router_loop P) Es s"
  have "over (begun s) (router_loop P E ?u)" if k: "still s ?u"
  proof (cases rule: trying_turn [OF trying_still [OF tr k], of P E, case_names ended wait])
    case (wait u)
    have v: "trying (attemptStartedMs s) (begun s) u" by (rule trying_still [OF trying_still [OF tr k] wait(2)])
    have c: "clock u = clock s" "tick ?u \<le> tick u" "tick s \<le> tick ?u" "real_time T u"
      using k wait(2) still_real_time [OF still_trans [OF k wait(2)], of T] assms(3)
      by (simp_all add: still_def later_def)
    note mono = real_time_mono [OF assms(3)]
    have "T (tick ?u) \<le> T (tick u)" "T (tick u) \<le> T (tick (router_loop P E ?u))"
      by (intro mono c wait(4))+
    moreover have "T i + 20000 \<le> T (tick ?u)" "T (tick (router_loop P E ?u)) - T i < 2 ^ 32"
      using 2 by simp_all
    ultimately have "T (tick u) - T i < 2 ^ 32" "T i + 20000 \<le> T (tick u)" by linarith+
    then have "\<not> attemptActive (check_attempt u)"
      using hard_timeout [of T u i] v c 2 by (simp add: trying_def)
    then show ?thesis using wait(3) by simp
  qed
  from attempt.settled_by [OF tr, of P Es E, OF this] show ?case by (simp add: over_def Let_def)
qed

theorem attempt_in_time_witness:
  "\<exists>n\<le>2. let t = fold (router_loop demo_plat) (take n ([env_demo] @ [env_demo])) trying_demo
    in reconnectPending t \<or> attemptActive t \<and> begun trying_demo < begun t"
proof -
  note a = attempt_in_time [OF trying_facts(1-3), THEN conjunct2, rule_format, of _ "[env_demo]" env_demo]
  obtain i where i: "i < tick trying_demo" "attemptStartedMs trying_demo = clock trying_demo i"
    using attempt_in_time [OF trying_facts(1-3)] by blast
  have "jump i + 20000 \<le> jump (tick (fold (router_loop demo_plat) [env_demo] trying_demo))"
    using jump_turn [OF demo_apart(1) trying_facts(4), of demo_plat env_demo] i(1) trying_facts(4)
    by (simp add: jump_def)
  moreover have "jump (tick (fold (router_loop demo_plat) ([env_demo] @ [env_demo]) trying_demo)) - jump i < 2 ^ 32"
    by (simp add: jump_def)
  ultimately obtain n where n: "n \<le> Suc (length [env_demo])"
    "let t = fold (router_loop demo_plat) (take n ([env_demo] @ [env_demo])) trying_demo
     in halted t \<or> reconnectPending t \<or> attemptActive t \<and> begun trying_demo < begun t"
    using a [of i] i by auto
  then have "let t = fold (router_loop demo_plat) (take n ([env_demo] @ [env_demo])) trying_demo
     in reconnectPending t \<or> attemptActive t \<and> begun trying_demo < begun t"
    using demo_run_halts [OF demo_apart(1), of n] unfolding Let_def by blast
  moreover have "n \<le> 2" using n(1) by simp
  ultimately show ?thesis by blast
qed

text \<open>C3. The retry comes in time. While a reconnect is pending and no event arrives, it has a
  deadline at most 15 seconds ahead, and the turns of \<open>loop()\<close>, whatever requests and probes
  they serve, start an attempt at the latest in the first turn that begins at the deadline
  or later, provided the counter does not roll over between the deadline and the end of that
  turn; when it does, \<open>reconnect_lost_at_rollover\<close> shows the retry missing. The only other
  way out is a reboot that comes due and halts the board.\<close>

theorem retry_in_time:
  fixes s :: "'a router_scheme" and P :: plat and T :: "nat \<Rightarrow> nat"
  assumes "reach (router_init P sec) (router_step P) s" and "reconnectPending s" and "real_time T s"
  shows "(\<exists>D\<le>T (tick s) + 15000. reconnectAtMs s = of_nat D) \<and>
    (\<forall>D Es E. reconnectAtMs s = of_nat D \<and> D \<le> T (tick (fold (router_loop P) Es s)) \<and>
       T (tick (fold (router_loop P) (Es @ [E]) s)) div 2 ^ 32 = D div 2 ^ 32 \<longrightarrow>
       (\<exists>n\<le>Suc (length Es). let t = fold (router_loop P) (take n (Es @ [E])) s
         in halted t \<or> attemptActive t))"
proof (intro conjI allI impI, goal_cases)
  case 1
  obtain j b where j: "j < tick s" "b \<in> backoffs" "reconnectAtMs s = clock s j + b"
    using conn.always [OF assms(1)] assms(2) by (auto simp: conn_inv_def)
  then have "reconnectAtMs s = of_nat (T j + unat b)" using real_time_clock [OF assms(3)] by simp
  moreover have "T j + unat b \<le> T (tick s) + 15000"
    using real_time_mono [OF assms(3), of j "tick s"] j(1) backoffs_bound [OF j(2)] by simp
  ultimately show ?case by blast
next
  case (2 D Es E)
  have w: "waiting s"
    using conn.always [OF assms(1)] assms(2) by (auto simp: conn_inv_def link_wf_def waiting_def)
  let ?u = "fold (router_loop P) Es s"
  have "halted (router_loop P E ?u) \<or> attemptActive (router_loop P E ?u)" if k: "still s ?u"
  proof (cases rule: waiting_turn [OF retry.stays_open [OF w k], of P E, case_names start wait])
    case (wait k')
    have c: "clock ?u = clock s" "reconnectAtMs ?u = reconnectAtMs s"
      using k by (simp_all add: still_def later_def same_link_def)
    have D: "D \<le> T k'" "T k' \<le> T (tick (router_loop P E ?u))"
      using real_time_mono [OF assms(3) wait(2)] real_time_mono [OF assms(3) wait(3)] 2 by simp_all
    have "D div 2 ^ 32 \<le> T k' div 2 ^ 32" using D(1) by (rule div_le_mono)
    moreover have "T k' div 2 ^ 32 \<le> D div 2 ^ 32" using div_le_mono [OF D(2), of "2 ^ 32"] 2 by simp
    ultimately have "D div 2 ^ 32 = T k' div 2 ^ 32" by simp
    from same_turn_less [OF this] D(1) have "reconnectAtMs ?u \<le> clock ?u k'"
      using real_time_clock [OF assms(3), of k'] word_of_nat_less [of "T k'" D] 2 by (simp add: c not_less [symmetric])
    then show ?thesis using wait(4) by simp
  qed simp
  from retry.settled_by [OF w, of P Es E, OF this] show ?case by (simp add: Let_def)
qed

theorem retry_in_time_witness:
  "\<exists>n\<le>2. attemptActive (fold (router_loop demo_plat) (take n ([env_demo] @ [env_demo])) dropped_demo)"
proof -
  note a = retry_in_time [OF dropped_facts(1-3), THEN conjunct2, rule_format, of _ "[env_demo]" env_demo]
  obtain D where D: "D \<le> jump (tick dropped_demo) + 15000" "reconnectAtMs dropped_demo = of_nat D"
    using retry_in_time [OF dropped_facts(1-3)] by blast
  have "D \<le> 15000" using D(1) dropped_facts(4) by (simp add: jump_def)
  moreover have "20000 \<le> jump (tick (fold (router_loop demo_plat) [env_demo] dropped_demo))"
    using jump_turn [OF demo_apart(2) dropped_facts(4), of demo_plat env_demo] dropped_facts(4) by (simp add: jump_def)
  moreover have "jump (tick (fold (router_loop demo_plat) ([env_demo] @ [env_demo]) dropped_demo)) div 2 ^ 32 = 0"
    by (simp add: jump_def)
  ultimately obtain n where n: "n \<le> Suc (length [env_demo])"
    "let t = fold (router_loop demo_plat) (take n ([env_demo] @ [env_demo])) dropped_demo
     in halted t \<or> attemptActive t"
    using a [of D] D(2) by auto
  then have "attemptActive (fold (router_loop demo_plat) (take n ([env_demo] @ [env_demo])) dropped_demo)"
    using demo_run_halts [OF demo_apart(2), of n] unfolding Let_def by blast
  moreover have "n \<le> 2" using n(1) by simp
  ultimately show ?thesis by blast
qed

end
