(* ===== verification/Markup.thy ===== *)
theory Markup
  imports Access
begin

text \<open>
  What a browser makes of the settings page. A tokeniser splits a page into its tags, as the
  HTML standard does for the constructs the pages use: text, tags with quoted attribute
  values, and the raw text of scripts and style sheets. The theory shows that the tags of the
  settings page, their attributes included, are those of a page with harmless settings: a
  stored value is never read as markup. The settings come from the form, from
  \<^verbatim>\<open>secrets.h\<close> and from flash, and may be any text.
\<close>

section \<open>A tokeniser\<close>

text \<open>
  \<open>Tag\<close> and \<open>Quoted\<close> carry the text of the tag read so far, in reverse and without what stands
  in quotes; \<open>Raw\<close> carries the closing tag it waits for and what is missing of it. A quote
  opens a value where the standard has it: after an equals sign.
\<close>

datatype html =
    Content
  | Tag string
  | Quoted char string
  | Raw string string

fun html_step :: "html \<Rightarrow> char \<Rightarrow> html" where
  "html_step Content c = (if c = CHR ''<'' then Tag [] else Content)"
| "html_step (Tag t) c =
     (if c = CHR ''>'' then
        (if t = rev ''script'' \<or> t = rev ''style''
         then Raw (''</'' @ rev t @ ''>'') (''</'' @ rev t @ ''>'') else Content)
      else if (c = CHR 0x27 \<or> c = CHR 0x22) \<and> t \<noteq> [] \<and> hd t = CHR ''='' then Quoted c (c # t)
      else Tag (c # t))"
| "html_step (Quoted q t) c = (if c = q then Tag (c # t) else Quoted q t)"
| "html_step (Raw close rest) c =
     (if rest \<noteq> [] \<and> hd rest = c then (if tl rest = [] then Content else Raw close (tl rest))
      else if c = CHR ''<'' then Raw close (tl close) else Raw close close)"

fun html_emit :: "html \<Rightarrow> char \<Rightarrow> string list" where
  "html_emit (Tag t) c = (if c = CHR ''>'' then [rev t] else [])"
| "html_emit (Raw close rest) c = (if rest = [c] then [close] else [])"
| "html_emit _ c = []"

primrec html_after :: "string \<Rightarrow> html \<Rightarrow> html" where
  "html_after [] h = h"
| "html_after (c # cs) h = html_after cs (html_step h c)"

primrec html_tags :: "html \<Rightarrow> string \<Rightarrow> string list" where
  "html_tags h [] = []"
| "html_tags h (c # cs) = html_emit h c @ html_tags (html_step h c) cs"

lemma html_after_append: "html_after (xs @ ys) h = html_after ys (html_after xs h)"
  by (induction xs arbitrary: h) simp_all

lemma html_tags_append: "html_tags h (xs @ ys) = html_tags h xs @ html_tags (html_after xs h) ys"
  by (induction xs arbitrary: h) simp_all

text \<open>Text that cannot leave the place it stands in, neither between tags nor in a quoted
  value.\<close>

definition inert :: "string \<Rightarrow> bool" where
  "inert v \<longleftrightarrow> set v \<inter> {CHR ''<'', CHR 0x27, CHR 0x22} = {}"

lemma inert_content:
  assumes "inert v"
  shows "html_after v Content = Content" and "html_tags Content v = []"
  using assms by (induction v) (auto simp: inert_def)

lemma inert_quoted:
  assumes "inert v" and "q \<in> {CHR 0x27, CHR 0x22}"
  shows "html_after v (Quoted q t) = Quoted q t" and "html_tags (Quoted q t) v = []"
  using assms by (induction v) (auto simp: inert_def)

lemma inert_append [simp]: "inert (v @ w) \<longleftrightarrow> inert v \<and> inert w"
  by (auto simp: inert_def)

lemma inert_literal [simp]: "inert []" "inert (c # v) \<longleftrightarrow> c \<notin> {CHR ''<'', CHR 0x27, CHR 0x22} \<and> inert v"
  by (auto simp: inert_def)

lemma inert_escape [simp]: "inert (htmlEscape v)"
proof (induction v)
  case (Cons c cs)
  then show ?case using esc_char_safe [of _ c] by (auto simp: inert_def)
qed simp

lemma inert_dec [simp]: "inert (dec n)"
proof -
  have "\<not> is_digit (CHR ''<'')" "\<not> is_digit (CHR 0x27)" "\<not> is_digit (CHR 0x22)"
    by (simp_all add: is_digit_def)
  then show ?thesis using dec_digits [of _ n] by (auto simp: inert_def)
qed

lemma inert_dec_word [simp]: "inert (dec_word w)"
  by (simp add: dec_word_def)

text \<open>The pieces of a page: in simplification a page falls into its literals, which compute,
  and its values, which are inert.\<close>

lemmas pieces = html_after_append html_tags_append inert_content inert_quoted

section \<open>The settings page\<close>

text \<open>The harmless settings: every text that is set becomes a single letter.\<close>

definition bland_text :: "string \<Rightarrow> string" where
  "bland_text v = (if v = [] then [] else ''x'')"

definition bland :: "settings \<Rightarrow> settings" where
  "bland st =
     \<lparr>uplinkSsid = bland_text (uplinkSsid st), uplinkEnterprise = uplinkEnterprise st,
      uplinkPass = bland_text (uplinkPass st), eapIdentity = bland_text (eapIdentity st),
      eapUsername = bland_text (eapUsername st), eapPassword = bland_text (eapPassword st),
      apSsid = bland_text (apSsid st), apPass = bland_text (apPass st),
      apIp = ip_unset, dns = ip_unset, ledBrightness = 0,
      adminUser = bland_text (adminUser st), adminPass = bland_text (adminPass st)\<rparr>"

text \<open>\<open>alike h p q h'\<close>: read from \<open>h\<close>, both \<open>p\<close> and \<open>q\<close> lead to \<open>h'\<close> and have the same tags.
  \<open>neat\<close> pieces stand between tags and are complete.\<close>

definition alike :: "html \<Rightarrow> string \<Rightarrow> string \<Rightarrow> html \<Rightarrow> bool" where
  "alike h p q h' \<longleftrightarrow> html_after p h = h' \<and> html_after q h = h' \<and> html_tags h p = html_tags h q"

abbreviation neat :: "string \<Rightarrow> string \<Rightarrow> bool" where
  "neat p q \<equiv> alike Content p q Content"

lemma alike_append: "alike h p q h1 \<Longrightarrow> alike h1 p' q' h2 \<Longrightarrow> alike h (p @ p') (q @ q') h2"
  by (simp add: alike_def pieces)

lemma alike_content: "inert v \<Longrightarrow> inert w \<Longrightarrow> neat v w"
  by (simp add: alike_def pieces)

lemma alike_quoted:
  "inert v \<Longrightarrow> inert w \<Longrightarrow> q \<in> {CHR 0x27, CHR 0x22} \<Longrightarrow> alike (Quoted q t) v w (Quoted q t)"
  by (simp add: alike_def pieces)

lemma alike_same: "html_after p h = h' \<Longrightarrow> alike h p p h'"
  by (simp add: alike_def)

lemma alike_if:
  "(b \<Longrightarrow> alike h p q h') \<Longrightarrow> (\<not> b \<Longrightarrow> alike h p' q' h') \<Longrightarrow> alike h (if b then p else p') (if b then q else q') h'"
  by simp

lemmas neat_append = alike_append [of Content _ _ Content _ _ Content]

lemma bland_fields [simp]:
  "uplinkEnterprise (bland st) = uplinkEnterprise st"
  "eapIdentity (bland st) = [] \<longleftrightarrow> eapIdentity st = []"
  "eapUsername (bland st) = [] \<longleftrightarrow> eapUsername st = []"
  "eapPassword (bland st) = [] \<longleftrightarrow> eapPassword st = []"
  "uplinkPass (bland st) = [] \<longleftrightarrow> uplinkPass st = []"
  by (simp_all add: bland_def bland_text_def)

lemma neat_kv:
  assumes "inert k" and "cls \<in> {None, Some ''up'', Some ''down''}"
  shows "neat (kv k v cls) (kv k w cls)"
  using assms by (auto simp: alike_def kv_def pieces)

lemma neat_led: "neat (form_led st) (form_led (bland st))"
  by (simp add: alike_def form_led_def pieces)

lemma neat_admin: "neat (form_admin st) (form_admin (bland st))"
  by (simp add: alike_def form_admin_def pieces)

lemma neat_network:
  assumes "\<And>ip. inert (ip_toString C ip)"
  shows "neat (form_network C st) (form_network C (bland st))"
  unfolding form_network_def bland_fields
  by ((rule alike_append | rule alike_if | rule alike_quoted, use assms in \<open>simp; fail\<close>, use assms in \<open>simp; fail\<close>, simp; fail
      | rule alike_same, simp; fail)+)

lemma neat_frame:
  "neat (pageHead (''SpoolGate '' @ [CHR 0xE2, CHR 0x80, CHR 0x94] @ '' Settings''))
     (pageHead (''SpoolGate '' @ [CHR 0xE2, CHR 0x80, CHR 0x94] @ '' Settings''))"
  "neat form_tabs form_tabs" "neat form_script form_script" "neat kPageFoot kPageFoot"
  by (rule alike_same, code_simp)+

lemma neat_status:
  fixes s :: "'a healths_scheme"
  shows "neat (appendStatus C e now s) (appendStatus C e now (s\<lparr>cfg := bland (cfg s)\<rparr>))"
proof -
  have eq: "napt_isEnabled (s\<lparr>cfg := bland (cfg s)\<rparr>) = napt_isEnabled s"
    "lastResetReason (s\<lparr>cfg := bland (cfg s)\<rparr>) = lastResetReason s"
    "cfg (s\<lparr>cfg := bland (cfg s)\<rparr>) = bland (cfg s)"
    by (simp_all add: napt_isEnabled_def lastResetReason_def)
  have h: "neat ''<h2>Current state</h2>'' ''<h2>Current state</h2>''" by (rule alike_same) code_simp
  show ?thesis
    unfolding appendStatus_def Let_def eq bland_fields
    by (intro neat_append alike_if neat_kv h alike_content) simp_all
qed

lemma neat_form:
  assumes "\<And>ip. inert (ip_toString C ip)"
  shows "neat (appendConfigForm C None s) (appendConfigForm C None (s\<lparr>cfg := bland (cfg s)\<rparr>))"
proof -
  have eq: "cfg (s\<lparr>cfg := bland (cfg s)\<rparr>) = bland (cfg s)" by simp
  show ?thesis
    unfolding appendConfigForm_def option.case eq
    by (intro neat_append neat_frame neat_network neat_led neat_admin assms; rule alike_same, code_simp)
qed

section \<open>Property\<close>

lemma save_check_text: "save_check P rq st = Inl err \<Longrightarrow> inert err"
  by (auto simp: save_check_def split: if_splits option.splits)

lemma neat_message:
  assumes "m = None \<or> (\<exists>rq st err. save_check P rq st = Inl err \<and> m = Some (err_html err))"
  shows "neat (case m of None \<Rightarrow> [] | Some h \<Rightarrow> h) (case m of None \<Rightarrow> [] | Some h \<Rightarrow> h)"
proof (rule alike_same)
  show "html_after (case m of None \<Rightarrow> [] | Some h \<Rightarrow> h) Content = Content"
    using assms save_check_text by (auto simp: err_html_def pieces)
qed

text \<open>C34. No stored value is read as markup. Whatever the settings hold, the browser finds in
  the settings page exactly the tags and attributes it finds with harmless settings that
  are set and unset in the same places, and the page leaves no tag, value or script open;
  also with the message of a rejected form. The address printer prints no bracket and no
  quote.\<close>

theorem settings_page_no_injection:
  fixes s :: "'a healths_scheme" and m :: "string option" and P :: plat
  assumes "\<And>ip. set (ip_toString (codec P) ip) \<inter> {CHR ''<'', CHR 0x27, CHR 0x22} = {}"
    and "m = None \<or> (\<exists>rq err. save_check P rq (cfg s) = Inl err \<and> m = Some (err_html err))"
  shows "html_tags Content (config_html (codec P) e now m s)
      = html_tags Content (config_html (codec P) e now m (s\<lparr>cfg := bland (cfg s)\<rparr>)) \<and>
    html_after (config_html (codec P) e now m s) Content = Content"
proof -
  have "inert (ip_toString (codec P) ip)" for ip using assms(1) by (simp add: inert_def)
  moreover have "neat (case m of None \<Rightarrow> [] | Some h \<Rightarrow> h) (case m of None \<Rightarrow> [] | Some h \<Rightarrow> h)"
    using assms(2) neat_message [of m P] by blast
  moreover have "neat ''<h1>SpoolGate</h1><p class=sub>Settings</p>'' ''<h1>SpoolGate</h1><p class=sub>Settings</p>''"
    by (rule alike_same) code_simp
  ultimately have "neat (config_html (codec P) e now m s) (config_html (codec P) e now m (s\<lparr>cfg := bland (cfg s)\<rparr>))"
    unfolding config_html_def by (intro neat_append neat_frame neat_status neat_form)
  then show ?thesis by (simp add: alike_def)
qed

lemma inert_dotted: "inert (ip_toString dotted ip)"
  by (cases ip) (simp add: dotted_def)

theorem settings_page_no_injection_witness:
  "let s = health_demo\<lparr>cfg := (cfg health_demo)\<lparr>uplinkSsid := [CHR 0x27] @ ''><script>alert(1)</script>''\<rparr>\<rparr>
   in html_tags Content (config_html dotted web_demo 0 (Some (err_html ''Upstream SSID cannot be empty.'')) s)
      = html_tags Content (config_html dotted web_demo 0 (Some (err_html ''Upstream SSID cannot be empty.''))
          (s\<lparr>cfg := bland (cfg s)\<rparr>))"
proof -
  have p: "codec demo_plat = dotted" by (simp add: demo_plat_def)
  have "save_check demo_plat (demo_request HTTP_POST ''/save'' []) st = Inl ''Upstream SSID cannot be empty.''" for st
    by (simp add: save_check_def arg_def demo_request_def trim_def)
  then show ?thesis
    using settings_page_no_injection [where P = demo_plat and e = web_demo and now = 0
        and m = "Some (err_html ''Upstream SSID cannot be empty.'')"
        and s = "health_demo\<lparr>cfg := (cfg health_demo)\<lparr>uplinkSsid := [CHR 0x27] @ ''><script>alert(1)</script>''\<rparr>\<rparr>"]
      inert_dotted
    unfolding p Let_def inert_def by blast
qed

end
