(* ===== verification/Json.thy ===== *)
theory Json
  imports Access
begin

text \<open>
  The state that \<^verbatim>\<open>/stat.json\<close> serves to scripts, read back. The reader is the JSON standard
  for what the firmware sends: an object without nesting whose values are integers, booleans
  and strings without escapes. It refuses what the standard refuses: a leading zero, a
  control character in a string, anything after the closing brace. The theory shows that
  the reader gets exactly the values the firmware meant to send, in every state.
\<close>

section \<open>A reader\<close>

datatype json = JInt int | JBool bool | JStr string

text \<open>What follows an opening quote, what a run of digits denotes, and a value; each with the
  rest of the text.\<close>

fun read_str :: "string \<Rightarrow> (string \<times> string) option" where
  "read_str [] = None"
| "read_str (c # cs) =
     (if c = CHR 0x22 then Some ([], cs)
      else if c = CHR 0x5C \<or> (of_char c :: nat) < 32 then None
      else map_option (\<lambda>(v, r). (c # v, r)) (read_str cs))"

definition read_nat :: "string \<Rightarrow> (nat \<times> string) option" where
  "read_nat s =
     (let ds = takeWhile is_digit s
      in if ds = [] \<or> (hd ds = CHR ''0'' \<and> length ds \<noteq> 1) then None
         else Some (undec ds, dropWhile is_digit s))"

definition read_value :: "string \<Rightarrow> (json \<times> string) option" where
  "read_value s =
     (if prefix ''true'' s then Some (JBool True, drop 4 s)
      else if prefix ''false'' s then Some (JBool False, drop 5 s)
      else if prefix [CHR 0x22] s then map_option (\<lambda>(v, r). (JStr v, r)) (read_str (tl s))
      else if prefix ''-'' s then map_option (\<lambda>(n, r). (JInt (- int n), r)) (read_nat (tl s))
      else map_option (\<lambda>(n, r). (JInt (int n), r)) (read_nat s))"

text \<open>The members of an object from the first key on, up to the brace that ends the text.\<close>

partial_function (option) read_members :: "string \<Rightarrow> (string \<times> json) list option" where
  "read_members s =
     (if \<not> prefix [CHR 0x22] s then None
      else Option.bind (read_str (tl s)) (\<lambda>(k, s1).
        if \<not> prefix '':'' s1 then None
        else Option.bind (read_value (tl s1)) (\<lambda>(v, s2).
          if s2 = ''}'' then Some [(k, v)]
          else if \<not> prefix '','' s2 then None
          else Option.bind (read_members (tl s2)) (\<lambda>ms. Some ((k, v) # ms)))))"

definition read_object :: "string \<Rightarrow> (string \<times> json) list option" where
  "read_object s =
     (if s = ''{}'' then Some [] else if prefix ''{'' s then read_members (tl s) else None)"

section \<open>Reading what was printed\<close>

text \<open>\<open>denotes v j\<close>: \<open>v\<close> reads as \<open>j\<close> wherever it ends at a comma or a brace.\<close>

definition denotes :: "string \<Rightarrow> json \<Rightarrow> bool" where
  "denotes v j \<longleftrightarrow> (\<forall>c r. c \<in> {CHR '','', CHR ''}''} \<longrightarrow> read_value (v @ c # r) = Some (j, c # r))"

lemma dec_no_leading_zero: "0 < n \<Longrightarrow> hd (dec n) \<noteq> CHR ''0''"
proof (induction n rule: dec.induct)
  case (1 n)
  show ?case
  proof (cases "n < 10")
    case True
    then have "of_char (digit_char n) \<noteq> (48 :: nat)" using 1(2) by (simp add: of_char_digit_char)
    then have "digit_char n \<noteq> CHR ''0''" by auto
    with True show ?thesis by (subst dec.simps) simp
  next
    case False
    then show ?thesis using 1(1) by (subst dec.simps) simp
  qed
qed

lemma read_nat_dec:
  assumes "c \<in> {CHR '','', CHR ''}''}"
  shows "read_nat (dec n @ c # r) = Some (n, c # r)"
proof -
  have c: "\<not> is_digit c" using assms by (auto simp: is_digit_def)
  have "takeWhile is_digit (dec n @ c # r) = dec n" "dropWhile is_digit (dec n @ c # r) = c # r"
    using dec_digits [of _ n] c by (simp_all add: takeWhile_append dropWhile_append)
  moreover have "hd (dec n) = CHR ''0'' \<Longrightarrow> length (dec n) = 1"
    using dec_no_leading_zero [of n] by (cases "n = 0") (simp_all add: dec.simps [of 0])
  ultimately show ?thesis by (auto simp: read_nat_def Let_def)
qed

lemma denotes_int: "denotes (dec_int z) (JInt z)"
proof -
  have d: "is_digit (hd (dec n))" for n using dec_digits [of "hd (dec n)" n] by simp
  have "\<not> prefix (d # ds) (dec n @ w)" if "\<not> is_digit d" for d ds n w
    using that d [of n] by (cases "dec n") auto
  moreover have "\<not> is_digit (CHR ''t'')" "\<not> is_digit (CHR ''f'')" "\<not> is_digit (CHR 0x22)" "\<not> is_digit (CHR ''-'')"
    by (simp_all add: is_digit_def)
  ultimately show ?thesis
    by (auto simp: denotes_def dec_int_def read_value_def read_nat_dec)
qed

lemma denotes_nat: "denotes (dec n) (JInt (int n))"
  using denotes_int [of "int n"] by (simp add: dec_int_def)

lemma denotes_word: "denotes (dec_word w) (JInt (uint w))"
  using denotes_nat [of "unat w"] by (simp add: dec_word_def)

lemma denotes_bool: "denotes (if b then ''true'' else ''false'') (JBool b)"
  by (auto simp: denotes_def read_value_def)

definition plain :: "string \<Rightarrow> bool" where
  "plain v \<longleftrightarrow> list_all (\<lambda>c. c \<noteq> CHR 0x22 \<and> c \<noteq> CHR 0x5C \<and> 32 \<le> (of_char c :: nat)) v"

lemma read_str_plain: "plain v \<Longrightarrow> read_str (v @ CHR 0x22 # r) = Some (v, r)"
  by (induction v) (auto simp: plain_def)

lemma denotes_str: "plain v \<Longrightarrow> denotes (json_quoted v) (JStr v)"
  by (simp add: denotes_def json_quoted_def read_value_def read_str_plain)

lemma read_members_object:
  assumes "list_all2 (\<lambda>(k, v) (k', j). k = k' \<and> plain k \<and> denotes v j) fs js" and "fs \<noteq> []"
  shows "read_members (tl (json_object False fs)) = Some js"
  using assms
proof (induction fs js rule: list_all2_induct)
  case (Cons f fs m js)
  obtain k v j where f: "f = (k, v)" "m = (k, j)" "plain k" "denotes v j"
    using Cons.hyps(1) by (auto split: prod.splits)
  have v: "read_value (v @ c # r) = Some (j, c # r)" if "c \<in> {CHR '','', CHR ''}''}" for c r
    using f(4) that unfolding denotes_def by blast
  show ?case
  proof (cases fs)
    case Nil
    then show ?thesis using Cons.hyps(2) v f
      by (subst read_members.simps) (simp add: json_quoted_def read_str_plain)
  next
    case (Cons g gs)
    then obtain r where r: "json_object False fs = CHR '','' # r" "r \<noteq> ''''"
      by (cases g) (simp add: json_quoted_def)
    then have "read_members r = Some js" using Cons.IH Cons by simp
    then show ?thesis using v f r
      by (subst read_members.simps) (simp add: json_quoted_def read_str_plain)
  qed
qed simp

text \<open>What the firmware means to send.\<close>

definition healthName_json :: "result \<Rightarrow> json" where
  "healthName_json r = JStr (case r of Ok \<Rightarrow> ''ok'' | Failed \<Rightarrow> ''fail'' | Unknown \<Rightarrow> ''unknown'')"

lemma denotes_health: "denotes (healthJson r) (healthName_json r)"
  by (cases r) (simp_all add: healthName_json_def denotes_str plain_def)

definition stat_values :: "web_env \<Rightarrow> u32 \<Rightarrow> u32 \<Rightarrow> u32 \<Rightarrow> 'a healths_scheme \<Rightarrow> (string \<times> json) list" where
  "stat_values e now bytes ms s =
     (let up = (wl_first e = WL_CONNECTED)
      in [(''uptime_s'', JInt (uint now div 1000)),
          (''uplink'', JBool up),
          (''napt'', JBool (napt_isEnabled s)),
          (''channel'', JInt (wifi_channel e)),
          (''sta_rssi'', JInt (if up then sta_rssi e else 0)),
          (''clients'', JInt (uint (stationNum e))),
          (''client_rssi'', JInt (clientRssi e)),
          (''health_up'', healthName_json (upstream s)),
          (''health_down'', healthName_json (downstream s)),
          (''heap_free'', JInt (uint (freeHeap e))),
          (''heap_min'', JInt (uint (minFreeHeap e))),
          (''heap_largest_block'', JInt (uint (maxAllocHeap e))),
          (''aplink_bytes'', JInt (uint bytes)),
          (''aplink_ms'', JInt (uint ms))])"

lemma stat_fields_denote:
  "list_all2 (\<lambda>(k, v) (k', j). k = k' \<and> plain k \<and> denotes v j) (stat_fields e now b m s) (stat_values e now b m s)"
proof -
  have "denotes (dec (unat now div 1000)) (JInt (uint now div 1000))"
    using denotes_nat [of "unat now div 1000"] by (simp add: zdiv_int)
  then show ?thesis
    by (simp add: stat_fields_def stat_values_def Let_def denotes_int denotes_word denotes_bool
        denotes_health plain_def)
qed

section \<open>Property\<close>

text \<open>C35. Whatever the state of the firmware and the answers of the framework, what
  \<^verbatim>\<open>/stat.json\<close> serves is one JSON object, and reading it gives the fourteen values the firmware
  meant to send, under their names and in order; signal strengths may be negative.\<close>

theorem stat_json_reads_back: "read_object (stat_json e now bytes ms s) = Some (stat_values e now bytes ms s)"
proof -
  let ?fs = "stat_fields e now bytes ms s"
  obtain k v fs where fs: "?fs = (k, v) # fs" by (simp add: stat_fields_def Let_def)
  then have "stat_json e now bytes ms s = CHR ''{'' # tl (json_object False ?fs)"
    by (simp add: stat_json_def)
  moreover have "tl (json_object False ?fs) \<noteq> ''}''" by (simp add: fs json_quoted_def)
  ultimately show ?thesis
    using read_members_object [OF stat_fields_denote, of e now bytes ms s] fs
    by (simp add: read_object_def)
qed

end
