(* ===== verification/Spec2Isabelle.thy ===== *)
theory Spec2Isabelle
  imports Debug Logbytes Tasks Supervision Progress Markup Json
begin

text \<open>
  SpoolGate is the firmware of an ESP32-S3 that joins an upstream WiFi network as a station,
  offers a private network of its own, and forwards between them with NAPT. This development
  models its C++ sources under \<^verbatim>\<open>src/\<close> and proves the parts correct and safe together.

  The program and the model. The firmware is single-threaded logic in \<open>loop()\<close> of
  \<^verbatim>\<open>src/main.cpp\<close>, which calls the components in turn, and is interrupted by the WiFi event
  callback, the ping task's callbacks, a supervisor task on the other core, and log output of
  the framework. Each component's global variables are a record that extends the record of
  the component below, so that the whole firmware state is one record, and each function of
  the source is a function on it, with the same name where Isabelle allows it. Values keep
  their width (\<open>u8\<close>, \<open>u32\<close>), so that counters and the millisecond clock wrap as they do on the
  board. Every call of \<open>millis()\<close> reads the next entry of a clock tape; \<open>real_time\<close> relates the
  tape to a real time that does not wrap. Calls to the framework and the hardware are
  recorded in order; their answers are arguments.

  \<^item> Prelude: decimal printing, addresses, reachability, and the locales \<open>invariant_of\<close> (an
    invariant of a transition system) and \<open>simulation\<close> (a refinement of an abstract one).
  \<^item> Logbuf, Logbytes (\<^verbatim>\<open>src/logbuf.cpp\<close>): the log ring. Logbuf works on lists of lines and
    proves what a reader sees, also when writers run between its critical sections;
    Logbytes has the loops on character arrays with every index checked, and proves that
    they end, stay in bounds and refine Logbuf.
  \<^item> Platform: the clock, the two ways into the log, and the calls.
  \<^item> Statusled (\<^verbatim>\<open>src/statusled.cpp\<close>), Watchdog (\<^verbatim>\<open>src/watchdog.cpp\<close>), Config
    (\<^verbatim>\<open>src/config.cpp\<close>), Napt (\<^verbatim>\<open>src/net/napt.cpp\<close>), Health (\<^verbatim>\<open>src/net/health.cpp\<close>), Net
    (\<^verbatim>\<open>src/net/softap.cpp\<close>, \<^verbatim>\<open>src/net/uplink.cpp\<close>): one component each.
  \<^item> Html, Portal, Access, Sessions (\<^verbatim>\<open>src/web/portal.cpp\<close>): the pages character for character;
    the handlers and routes; who may do what; what logins, forms and throughput runs do.
  \<^item> Router (\<^verbatim>\<open>src/main.cpp\<close>): \<open>setup()\<close>, the event callback and the stages of \<open>loop()\<close>;
    Connection: the transition system of the firmware and the connection state machine in
    it; Policy: NAPT, recovery and the status line; Firmware: the devices and the stored
    configuration over whole executions; Supervision: the supervisor beside turns, events
    and callbacks in any order; Debug: the build with \<^verbatim>\<open>NAT_DEBUG\<close>; Preempt: two
    stages cut where the event callback may preempt them; Tasks: the loop and the callback
    cut at every access to a shared flag; Life: the board over many boots, with power lost at
    any moment; Service: a whole turn of the loop, from the events to the forwarding and the
    LED; Progress: sequences of turns.
  \<^item> Markup, Json: what a browser and a script read in the pages of theory Html.

  What is shown. Connection: exactly one of three flags is set in every reachable state, the
  system refines a three-state machine, and it cannot stall: an attempt without an address is
  given up, and a pending retry begins, in the first turn of the loop after its time, whatever
  the turns serve; with the callback preempting the
  loop inside its stages it is still never wedged, with one exception. Policy: NAPT follows
  the state of the links, leaves DHCP its window, an address and a lease bring the service up
  within one turn of the loop, and recovery acts exactly on links that stopped carrying
  packets. Portal: nothing off the private network, nothing protected without a session,
  settings change only through a valid form, go on air call by call at the next boot, and
  survive reboots, interrupted saves and firmware with other secrets; a session lasts 15
  minutes beyond its last use; secrets reach neither pages nor logs, no stored value is read
  as markup, and the state served to scripts reads back. Devices: ping handles are used
  safely, the LED and the NAPT flag tell the truth, the supervisor reboots what is stalled
  and, reads undisturbed, nothing else. Some theorems state what the code does where it surely
  means something else: deadlines as absolute times at the rollover of the clock, races of the
  supervisor and of the event callback with \<open>loop()\<close>, a retry cut short by its
  own teardown, a recovery that schedules twice, a client judged by its predecessor's history,
  a page whose script cannot run, forms that are accepted although no later boot can bring up
  the access point, or finds an administrator's name.

  Interfaces. \<open>invariant_of\<close> and \<open>simulation\<close> are interpreted on the
  connection, its preemptive version, the devices, the portal, the whole firmware, the debug
  build and the life of a board; \<open>patient_loop\<close> on pending reconnects and on running
  attempts (Progress); \<open>nvs_store\<close> and \<open>ip_codec\<close> (Config)
  are what the settings need of the flash store and of the address format, interpreted on a
  map and on dotted decimal; \<open>nat_switch\<close> (Napt) is what the reconciliation needs
  of the switch; \<open>lan_only\<close>, \<open>behind_login\<close> and
  \<open>answering\<close> (Access) are the contracts of handlers, interpreted on every route;
  the probe's locale in Health is interpreted on both directions.

  Granularity. The event callback and the ping callbacks run between stages of \<open>loop()\<close>, each
  atomically; the steps allow the stages in any order, which includes that of the code. The
  supervisor may run between any two stages and is itself cut at each read of a shared word.
  \<open>ESP.restart()\<close> does not return: \<open>router_loop\<close> ends in the portal when a reboot is due, and does
  nothing on a board that has been restarted, by the portal or by the supervisor (\<open>halted\<close>);
  the single steps of \<open>router_step\<close> may go on after it, which only adds executions to the
  safety theorems. What the framework answers while a request is served and what it answers
  to the loop itself are separate arguments of a turn.
  The log is read one line per critical section. Preemption inside the stages that
  write the flags of the connection, and inside the events that do, is modelled at every
  access to a flag (theories Preempt and Tasks): there exactly one flag is no longer the
  invariant, but the connection is still never wedged, with one exception; the system above
  is the part of that one without preemption. The reconciliation
  of NAPT is cut between its decision and its action. Inside the other stages, which only
  read the flags, the callback is not interleaved.

  Bounds. No fuel is used: the loops on arrays are partial functions whose result is proved
  to exist, all others terminate by a measure. The throughput run counts bytes in a natural
  number, which is exact since a run is at most 64 MiB. Theorems on intervals assume that the
  interval measured is below one turn of the 32-bit counter (49.7 days); theorems on absolute
  deadlines (the retry, the session, the reboot after a save) assume that the counter does not
  roll over between the deadline and its test, and others show what happens when it does.

  Texts. A \<open>String\<close> may hold a NUL character, \<open>putString\<close> stores what precedes it (\<open>stored\<close>). The
  theorems on the life of a board therefore speak of forms without one (\<open>no_nul\<close>, \<open>plain_step\<close>).

  Not modelled: what \<open>vsnprintf\<close> does with a format (the resulting text is written out), the
  HTTP parser and the chunk framing of the server library, failures of the flash driver to
  write (a save interrupted between two writes is), the memory allocator apart from the one
  \<open>malloc\<close> that is checked, the scheduler (priorities and stack sizes are recorded in the
  calls), the reordering of accesses to the flags, which are plain variables, by compiler and
  cache, what the ping task does with its session's configuration, how long a delay
  of the supervisor lasts beyond its interval (a hypothesis), and \<^verbatim>\<open>tools/speedtest.ps1\<close>, which runs on a laptop. \<^verbatim>\<open>secrets.h\<close> is a
  parameter.
\<close>

section \<open>Properties that span components\<close>

text \<open>C7. Under every interleaving of the whole firmware the devices are driven as they must
  be: the ping API only ever gets handles of open sessions and the open ones are those of
  the running probes, at most two; the cache of the status LED is empty or tells the colour
  the LED shows; and when the NAPT flag is set, NAPT on is the last the driver was told.\<close>

theorem firmware_devices_safe:
  assumes "reach (router_init P sec) (router_step P) s"
  shows "sess {#} (calls s) =
      Some ((if running (g_up s) then {#the (p_handle (g_up s))#} else {#})
        + (if running (g_down s) then {#the (p_handle (g_down s))#} else {#})) \<and>
    led_sync s \<and> (s_enabled s \<longrightarrow> driver_napt False (calls s))"
  using devs.always [OF assms]
  by (auto simp: hw_ok_def health_ok_def probe_ok_def handles_def)

theorem firmware_devices_safe_witness:
  "let s = onWiFiEvent dotted (STA_GOT_IP (IP 10 0 0 7) (IP 10 0 0 1) (IP 1 1 1 1) 6) (router_loop demo_plat env_demo booted)
   in led_sync s \<and> (s_enabled s \<longrightarrow> driver_napt False (calls s))"
proof -
  have "codec demo_plat = dotted" by (simp add: demo_plat_def)
  then have "reach (router_init demo_plat demo_secrets) (router_step demo_plat)
      (onWiFiEvent dotted (STA_GOT_IP (IP 10 0 0 7) (IP 10 0 0 1) (IP 1 1 1 1) 6) (router_loop demo_plat env_demo booted))"
    using reach_step [OF reach_loop [OF reach_booted]]
      rs_event [of demo_plat "router_loop demo_plat env_demo booted" "STA_GOT_IP (IP 10 0 0 7) (IP 10 0 0 1) (IP 1 1 1 1) 6"]
    by metis
  from firmware_devices_safe [OF this] show ?thesis by (simp add: Let_def del: onWiFiEvent.simps)
qed

text \<open>In every reachable state, after the loop has driven the LED, it shows the truth: steady
  magenta when the access point failed to start, otherwise flashing red, amber or blue as
  the connection is not online, is online without a client, or is online with one.\<close>

theorem led_tells_link_state:
  assumes "reach (router_init P sec) (router_step P) s"
  shows "shown (status_led s) = Some (scaled (g_brightness s) (led_expected
    (if softApFailed s then Fault
     else if fst (link_of s) \<noteq> Online then UpstreamDown
     else if radioStations s = 0 then NoClients else Connected)
    (clock s (tick s))))"
proof -
  have "led_sync s" using devs.always [OF assms] by (simp add: hw_ok_def)
  then show ?thesis
    by (auto simp: status_led_def ledState_def link_of_def led_update_eq led_write_shown)
qed

theorem led_tells_link_state_witness:
  "shown (status_led booted) = Some (scaled (g_brightness booted) (led_expected
     (if softApFailed booted then Fault else UpstreamDown) (clock booted (tick booted))))"
proof -
  have "fst (link_of booted) = Attempting"
    using setup_conn(2) [OF power_on_demo, of demo_plat demo_secrets boot_demo] by (simp add: booted_def)
  then show ?thesis using led_tells_link_state [OF reach_booted] by simp
qed

text \<open>From one boot on, whatever requests, events and callbacks arrive in whatever order: a
  configuration usable at boot stays usable, the flash holds exactly what is in force, so
  that the next boot finds the same, and the session is closed or held by a token of 32
  hexadecimal digits. (No form carries a NUL character.)\<close>

theorem firmware_config_safe:
  assumes "ip_codec (codec P)" and "reach (usable_init P sec) (plain_step P) s"
  shows "cfg_usable (cfg s) \<and> config_begin flash_ops (codec P) sec (nvs s) = (cfg s, nvs s) \<and>
    (g_session s = [] \<or> token_ok (g_session s))"
  using whole.always [OF assms(2)] assms(1) by (simp add: portal_inv_def)

theorem firmware_config_safe_witness:
  "let s = onWiFiEvent dotted STA_LOST_IP booted
   in cfg_usable (cfg s) \<and> config_begin flash_ops dotted demo_secrets (nvs s) = (cfg s, nvs s)"
proof -
  let ?t = "onWiFiEvent dotted STA_LOST_IP booted"
  have c: "codec demo_plat = dotted" by (simp add: demo_plat_def)
  have "nvs router_demo = Map.empty" by (simp add: router_demo_fields)
  then have b: "cfg booted = loadFromDefaults demo_secrets"
    using setup_config(1) [of demo_plat demo_secrets boot_demo router_demo]
    by (simp add: booted_def config_begin_def isKey_def flash_ops_def Let_def)
  then have u: "cfg_usable (cfg booted)"
    by (simp add: cfg_usable_def loadFromDefaults_def demo_secrets_def)
  have "router_init demo_plat demo_secrets booted"
    using power_on_demo by (auto simp: router_init_def booted_def)
  then have r: "reach (usable_init demo_plat demo_secrets) (plain_step demo_plat) booted"
    using u by (intro reach_init) (simp add: usable_init_def)
  have "cfg ?t = cfg booted" using apart_stages(11) [of booted dotted STA_LOST_IP] by (simp add: apart_def guarded_data_def)
  then have "no_nul (cfg ?t)" by (simp add: b no_nul_def loadFromDefaults_def demo_secrets_def)
  then have "plain_step demo_plat booted ?t"
    using rs_event [of demo_plat booted STA_LOST_IP] by (simp add: plain_step_def c del: onWiFiEvent.simps)
  from firmware_config_safe [OF _ reach_step [OF r this]] show ?thesis
    by (simp add: c dotted.ip_codec_axioms Let_def del: onWiFiEvent.simps)
qed

end
